theory Spec2Isabelle
  imports
    Main
    "HOL-Library.Word"
    "HOL-Library.AList"
    "HOL-Library.Char_ord"
    "HOL-Library.List_Lexorder"
    "HOL-Library.Sublist"
begin

unbundle bit_operations_syntax

chapter \<open>Virtual structure service of hetida designer: model and verified properties\<close>

section \<open>Basic values\<close>

text \<open>
  A \<^verbatim>\<open>uuid.UUID\<close> is a 128 bit number. \<^verbatim>\<open>str(u)\<close> prints it as 32 lower-case
  hexadecimal digits in the groups 8-4-4-4-12, \<^verbatim>\<open>repr(u)\<close> wraps that in
  \<^verbatim>\<open>UUID('...')\<close>, and the \<^verbatim>\<open>repr\<close> of a list joins the items with a comma and a blank
  inside square brackets. These renderings only occur inside error messages.
\<close>

type_synonym uuid = "128 word"

definition hexdigit :: "nat \<Rightarrow> char" where
  "hexdigit n = ''0123456789abcdef'' ! (n mod 16)"

definition UUID_hex :: "uuid \<Rightarrow> string" where
  "UUID_hex u = map (\<lambda>i. hexdigit (unat (drop_bit (4 * (31 - i)) u AND 15))) [0..<32]"

definition UUID_str :: "uuid \<Rightarrow> string" where
  "UUID_str u =
     (let h = UUID_hex u in
      take 8 h @ ''-'' @ take 4 (drop 8 h) @ ''-'' @ take 4 (drop 12 h) @ ''-''
        @ take 4 (drop 16 h) @ ''-'' @ drop 20 h)"

definition UUID_repr :: "uuid \<Rightarrow> string" where
  "UUID_repr u = ''UUID('' @ [CHR 0x27] @ UUID_str u @ [CHR 0x27] @ '')''"

fun join :: "string \<Rightarrow> string list \<Rightarrow> string" where
  "join sep [] = []"
| "join sep [x] = x"
| "join sep (x # y # ys) = x @ sep @ join sep (y # ys)"

definition list_repr :: "uuid list \<Rightarrow> string" where
  "list_repr us = ''['' @ join '', '' (map UUID_repr us) @ '']''"

text \<open>
  Values of type \<^verbatim>\<open>Any\<close> (filter values, meta data) are JSON values. Floating point
  numbers are left out: no operation of the service computes with them. \<open>falsy\<close> is
  Python's truth test \<^verbatim>\<open>not v\<close> on such a value.
\<close>

datatype json =
    JNull
  | JBool bool
  | JInt int
  | JStr string
  | JList "json list"
  | JDict "(string \<times> json) list"

fun falsy :: "json \<Rightarrow> bool" where
  "falsy JNull = True"
| "falsy (JBool b) = (\<not> b)"
| "falsy (JInt i) = (i = 0)"
| "falsy (JStr s) = (s = [])"
| "falsy (JList xs) = (xs = [])"
| "falsy (JDict kvs) = (kvs = [])"

text \<open>
  Exceptions are values. Each constructor carries the message the code builds.
  \<open>Returned s\<close> is a normal return that leaves the mutable state \<open>s\<close>; \<open>Raised e s\<close> is
  an exception \<open>e\<close> that leaves the state \<open>s\<close> behind (objects that were mutated in
  place before the exception stay mutated).
\<close>

datatype error =
    DBNotFoundError string
  | DBIntegrityError string
  | DBUpdateError string
  | DBError string
  | AdapterHandlingException string
  | ValidationError "string list"
  | ValueError string
  | TypeError string
  | ZeroDivisionError string
  | MultipleResultsFound string
  | IntegrityError string
  | ProgrammingError string
  | AssertionError

datatype 's outcome = Returned 's | Raised error 's

fun final_state :: "'s outcome \<Rightarrow> 's" where
  "final_state (Returned s) = s"
| "final_state (Raised e s) = s"

section \<open>The catalog models (\<^verbatim>\<open>hetdesrun/structure/models.py\<close>)\<close>

text \<open>
  The four entity classes derive from \<^verbatim>\<open>StructureServiceCommonFieldsModel\<close>; each of them
  adds its own \<^verbatim>\<open>id\<close>. Field names are kept; where two classes have a field of the same
  name the selector is written with the class name in front.
  The ORM classes of \<^verbatim>\<open>structure_service_dbmodels.py\<close> have the same columns as the
  pydantic classes, so one record type serves for a stored row and for the model read
  from it.
\<close>

datatype FilterType = free_text

record Filter =
  name :: string
  internal_name :: string
  type :: FilterType
  required :: bool

record StructureServiceCommonFieldsModel =
  external_id :: string
  stakeholder_key :: string
  name :: string

record StructureServiceElementType = StructureServiceCommonFieldsModel +
  id :: uuid
  description :: "string option"

record StructureServiceThingNode = StructureServiceCommonFieldsModel +
  id :: uuid
  description :: string
  parent_node_id :: "uuid option"
  parent_external_node_id :: "string option"
  element_type_id :: uuid
  element_type_external_id :: string
  meta_data :: "json option"

record StructureServiceSource = StructureServiceCommonFieldsModel +
  id :: uuid
  type :: string
  visible :: bool
  display_path :: string
  preset_filters :: "string \<rightharpoonup> json"
  passthrough_filters :: "Filter list option"
  adapter_key :: string
  source_id :: string
  ref_key :: "string option"
  ref_id :: string
  meta_data :: "json option"
  thing_node_external_ids :: "string list option"

record StructureServiceSink = StructureServiceCommonFieldsModel +
  id :: uuid
  type :: string
  visible :: bool
  display_path :: string
  preset_filters :: "string \<rightharpoonup> json"
  passthrough_filters :: "Filter list option"
  adapter_key :: string
  sink_id :: string
  ref_key :: "string option"
  ref_id :: string
  meta_data :: "json option"
  thing_node_external_ids :: "string list option"

text \<open>
  \<^verbatim>\<open>check_not_empty\<close>, the validator of the three common fields: one message for each
  field that is empty, in the order of declaration. Where pydantic raises a
  \<^verbatim>\<open>ValidationError\<close>, the model carries the messages of the validators that failed.
\<close>

definition check_not_empty :: "'a StructureServiceCommonFieldsModel_scheme \<Rightarrow> string list" where
  "check_not_empty m =
     (if external_id m = [] then [''The field external_id cannot be empty.''] else [])
     @ (if stakeholder_key m = [] then [''The field stakeholder_key cannot be empty.''] else [])
     @ (if StructureServiceCommonFieldsModel.name m = []
        then [''The field name cannot be empty.''] else [])"

text \<open>
  \<^verbatim>\<open>validate_filters\<close> runs on every value of \<^verbatim>\<open>preset_filters\<close> before the field is
  stored: a falsy value becomes the empty dict.
\<close>

definition validate_filters :: "json \<Rightarrow> json" where
  "validate_filters v = (if falsy v then JDict [] else v)"

text \<open>
  \<^verbatim>\<open>from_orm_model\<close> builds the pydantic model from a row and so runs the validators
  again. The thing node variant turns a validation error into \<^verbatim>\<open>DBIntegrityError\<close>; the
  source and sink variants let it through. Two checks of that validation are not
  modelled: that \<open>type\<close> is a member of the enumeration \<^verbatim>\<open>ExternalType\<close>, and the
  re-validation of the stored filter declarations.
\<close>

definition ThingNode_from_orm_model ::
  "StructureServiceThingNode \<Rightarrow> error + StructureServiceThingNode" where
  "ThingNode_from_orm_model orm_model =
     (case check_not_empty orm_model of
        [] \<Rightarrow> Inr orm_model
      | msgs \<Rightarrow>
          Inl (DBIntegrityError
            (''Could not validate db entry for id '' @ UUID_str (StructureServiceThingNode.id orm_model)
              @ ''. Validation error was:'' @ [CHR 0x0A] @ join [CHR 0x0A] msgs)))"

definition Source_from_orm_model ::
  "StructureServiceSource \<Rightarrow> error + StructureServiceSource" where
  "Source_from_orm_model orm_model =
     (case check_not_empty orm_model of
        [] \<Rightarrow>
          Inr (orm_model\<lparr>StructureServiceSource.preset_filters :=
                 map_option validate_filters \<circ> StructureServiceSource.preset_filters orm_model\<rparr>)
      | msgs \<Rightarrow> Inl (ValidationError msgs))"

definition Sink_from_orm_model ::
  "StructureServiceSink \<Rightarrow> error + StructureServiceSink" where
  "Sink_from_orm_model orm_model =
     (case check_not_empty orm_model of
        [] \<Rightarrow>
          Inr (orm_model\<lparr>StructureServiceSink.preset_filters :=
                 map_option validate_filters \<circ> StructureServiceSink.preset_filters orm_model\<rparr>)
      | msgs \<Rightarrow> Inl (ValidationError msgs))"


section \<open>The stored catalog\<close>

text \<open>
  The six tables of \<^verbatim>\<open>structure_service_dbmodels.py\<close>. An entity table is the list of
  its rows in the order in which a query without \<^verbatim>\<open>ORDER BY\<close> yields them. An
  association table has the two ids as its composite primary key, so it is the set of
  its rows, the pairs \<open>(thingnode_id, source_id)\<close> or \<open>(thingnode_id, sink_id)\<close>.
\<close>

record database =
  structure_element_type :: "StructureServiceElementType list"
  structure_thing_node :: "StructureServiceThingNode list"
  structure_source :: "StructureServiceSource list"
  structure_sink :: "StructureServiceSink list"
  structure_thingnode_source_association :: "(uuid \<times> uuid) set"
  structure_thingnode_sink_association :: "(uuid \<times> uuid) set"

section \<open>Fetching sources and sinks by id (\<^verbatim>\<open>source_sink_service.py\<close>)\<close>

text \<open>
  \<^verbatim>\<open>itertools.batched(xs, n)\<close> cuts \<open>xs\<close> into consecutive pieces of \<open>n\<close> items, the last
  one possibly shorter. It is only called with \<open>n \<ge> 1\<close> here.
\<close>

function batched :: "'a list \<Rightarrow> nat \<Rightarrow> 'a list list" where
  "batched xs n = (if xs = [] \<or> n = 0 then [] else take n xs # batched (drop n xs) n)"
  by pat_completeness auto
termination
  by (relation "measure (\<lambda>(xs, n). length xs)") auto

declare batched.simps [simp del]

text \<open>\<^verbatim>\<open>math.ceil(a / b)\<close> for natural numbers \<open>a\<close> and \<open>b > 0\<close>.\<close>

definition ceil_div :: "nat \<Rightarrow> nat \<Rightarrow> nat" where
  "ceil_div a b = (a + b - 1) div b"

text \<open>
  The inner loop \<^verbatim>\<open>for src in batch_results: sources[src.id] = from_orm_model(src)\<close>.
  A Python dict keeps its keys in the order of their first insertion and an assignment
  to a key that is present replaces the value in place: this is \<^const>\<open>AList.update\<close> on
  an association list.
\<close>

fun store_sources ::
  "(uuid \<times> StructureServiceSource) list \<Rightarrow> StructureServiceSource list
    \<Rightarrow> error + (uuid \<times> StructureServiceSource) list" where
  "store_sources sources [] = Inr sources"
| "store_sources sources (src # batch_results) =
     (case Source_from_orm_model src of
        Inl e \<Rightarrow> Inl e
      | Inr m \<Rightarrow>
          store_sources (AList.update (StructureServiceSource.id src) m sources) batch_results)"

text \<open>
  The outer loop over the batches. The query
  \<^verbatim>\<open>session.query(M).filter(M.id.in_(id_batch)).all()\<close> yields the rows of the table whose
  id is in the batch, in table order.
\<close>

fun query_source_batches ::
  "StructureServiceSource list \<Rightarrow> (uuid \<times> StructureServiceSource) list \<Rightarrow> uuid list list
    \<Rightarrow> error + (uuid \<times> StructureServiceSource) list" where
  "query_source_batches tbl sources [] = Inr sources"
| "query_source_batches tbl sources (id_batch # batches) =
     (case store_sources sources
             (filter (\<lambda>r. StructureServiceSource.id r \<in> set id_batch) tbl) of
        Inl e \<Rightarrow> Inl e
      | Inr sources' \<Rightarrow> query_source_batches tbl sources' batches)"

definition fetch_collection_of_sources_from_db_by_id ::
  "database \<Rightarrow> uuid list \<Rightarrow> nat \<Rightarrow> error + (uuid \<times> StructureServiceSource) list" where
  "fetch_collection_of_sources_from_db_by_id db src_ids batch_size =
     (if src_ids = [] then Inr []
      else if batch_size = 0 then Inl (ZeroDivisionError ''division by zero'')
      else
        (case query_source_batches (structure_source db) []
                (batched src_ids (ceil_div (length src_ids) batch_size)) of
           Inl e \<Rightarrow> Inl e
         | Inr sources \<Rightarrow>
             if sources = []
             then Inl (DBNotFoundError
                    (''No StructureServiceSources found for IDs '' @ list_repr src_ids))
             else Inr sources))"

fun store_sinks ::
  "(uuid \<times> StructureServiceSink) list \<Rightarrow> StructureServiceSink list
    \<Rightarrow> error + (uuid \<times> StructureServiceSink) list" where
  "store_sinks sinks [] = Inr sinks"
| "store_sinks sinks (sink # batch_results) =
     (case Sink_from_orm_model sink of
        Inl e \<Rightarrow> Inl e
      | Inr m \<Rightarrow>
          store_sinks (AList.update (StructureServiceSink.id sink) m sinks) batch_results)"

fun query_sink_batches ::
  "StructureServiceSink list \<Rightarrow> (uuid \<times> StructureServiceSink) list \<Rightarrow> uuid list list
    \<Rightarrow> error + (uuid \<times> StructureServiceSink) list" where
  "query_sink_batches tbl sinks [] = Inr sinks"
| "query_sink_batches tbl sinks (id_batch # batches) =
     (case store_sinks sinks
             (filter (\<lambda>r. StructureServiceSink.id r \<in> set id_batch) tbl) of
        Inl e \<Rightarrow> Inl e
      | Inr sinks' \<Rightarrow> query_sink_batches tbl sinks' batches)"

definition fetch_collection_of_sinks_from_db_by_id ::
  "database \<Rightarrow> uuid list \<Rightarrow> nat \<Rightarrow> error + (uuid \<times> StructureServiceSink) list" where
  "fetch_collection_of_sinks_from_db_by_id db sink_ids batch_size =
     (if sink_ids = [] then Inr []
      else if batch_size = 0 then Inl (ZeroDivisionError ''division by zero'')
      else
        (case query_sink_batches (structure_sink db) []
                (batched sink_ids (ceil_div (length sink_ids) batch_size)) of
           Inl e \<Rightarrow> Inl e
         | Inr sinks \<Rightarrow>
             if sinks = []
             then Inl (DBNotFoundError
                    (''No StructureServiceSinks found for IDs '' @ list_repr sink_ids))
             else Inr sinks))"

section \<open>Wiring resolution (\<^verbatim>\<open>virtual_structure_adapter/utils.py\<close>, \<^verbatim>\<open>resolve_wirings.py\<close>)\<close>

text \<open>
  Modelled from the spec: the classes \<^verbatim>\<open>InputWiring\<close>, \<^verbatim>\<open>OutputWiring\<close>,
  \<^verbatim>\<open>WorkflowWiring\<close> and \<^verbatim>\<open>RefIdType\<close> of \<^verbatim>\<open>hetdesrun.models\<close> are missing from the
  sources. A wiring carries \<open>adapter_id\<close>, \<open>ref_id\<close>, \<open>type\<close>, \<open>filters\<close> and optionally
  \<open>ref_key\<close> and \<open>ref_id_type\<close>; a workflow wiring is a pair of lists. An input wiring
  and an output wiring differ in the name of one field only
  (\<^verbatim>\<open>workflow_input_name\<close>, \<^verbatim>\<open>workflow_output_name\<close>), here \<open>workflow_name\<close>.
  Of the reference kinds, the code names \<open>THINGNODE\<close>.
\<close>

datatype RefIdType = SOURCE | SINK | THINGNODE

record Wiring =
  workflow_name :: string
  adapter_id :: string
  ref_id :: string
  ref_id_type :: "RefIdType option"
  ref_key :: "string option"
  type :: string
  filters :: "string \<rightharpoonup> json"

record WorkflowWiring =
  input_wirings :: "Wiring list"
  output_wirings :: "Wiring list"

datatype source_or_sink =
    Source StructureServiceSource
  | Sink StructureServiceSink

fun sos_adapter_key :: "source_or_sink \<Rightarrow> string" where
  "sos_adapter_key (Source s) = StructureServiceSource.adapter_key s"
| "sos_adapter_key (Sink s) = StructureServiceSink.adapter_key s"

fun sos_ref_id :: "source_or_sink \<Rightarrow> string" where
  "sos_ref_id (Source s) = StructureServiceSource.ref_id s"
| "sos_ref_id (Sink s) = StructureServiceSink.ref_id s"

fun sos_ref_key :: "source_or_sink \<Rightarrow> string option" where
  "sos_ref_key (Source s) = StructureServiceSource.ref_key s"
| "sos_ref_key (Sink s) = StructureServiceSink.ref_key s"

fun sos_preset_filters :: "source_or_sink \<Rightarrow> (string \<rightharpoonup> json)" where
  "sos_preset_filters (Source s) = StructureServiceSource.preset_filters s"
| "sos_preset_filters (Sink s) = StructureServiceSink.preset_filters s"

fun sos_id :: "source_or_sink \<Rightarrow> uuid" where
  "sos_id (Source s) = StructureServiceSource.id s"
| "sos_id (Sink s) = StructureServiceSink.id s"

text \<open>
  \<^verbatim>\<open>update_wirings\<close>. The dict union \<^verbatim>\<open>a | b\<close> is \<open>a ++ b\<close> on maps: the right operand
  wins where both have the key.
\<close>

definition update_wirings :: "Wiring \<Rightarrow> source_or_sink \<Rightarrow> Wiring" where
  "update_wirings wiring source_or_sink =
     (let wiring = wiring\<lparr>adapter_id := sos_adapter_key source_or_sink\<rparr>;
          wiring =
            (if Wiring.type wiring = ''metadata(any)''
             then wiring\<lparr>Wiring.ref_id := sos_ref_id source_or_sink,
                         Wiring.ref_key := sos_ref_key source_or_sink,
                         ref_id_type := Some THINGNODE\<rparr>
             else wiring\<lparr>Wiring.ref_id :=
                    (case source_or_sink of
                       Source s \<Rightarrow> source_id s
                     | Sink s \<Rightarrow> sink_id s)\<rparr>)
      in wiring\<lparr>Wiring.filters := Wiring.filters wiring ++ sos_preset_filters source_or_sink\<rparr>)"

text \<open>\<^verbatim>\<open>get_enumerated_ids_of_vst_sources_or_sinks\<close>: the loop over \<^verbatim>\<open>enumerate(wirings)\<close>,
  started at index \<open>i\<close>.\<close>

fun enumerate_vst :: "nat \<Rightarrow> Wiring list \<Rightarrow> nat list \<times> string list" where
  "enumerate_vst i [] = ([], [])"
| "enumerate_vst i (wiring # wirings) =
     (let (indices, ref_ids) = enumerate_vst (Suc i) wirings in
      if adapter_id wiring = ''virtual-structure-adapter''
      then (i # indices, Wiring.ref_id wiring # ref_ids)
      else (indices, ref_ids))"

definition get_enumerated_ids_of_vst_sources_or_sinks ::
  "Wiring list \<Rightarrow> nat list \<times> string list" where
  "get_enumerated_ids_of_vst_sources_or_sinks wirings = enumerate_vst 0 wirings"

text \<open>
  The list comprehension \<^verbatim>\<open>[UUID(x) for x in id_list]\<close>. The constructor \<^verbatim>\<open>uuid.UUID\<close> of
  the standard library is a parameter \<open>UUID\<close> of the model: it yields the number a
  string denotes, or nothing for a string that is no UUID, where Python raises
  \<^verbatim>\<open>ValueError\<close>.
\<close>

fun parse_ids :: "(string \<Rightarrow> uuid option) \<Rightarrow> string list \<Rightarrow> error + uuid list" where
  "parse_ids UUID [] = Inr []"
| "parse_ids UUID (x # xs) =
     (case UUID x of
        None \<Rightarrow> Inl (ValueError ''badly formed hexadecimal UUID string'')
      | Some u \<Rightarrow> (case parse_ids UUID xs of Inl e \<Rightarrow> Inl e | Inr us \<Rightarrow> Inr (u # us)))"

definition get_virtual_sources_and_sinks_from_structure_service ::
  "(string \<Rightarrow> uuid option) \<Rightarrow> database \<Rightarrow> string list \<Rightarrow> string list
    \<Rightarrow> error + ((uuid \<times> StructureServiceSource) list \<times> (uuid \<times> StructureServiceSink) list)" where
  "get_virtual_sources_and_sinks_from_structure_service UUID db input_id_list output_id_list =
     (case parse_ids UUID input_id_list of
        Inl e \<Rightarrow> Inl e
      | Inr src_ids \<Rightarrow>
     (case fetch_collection_of_sources_from_db_by_id db src_ids 500 of
        Inl e \<Rightarrow> Inl e
      | Inr referenced_sources \<Rightarrow>
     (case parse_ids UUID output_id_list of
        Inl e \<Rightarrow> Inl e
      | Inr sink_ids \<Rightarrow>
     (case fetch_collection_of_sinks_from_db_by_id db sink_ids 500 of
        Inl e \<Rightarrow> Inl e
      | Inr referenced_sinks \<Rightarrow> Inr (referenced_sources, referenced_sinks)))))"

text \<open>
  The loop \<^verbatim>\<open>for idx, v in zip(indices, values, strict=True): ws[idx] = update_wirings(ws[idx], v)\<close>.
  \<^verbatim>\<open>zip\<close> with \<^verbatim>\<open>strict=True\<close> raises \<^verbatim>\<open>ValueError\<close> when one argument ends before the
  other; the pairs before that point have been processed by then. Every index comes
  from \<^verbatim>\<open>enumerate\<close> of the same list, so it is in range.
\<close>

fun update_loop ::
  "Wiring list \<Rightarrow> nat list \<Rightarrow> source_or_sink list \<Rightarrow> error option \<times> Wiring list" where
  "update_loop wirings [] [] = (None, wirings)"
| "update_loop wirings (idx # indices) (v # values) =
     update_loop (wirings[idx := update_wirings (wirings ! idx) v]) indices values"
| "update_loop wirings (idx # indices) [] =
     (Some (ValueError ''zip() argument 2 is shorter than argument 1''), wirings)"
| "update_loop wirings [] (v # values) =
     (Some (ValueError ''zip() argument 2 is longer than argument 1''), wirings)"

definition resolve_virtual_structure_wirings ::
  "(string \<Rightarrow> uuid option) \<Rightarrow> database \<Rightarrow> WorkflowWiring \<Rightarrow> WorkflowWiring outcome" where
  "resolve_virtual_structure_wirings UUID db workflow_wiring =
     (let (input_indices_to_be_updated, input_ref_ids) =
            get_enumerated_ids_of_vst_sources_or_sinks (input_wirings workflow_wiring);
          (output_indices_to_be_updated, output_ref_ids) =
            get_enumerated_ids_of_vst_sources_or_sinks (output_wirings workflow_wiring)
      in
      if input_ref_ids \<noteq> [] \<or> output_ref_ids \<noteq> [] then
        (case get_virtual_sources_and_sinks_from_structure_service UUID db
                input_ref_ids output_ref_ids of
           Inl (DBNotFoundError msg) \<Rightarrow>
             Raised (AdapterHandlingException
               (''Atleast one source or sink referenced in the wirings was not found ''
                 @ ''in the structure service database, during the wiring resolution: '' @ msg))
               workflow_wiring
         | Inl e \<Rightarrow> Raised e workflow_wiring
         | Inr (virtual_sources, virtual_sinks) \<Rightarrow>
             (case update_loop (input_wirings workflow_wiring) input_indices_to_be_updated
                     (map (Source \<circ> snd) virtual_sources) of
                (Some e, ins) \<Rightarrow> Raised e (workflow_wiring\<lparr>input_wirings := ins\<rparr>)
              | (None, ins) \<Rightarrow>
                  (case update_loop (output_wirings workflow_wiring) output_indices_to_be_updated
                          (map (Sink \<circ> snd) virtual_sinks) of
                     (Some e, outs) \<Rightarrow>
                       Raised e (workflow_wiring\<lparr>input_wirings := ins, output_wirings := outs\<rparr>)
                   | (None, outs) \<Rightarrow>
                       Returned (workflow_wiring\<lparr>input_wirings := ins, output_wirings := outs\<rparr>))))
      else Returned workflow_wiring)"

section \<open>Single-row lookups (\<^verbatim>\<open>source_sink_service.py\<close>, \<^verbatim>\<open>thing_node_service.py\<close>)\<close>

text \<open>
  \<^verbatim>\<open>Query.one_or_none()\<close> yields the only row, nothing for no row, and raises
  \<^verbatim>\<open>MultipleResultsFound\<close> for more than one.
\<close>

fun one_or_none :: "'a list \<Rightarrow> error + 'a option" where
  "one_or_none [] = Inr None"
| "one_or_none [x] = Inr (Some x)"
| "one_or_none (x # y # zs) =
     Inl (MultipleResultsFound ''Multiple rows were found when one or none was required'')"

text \<open>A list comprehension over a function that may raise: the first exception wins.\<close>

fun traverse :: "('a \<Rightarrow> error + 'b) \<Rightarrow> 'a list \<Rightarrow> error + 'b list" where
  "traverse f [] = Inr []"
| "traverse f (x # xs) =
     (case f x of
        Inl e \<Rightarrow> Inl e
      | Inr y \<Rightarrow> (case traverse f xs of Inl e \<Rightarrow> Inl e | Inr ys \<Rightarrow> Inr (y # ys)))"

definition fetch_single_thing_node_from_db_by_id ::
  "database \<Rightarrow> uuid \<Rightarrow> error + StructureServiceThingNode" where
  "fetch_single_thing_node_from_db_by_id db tn_id =
     (case one_or_none (filter (\<lambda>r. StructureServiceThingNode.id r = tn_id)
                          (structure_thing_node db)) of
        Inl e \<Rightarrow> Inl e
      | Inr (Some thing_node) \<Rightarrow> ThingNode_from_orm_model thing_node
      | Inr None \<Rightarrow>
          Inl (DBNotFoundError (''No StructureServiceThingNode found for ID '' @ UUID_str tn_id)))"

definition fetch_single_source_from_db_by_id ::
  "database \<Rightarrow> uuid \<Rightarrow> error + StructureServiceSource" where
  "fetch_single_source_from_db_by_id db src_id =
     (case one_or_none (filter (\<lambda>r. StructureServiceSource.id r = src_id)
                          (structure_source db)) of
        Inl e \<Rightarrow> Inl e
      | Inr (Some source) \<Rightarrow> Source_from_orm_model source
      | Inr None \<Rightarrow>
          Inl (DBNotFoundError (''No StructureServiceSource found for ID '' @ UUID_str src_id)))"

definition fetch_single_sink_from_db_by_id ::
  "database \<Rightarrow> uuid \<Rightarrow> error + StructureServiceSink" where
  "fetch_single_sink_from_db_by_id db sink_id' =
     (case one_or_none (filter (\<lambda>r. StructureServiceSink.id r = sink_id')
                          (structure_sink db)) of
        Inl e \<Rightarrow> Inl e
      | Inr (Some sink) \<Rightarrow> Sink_from_orm_model sink
      | Inr None \<Rightarrow>
          Inl (DBNotFoundError (''No StructureServiceSink found for ID '' @ UUID_str sink_id')))"

text \<open>
  The substring search. The operator \<^verbatim>\<open>ILIKE\<close> of the database is a parameter \<open>ilike\<close>
  (value, pattern). The conversion of the rows happens inside the \<^verbatim>\<open>try\<close>, so an
  exception of \<^verbatim>\<open>from_orm_model\<close> is caught by \<^verbatim>\<open>except Exception\<close> and becomes
  \<^verbatim>\<open>DBError\<close>.
\<close>

definition fetch_sources_by_substring_match ::
  "(string \<Rightarrow> string \<Rightarrow> bool) \<Rightarrow> database \<Rightarrow> string \<Rightarrow> error + StructureServiceSource list" where
  "fetch_sources_by_substring_match ilike db filter_string =
     (let matching_sources =
            filter (\<lambda>r. ilike (StructureServiceCommonFieldsModel.name r)
                           (''%'' @ filter_string @ ''%''))
              (structure_source db)
      in case traverse Source_from_orm_model matching_sources of
           Inl e \<Rightarrow>
             Inl (DBError (''Unexpected error while filtering StructureServiceSourceDBModel ''
                    @ ''by substring match''))
         | Inr sources \<Rightarrow> Inr sources)"

definition fetch_sinks_by_substring_match ::
  "(string \<Rightarrow> string \<Rightarrow> bool) \<Rightarrow> database \<Rightarrow> string \<Rightarrow> error + StructureServiceSink list" where
  "fetch_sinks_by_substring_match ilike db filter_string =
     (let matching_sinks =
            filter (\<lambda>r. ilike (StructureServiceCommonFieldsModel.name r)
                           (''%'' @ filter_string @ ''%''))
              (structure_sink db)
      in case traverse Sink_from_orm_model matching_sinks of
           Inl e \<Rightarrow>
             Inl (DBError (''Unexpected error while filtering StructureServiceSinkDBModel ''
                    @ ''by substring match''))
         | Inr sinks \<Rightarrow> Inr sinks)"

section \<open>Browsing one level of the tree (\<^verbatim>\<open>structure_service.get_children\<close>)\<close>

text \<open>
  The comparison \<^verbatim>\<open>parent_node_id == parent_id\<close> is \<^verbatim>\<open>IS NULL\<close> for \<^verbatim>\<open>None\<close> and equality
  otherwise; a null column equals no id. The join of the sources with the association
  table, restricted to the rows of the parent, yields the sources that have an
  association row with the parent. The rows are converted after the queries: thing
  nodes, then sources, then sinks.
\<close>

definition get_children ::
  "database \<Rightarrow> uuid option
    \<Rightarrow> error + (StructureServiceThingNode list \<times> StructureServiceSource list
                  \<times> StructureServiceSink list)" where
  "get_children db parent_id =
     (let child_nodes_orm =
            filter (\<lambda>r. parent_node_id r = parent_id) (structure_thing_node db);
          fetched =
            (case parent_id of
               None \<Rightarrow> Inr ([], [])
             | Some pid \<Rightarrow>
                 (case one_or_none (filter (\<lambda>r. StructureServiceThingNode.id r = pid)
                                      (structure_thing_node db)) of
                    Inl e \<Rightarrow> Inl e
                  | Inr None \<Rightarrow>
                      Inl (DBNotFoundError
                        (''The prodived ID '' @ UUID_str pid
                          @ '' has no corresponding node in the database''))
                  | Inr (Some parent_node) \<Rightarrow>
                      Inr (filter (\<lambda>s. (pid, StructureServiceSource.id s)
                                          \<in> structure_thingnode_source_association db)
                             (structure_source db),
                           filter (\<lambda>s. (pid, StructureServiceSink.id s)
                                          \<in> structure_thingnode_sink_association db)
                             (structure_sink db))))
      in case fetched of
           Inl e \<Rightarrow> Inl e
         | Inr (sources_orm, sinks_orm) \<Rightarrow>
             (case traverse ThingNode_from_orm_model child_nodes_orm of
                Inl e \<Rightarrow> Inl e
              | Inr nodes \<Rightarrow>
                  (case traverse Source_from_orm_model sources_orm of
                     Inl e \<Rightarrow> Inl e
                   | Inr sources \<Rightarrow>
                       (case traverse Sink_from_orm_model sinks_orm of
                          Inl e \<Rightarrow> Inl e
                        | Inr sinks \<Rightarrow> Inr (nodes, sources, sinks)))))"

section \<open>The adapter frontend (\<^verbatim>\<open>virtual_structure_adapter/models.py\<close>, \<^verbatim>\<open>structure.py\<close>)\<close>

record VirtualStructureAdapterThingNode =
  id :: uuid
  parentId :: "uuid option"
  name :: string
  description :: string

record VirtualStructureAdapterSource =
  id :: uuid
  thingNodeId :: uuid
  name :: string
  type :: string
  visible :: bool
  path :: string
  metadataKey :: "string option"
  filters :: "(string \<times> Filter) list"

record VirtualStructureAdapterSink =
  id :: uuid
  thingNodeId :: uuid
  name :: string
  type :: string
  visible :: bool
  path :: string
  metadataKey :: "string option"
  filters :: "(string \<times> Filter) list"

record VirtualStructureAdapterResponse =
  id :: string
  name :: string
  thingNodes :: "VirtualStructureAdapterThingNode list"
  sources :: "VirtualStructureAdapterSource list"
  sinks :: "VirtualStructureAdapterSink list"

definition from_structure_service_thingnode ::
  "StructureServiceThingNode \<Rightarrow> VirtualStructureAdapterThingNode" where
  "from_structure_service_thingnode struct_tn =
     \<lparr>VirtualStructureAdapterThingNode.id = StructureServiceThingNode.id struct_tn,
      parentId = parent_node_id struct_tn,
      name = StructureServiceCommonFieldsModel.name struct_tn,
      description = StructureServiceThingNode.description struct_tn\<rparr>"

text \<open>The dict comprehension \<^verbatim>\<open>{f.internal_name: f for f in passthrough_filters}\<close>, empty
  when the list is absent or empty.\<close>

definition filters_by_internal_name :: "Filter list option \<Rightarrow> (string \<times> Filter) list" where
  "filters_by_internal_name passthrough =
     (case passthrough of
        None \<Rightarrow> []
      | Some fs \<Rightarrow> fold (\<lambda>f d. AList.update (internal_name f) f d) fs [])"

definition from_structure_service_source ::
  "StructureServiceSource \<Rightarrow> VirtualStructureAdapterSource" where
  "from_structure_service_source source =
     \<lparr>VirtualStructureAdapterSource.id = StructureServiceSource.id source,
      thingNodeId = StructureServiceSource.id source,
      name = StructureServiceCommonFieldsModel.name source,
      type = StructureServiceSource.type source,
      visible = True,
      path = StructureServiceSource.display_path source,
      metadataKey = StructureServiceSource.ref_key source,
      filters = filters_by_internal_name (StructureServiceSource.passthrough_filters source)\<rparr>"

definition from_structure_service_sink ::
  "StructureServiceSink \<Rightarrow> VirtualStructureAdapterSink" where
  "from_structure_service_sink sink =
     \<lparr>VirtualStructureAdapterSink.id = StructureServiceSink.id sink,
      thingNodeId = StructureServiceSink.id sink,
      name = StructureServiceCommonFieldsModel.name sink,
      type = StructureServiceSink.type sink,
      visible = True,
      path = StructureServiceSink.display_path sink,
      metadataKey = StructureServiceSink.ref_key sink,
      filters = filters_by_internal_name (StructureServiceSink.passthrough_filters sink)\<rparr>"

definition get_children_from_structure_service ::
  "database \<Rightarrow> uuid option
    \<Rightarrow> error + (VirtualStructureAdapterThingNode list \<times> VirtualStructureAdapterSource list
                  \<times> VirtualStructureAdapterSink list)" where
  "get_children_from_structure_service db parent_id =
     (case get_children db parent_id of
        Inl e \<Rightarrow> Inl e
      | Inr (thing_nodes, sources', sinks') \<Rightarrow>
          Inr (map from_structure_service_thingnode thing_nodes,
               map from_structure_service_source sources',
               map from_structure_service_sink sinks'))"

definition get_structure :: "database \<Rightarrow> uuid option \<Rightarrow> error + VirtualStructureAdapterResponse" where
  "get_structure db parent_id =
     (case get_children_from_structure_service db parent_id of
        Inl (DBNotFoundError msg) \<Rightarrow>
          Inl (AdapterHandlingException
            (''Atleast one element of the structure was not found in the database: '' @ msg))
      | Inl e \<Rightarrow> Inl e
      | Inr (nodes, sources', sinks') \<Rightarrow>
          Inr \<lparr>VirtualStructureAdapterResponse.id = ''vst-adapter'',
               name = ''Virtual Structure Adapter'',
               thingNodes = nodes, sources = sources', sinks = sinks'\<rparr>)"

definition get_single_source ::
  "database \<Rightarrow> uuid \<Rightarrow> error + VirtualStructureAdapterSource option" where
  "get_single_source db src_id =
     (case fetch_single_source_from_db_by_id db src_id of
        Inl (DBNotFoundError msg) \<Rightarrow> Inr None
      | Inl e \<Rightarrow> Inl e
      | Inr source \<Rightarrow> Inr (Some (from_structure_service_source source)))"

definition get_single_sink ::
  "database \<Rightarrow> uuid \<Rightarrow> error + VirtualStructureAdapterSink option" where
  "get_single_sink db sink_id' =
     (case fetch_single_sink_from_db_by_id db sink_id' of
        Inl (DBNotFoundError msg) \<Rightarrow> Inr None
      | Inl e \<Rightarrow> Inl e
      | Inr sink \<Rightarrow> Inr (Some (from_structure_service_sink sink)))"

definition get_filtered_sources ::
  "(string \<Rightarrow> string \<Rightarrow> bool) \<Rightarrow> database \<Rightarrow> string option
    \<Rightarrow> error + VirtualStructureAdapterSource list" where
  "get_filtered_sources ilike db filter_string =
     (case filter_string of
        None \<Rightarrow> Inr []
      | Some fs \<Rightarrow>
          (case fetch_sources_by_substring_match ilike db fs of
             Inl e \<Rightarrow> Inl e
           | Inr sources' \<Rightarrow> Inr (map from_structure_service_source sources')))"

definition get_filtered_sinks ::
  "(string \<Rightarrow> string \<Rightarrow> bool) \<Rightarrow> database \<Rightarrow> string option
    \<Rightarrow> error + VirtualStructureAdapterSink list" where
  "get_filtered_sinks ilike db filter_string =
     (case filter_string of
        None \<Rightarrow> Inr []
      | Some fs \<Rightarrow>
          (case fetch_sinks_by_substring_match ilike db fs of
             Inl e \<Rightarrow> Inl e
           | Inr sinks' \<Rightarrow> Inr (map from_structure_service_sink sinks')))"

text \<open>
  What the database guarantees or the upsert path establishes for the stored rows and
  the browsing functions rely on: the id of a thing node is its primary key, and every
  row was written from a validated model, so its three common fields are not empty.
\<close>

definition rows_validated :: "database \<Rightarrow> bool" where
  "rows_validated db \<longleftrightarrow>
     distinct (map StructureServiceThingNode.id (structure_thing_node db))
     \<and> (\<forall>r \<in> set (structure_thing_node db). check_not_empty r = [])
     \<and> (\<forall>r \<in> set (structure_source db). check_not_empty r = [])
     \<and> (\<forall>r \<in> set (structure_sink db). check_not_empty r = [])"

section \<open>The document and its validation (\<^verbatim>\<open>CompleteStructure\<close> in \<^verbatim>\<open>models.py\<close>)\<close>

record CompleteStructure =
  element_types :: "StructureServiceElementType list"
  thing_nodes :: "StructureServiceThingNode list"
  sources :: "StructureServiceSource list"
  sinks :: "StructureServiceSink list"

text \<open>
  Pydantic validates the four fields first. A field that fails is missing from the
  dict \<open>values\<close> that the root validators receive; all root validators run, in the order
  of their definition, and every message is collected. \<open>field_values\<close> is that dict.
\<close>

record field_values =
  element_types_value :: "StructureServiceElementType list option"
  thing_nodes_value :: "StructureServiceThingNode list option"
  sources_value :: "StructureServiceSource list option"
  sinks_value :: "StructureServiceSink list option"

text \<open>\<^verbatim>\<open>repr\<close> of a string, for strings without quotes, backslashes and control
  characters: the string in single quotes.\<close>

definition str_repr :: "string \<Rightarrow> string" where
  "str_repr s = [CHR 0x27] @ s @ [CHR 0x27]"

text \<open>The loop \<^verbatim>\<open>seen = set(); for x in xs: if x in seen: raise ...; seen.add(x)\<close>: the
  first item that occurred before.\<close>

fun first_duplicate :: "'a list \<Rightarrow> 'a list \<Rightarrow> 'a option" where
  "first_duplicate seen [] = None"
| "first_duplicate seen (x # xs) =
     (if x \<in> set seen then Some x else first_duplicate (x # seen) xs)"

text \<open>Validation of the items of a field.\<close>

definition passthrough_filters_no_duplicate_keys :: "string \<Rightarrow> Filter list option \<Rightarrow> string list" where
  "passthrough_filters_no_duplicate_keys kind v =
     (case v of
        None \<Rightarrow> []
      | Some fs \<Rightarrow>
          (case first_duplicate [] (map internal_name fs) of
             None \<Rightarrow> []
           | Some n \<Rightarrow>
               [''The internal_name '' @ n @ '' is shared by atleast two filters, ''
                  @ ''provided for this '' @ kind @ '', it must be unique.'']))"

definition validate_source :: "StructureServiceSource \<Rightarrow> string list + StructureServiceSource" where
  "validate_source s =
     (case check_not_empty s
             @ passthrough_filters_no_duplicate_keys ''source''
                 (StructureServiceSource.passthrough_filters s) of
        [] \<Rightarrow>
          Inr (s\<lparr>StructureServiceSource.preset_filters :=
                 map_option validate_filters \<circ> StructureServiceSource.preset_filters s\<rparr>)
      | msgs \<Rightarrow> Inl msgs)"

definition validate_sink :: "StructureServiceSink \<Rightarrow> string list + StructureServiceSink" where
  "validate_sink s =
     (case check_not_empty s
             @ passthrough_filters_no_duplicate_keys ''sink''
                 (StructureServiceSink.passthrough_filters s) of
        [] \<Rightarrow>
          Inr (s\<lparr>StructureServiceSink.preset_filters :=
                 map_option validate_filters \<circ> StructureServiceSink.preset_filters s\<rparr>)
      | msgs \<Rightarrow> Inl msgs)"

text \<open>A list field: every item is validated, the messages of all items are collected,
  and the field has a value only if there is no message.\<close>

fun validate_items :: "('a \<Rightarrow> string list + 'a) \<Rightarrow> 'a list \<Rightarrow> string list \<times> 'a list" where
  "validate_items f [] = ([], [])"
| "validate_items f (x # xs) =
     (let (msgs, ys) = validate_items f xs in
      case f x of Inl m \<Rightarrow> (m @ msgs, ys) | Inr y \<Rightarrow> (msgs, y # ys))"

definition validate_common :: "'a StructureServiceCommonFieldsModel_scheme
    \<Rightarrow> string list + 'a StructureServiceCommonFieldsModel_scheme" where
  "validate_common m = (case check_not_empty m of [] \<Rightarrow> Inr m | msgs \<Rightarrow> Inl msgs)"

definition check_element_types_not_empty :: "StructureServiceElementType list \<Rightarrow> string list" where
  "check_element_types_not_empty v =
     (if v = []
      then [''The structure must include at least one ''
              @ ''StructureServiceElementType object to be valid.'']
      else [])"

definition validate_fields :: "CompleteStructure \<Rightarrow> string list \<times> field_values" where
  "validate_fields cs =
     (let (m1, ets) = validate_items validate_common (element_types cs);
          m1' = (if m1 = [] then check_element_types_not_empty ets else m1);
          (m2, tns) = validate_items validate_common (thing_nodes cs);
          (m3, srcs) = validate_items validate_source (sources cs);
          (m4, snks) = validate_items validate_sink (sinks cs)
      in (m1' @ m2 @ m3 @ m4,
          \<lparr>element_types_value = (if m1' = [] then Some ets else None),
           thing_nodes_value = (if m2 = [] then Some tns else None),
           sources_value = (if m3 = [] then Some srcs else None),
           sinks_value = (if m4 = [] then Some snks else None)\<rparr>))"

text \<open>\<^verbatim>\<open>values.get(field, [])\<close>.\<close>

definition get_or_empty :: "'a list option \<Rightarrow> 'a list" where
  "get_or_empty v = (case v of None \<Rightarrow> [] | Some xs \<Rightarrow> xs)"

text \<open>The root validators. Each yields the message of the \<^verbatim>\<open>ValueError\<close> or
  \<^verbatim>\<open>TypeError\<close> it raises, or nothing.\<close>

definition validate_root_nodes_parent_ids_are_none :: "field_values \<Rightarrow> string option" where
  "validate_root_nodes_parent_ids_are_none values =
     (let nodes = get_or_empty (thing_nodes_value values);
          external_ids = set (map external_id nodes)
      in case filter (\<lambda>node. case parent_external_node_id node of
                                 None \<Rightarrow> False
                               | Some parent_ext_id \<Rightarrow> parent_ext_id \<notin> external_ids) nodes of
           [] \<Rightarrow> None
         | node # _ \<Rightarrow>
             Some (''Root node '' @ str_repr (StructureServiceCommonFieldsModel.name node)
               @ '' has an invalid parent_external_node_id ''
               @ str_repr (the (parent_external_node_id node))
               @ '' that does not reference any existing StructureServiceThingNode.''))"

definition duplicate_pair_message :: "string \<Rightarrow> (string \<times> string) list \<Rightarrow> string option" where
  "duplicate_pair_message element_name pairs =
     (case first_duplicate [] pairs of
        None \<Rightarrow> None
      | Some (stakeholder_key', external_id') \<Rightarrow>
          Some (''The stakeholder key and external id pair: (''
            @ str_repr stakeholder_key' @ '', '' @ str_repr external_id' @ '') ''
            @ ''exists at least twice in the '' @ element_name @ '' list. ''
            @ ''Each key-id pair must be unique within its list!''))"

definition key_id_pair :: "'a StructureServiceCommonFieldsModel_scheme \<Rightarrow> string \<times> string" where
  "key_id_pair element = (stakeholder_key element, external_id element)"

text \<open>The first message in a list of optional messages: a validator stops at its first
  \<^verbatim>\<open>raise\<close>.\<close>

fun first_message :: "string option list \<Rightarrow> string option" where
  "first_message [] = None"
| "first_message (None # ms) = first_message ms"
| "first_message (Some m # ms) = Some m"

definition check_for_duplicate_key_and_id_pairs :: "field_values \<Rightarrow> string option" where
  "check_for_duplicate_key_and_id_pairs values =
     first_message
       [case element_types_value values of None \<Rightarrow> None
          | Some l \<Rightarrow> duplicate_pair_message ''element_types'' (map key_id_pair l),
        case thing_nodes_value values of None \<Rightarrow> None
          | Some l \<Rightarrow> duplicate_pair_message ''thing_nodes'' (map key_id_pair l),
        case sources_value values of None \<Rightarrow> None
          | Some l \<Rightarrow> duplicate_pair_message ''sources'' (map key_id_pair l),
        case sinks_value values of None \<Rightarrow> None
          | Some l \<Rightarrow> duplicate_pair_message ''sinks'' (map key_id_pair l)]"

definition duplicate_thing_node_id_message ::
  "string \<Rightarrow> string \<Rightarrow> string list option \<Rightarrow> string option" where
  "duplicate_thing_node_id_message element_name element_external_id ids_or_none =
     (case ids_or_none of
        None \<Rightarrow> Some (str_repr ''NoneType'' @ '' object is not iterable'')
      | Some ids \<Rightarrow>
          (case first_duplicate [] ids of
             None \<Rightarrow> None
           | Some parent_id \<Rightarrow>
               Some (''The thing_node_external_ids attribute ''
                 @ ''of the element with id: '' @ element_external_id @ '' ''
                 @ ''in the '' @ element_name @ '' list, ''
                 @ ''contains at least the duplicate id: '' @ parent_id @ ''. ''
                 @ ''Each id within thing_node_external_ids must be unique!'')))"

definition check_for_duplicate_ids_in_thing_node_external_ids :: "field_values \<Rightarrow> string option" where
  "check_for_duplicate_ids_in_thing_node_external_ids values =
     first_message
       (map (\<lambda>element. duplicate_thing_node_id_message ''sources'' (external_id element)
                         (StructureServiceSource.thing_node_external_ids element))
            (get_or_empty (sources_value values))
        @ map (\<lambda>element. duplicate_thing_node_id_message ''sinks'' (external_id element)
                         (StructureServiceSink.thing_node_external_ids element))
            (get_or_empty (sinks_value values)))"

text \<open>
  \<^verbatim>\<open>check_stakeholder_key_consistency\<close>: the depth-first traversal from one root. The
  Python list \<^verbatim>\<open>stack\<close> is popped at its end and extended at its end; here the head of
  the list is the top, so extending prepends the children in reverse.
\<close>

function stakeholder_traversal ::
  "StructureServiceThingNode list \<Rightarrow> string \<Rightarrow> StructureServiceThingNode list \<Rightarrow> string set
    \<Rightarrow> string option" where
  "stakeholder_traversal nodes expected_stakeholder_key [] visited = None"
| "stakeholder_traversal nodes expected_stakeholder_key (current_node # stack) visited =
     (if external_id current_node \<in> visited
      then stakeholder_traversal nodes expected_stakeholder_key stack visited
      else if stakeholder_key current_node \<noteq> expected_stakeholder_key
      then Some (''Inconsistent stakeholder_key at node '' @ external_id current_node @ ''. ''
             @ ''Expected: '' @ expected_stakeholder_key @ '', ''
             @ ''found: '' @ stakeholder_key current_node)
      else stakeholder_traversal nodes expected_stakeholder_key
             (rev (filter (\<lambda>node. parent_external_node_id node = Some (external_id current_node))
                     nodes) @ stack)
             (insert (external_id current_node) visited))"
  by pat_completeness auto
termination
proof (relation "measures
    [\<lambda>(nodes, e, stack, visited).
        card ((external_id ` set nodes \<union> external_id ` set stack) - visited),
     \<lambda>(nodes, e, stack, visited). length stack]", goal_cases)
  case 1
  show ?case by simp
next
  case (2 nodes e current_node stack visited)
  have "card ((external_id ` set nodes \<union> external_id ` set stack) - visited)
      \<le> card ((external_id ` set nodes \<union> external_id ` set (current_node # stack)) - visited)"
    by (rule card_mono) auto
  then show ?case by auto
next
  case (3 nodes e current_node stack visited)
  let ?children = "filter (\<lambda>node. parent_external_node_id node = Some (external_id current_node))
                     nodes"
  have "(external_id ` set nodes \<union> external_id ` set (rev ?children @ stack))
          - insert (external_id current_node) visited
      \<subset> (external_id ` set nodes \<union> external_id ` set (current_node # stack)) - visited"
    using 3 by auto
  then have "card ((external_id ` set nodes \<union> external_id ` set (rev ?children @ stack))
          - insert (external_id current_node) visited)
      < card ((external_id ` set nodes \<union> external_id ` set (current_node # stack)) - visited)"
    by (intro psubset_card_mono) auto
  then show ?case by simp
qed

definition check_stakeholder_key_consistency :: "field_values \<Rightarrow> string option" where
  "check_stakeholder_key_consistency values =
     (let nodes = get_or_empty (thing_nodes_value values);
          root_nodes = filter (\<lambda>node. parent_external_node_id node = None) nodes
      in first_message
           (map (\<lambda>root_node.
                   stakeholder_traversal nodes (stakeholder_key root_node) [root_node] {})
              root_nodes))"

text \<open>
  \<^verbatim>\<open>check_for_circular_reference\<close>. The dict \<^verbatim>\<open>nodes_by_external_id\<close> keeps, for an
  external id that several nodes have, the last of them. The recursive \<^verbatim>\<open>visit\<close> adds
  the external id of the node to \<open>visited\<close>, follows the parent, and removes the id when
  it returns, so every visit at the top level starts with the empty set. (The depth of
  Python's recursion is bounded; the bound is not part of the model.)
\<close>

definition nodes_by_external_id ::
  "StructureServiceThingNode list \<Rightarrow> string \<rightharpoonup> StructureServiceThingNode" where
  "nodes_by_external_id nodes = map_of (rev (map (\<lambda>node. (external_id node, node)) nodes))"

function visit ::
  "StructureServiceThingNode list \<Rightarrow> string set \<Rightarrow> StructureServiceThingNode \<Rightarrow> string option" where
  "visit nodes visited node =
     (if external_id node \<in> visited
      then Some (''Circular reference detected in node '' @ external_id node)
      else
        (case parent_external_node_id node of
           None \<Rightarrow> None
         | Some parent_external_id \<Rightarrow>
             if parent_external_id \<noteq> []
             then (case nodes_by_external_id nodes parent_external_id of
                     None \<Rightarrow> None
                   | Some parent \<Rightarrow>
                       visit nodes (insert (external_id node) visited) parent)
             else None))"
  by pat_completeness auto
termination
proof (relation "measure (\<lambda>(nodes, visited, node).
    card (external_id ` set nodes - visited)
    + (if external_id node \<in> external_id ` set nodes then 0 else 1))", goal_cases)
  case 1
  show ?case by simp
next
  case (2 nodes visited node parent_external_id parent)
  from 2 have "parent \<in> set nodes"
    unfolding nodes_by_external_id_def by (auto dest!: map_of_SomeD)
  then have p: "external_id parent \<in> external_id ` set nodes" by simp
  show ?case
  proof (cases "external_id node \<in> external_id ` set nodes")
    case True
    with 2 have "external_id ` set nodes - insert (external_id node) visited
        \<subset> external_id ` set nodes - visited" by auto
    then have "card (external_id ` set nodes - insert (external_id node) visited)
        < card (external_id ` set nodes - visited)"
      by (intro psubset_card_mono) auto
    with p True show ?thesis by simp
  next
    case False
    then have "external_id ` set nodes - insert (external_id node) visited
        = external_id ` set nodes - visited" by auto
    with p False show ?thesis by simp
  qed
qed

declare visit.simps [simp del]

definition check_for_circular_reference :: "field_values \<Rightarrow> string option" where
  "check_for_circular_reference values =
     (let nodes = get_or_empty (thing_nodes_value values)
      in first_message (map (visit nodes {}) nodes))"

definition missing_reference_message ::
  "string \<Rightarrow> string set \<Rightarrow> string \<Rightarrow> string list option \<Rightarrow> string option" where
  "missing_reference_message class_name thing_node_ids element_external_id ids_or_none =
     (case ids_or_none of
        None \<Rightarrow> Some (str_repr ''NoneType'' @ '' object is not iterable'')
      | Some ids \<Rightarrow>
          (case filter (\<lambda>tn_id. tn_id \<notin> thing_node_ids) ids of
             [] \<Rightarrow> None
           | tn_id # _ \<Rightarrow>
               Some (class_name @ '' '' @ str_repr element_external_id @ '' ''
                 @ ''references non-existing StructureServiceThingNode ''
                 @ str_repr tn_id @ ''.'')))"

definition validate_source_sink_references :: "field_values \<Rightarrow> string option" where
  "validate_source_sink_references values =
     (let thing_node_ids = set (map external_id (get_or_empty (thing_nodes_value values)))
      in first_message
           (map (\<lambda>source. missing_reference_message ''StructureServiceSource'' thing_node_ids
                             (external_id source)
                             (StructureServiceSource.thing_node_external_ids source))
              (get_or_empty (sources_value values))
            @ map (\<lambda>sink. missing_reference_message ''StructureServiceSink'' thing_node_ids
                             (external_id sink)
                             (StructureServiceSink.thing_node_external_ids sink))
              (get_or_empty (sinks_value values))))"

text \<open>
  The construction \<^verbatim>\<open>CompleteStructure(**data)\<close>: the validated document, or the
  messages of the \<^verbatim>\<open>ValidationError\<close> (field messages first, then the root validators
  in the order of their definition).
\<close>

definition root_validator_messages :: "field_values \<Rightarrow> string list" where
  "root_validator_messages values =
     concat (map (\<lambda>m. case m of None \<Rightarrow> [] | Some msg \<Rightarrow> [msg])
       [validate_root_nodes_parent_ids_are_none values,
        check_for_duplicate_key_and_id_pairs values,
        check_for_duplicate_ids_in_thing_node_external_ids values,
        check_stakeholder_key_consistency values,
        check_for_circular_reference values,
        validate_source_sink_references values])"

definition validate_CompleteStructure :: "CompleteStructure \<Rightarrow> error + CompleteStructure" where
  "validate_CompleteStructure cs =
     (let (field_messages, values) = validate_fields cs in
      case field_messages @ root_validator_messages values of
        [] \<Rightarrow>
          Inr \<lparr>element_types = get_or_empty (element_types_value values),
               thing_nodes = get_or_empty (thing_nodes_value values),
               sources = get_or_empty (sources_value values),
               sinks = get_or_empty (sinks_value values)\<rparr>
      | msgs \<Rightarrow> Inl (ValidationError msgs))"

text \<open>
  \<open>parent_chain nodes k n\<close>: the node reached from \<open>n\<close> by following the parent
  reference \<open>k\<close> times, each step resolved through \<^verbatim>\<open>nodes_by_external_id\<close> as
  \<^verbatim>\<open>visit\<close> resolves it.
\<close>

fun parent_chain ::
  "StructureServiceThingNode list \<Rightarrow> nat \<Rightarrow> StructureServiceThingNode
    \<Rightarrow> StructureServiceThingNode option" where
  "parent_chain nodes 0 n = Some n"
| "parent_chain nodes (Suc k) n =
     (case parent_external_node_id n of
        None \<Rightarrow> None
      | Some p \<Rightarrow>
          if p \<noteq> []
          then (case nodes_by_external_id nodes p of
                  None \<Rightarrow> None
                | Some m \<Rightarrow> parent_chain nodes k m)
          else None)"

section \<open>The hierarchy sorter (\<^verbatim>\<open>set_parent_ids\<close>, \<^verbatim>\<open>sort_thing_nodes\<close>)\<close>

text \<open>
  \<^verbatim>\<open>thing_node_map\<close>, the dict comprehension keyed by \<open>(stakeholder_key, external_id)\<close>:
  of several nodes with one key the last stays. \<open>parent_of nodes node\<close> is the
  \<^verbatim>\<open>parent_tn\<close> that the loop of \<^verbatim>\<open>set_parent_ids\<close> finds for a node: nothing when the
  parent reference is absent or empty, or when no node has the key.
\<close>

definition thing_node_map ::
  "StructureServiceThingNode list \<Rightarrow> (string \<times> string) \<rightharpoonup> StructureServiceThingNode" where
  "thing_node_map nodes =
     map_of (rev (map (\<lambda>node. ((stakeholder_key node, external_id node), node)) nodes))"

definition parent_of ::
  "StructureServiceThingNode list \<Rightarrow> StructureServiceThingNode
    \<Rightarrow> StructureServiceThingNode option" where
  "parent_of nodes node =
     (case parent_external_node_id node of
        None \<Rightarrow> None
      | Some p \<Rightarrow> if p \<noteq> [] then thing_node_map nodes (stakeholder_key node, p) else None)"

text \<open>
  \<^verbatim>\<open>set_parent_ids\<close> writes \<open>parent_node_id\<close> into the node objects and returns
  \<^verbatim>\<open>children_by_node_id\<close>. The model returns the list of the nodes after the loop as
  well. The child lists hold the same objects as the list, so they show the nodes with
  the field set; a node is the child of the node whose id the found parent has.
\<close>

definition with_parent_id ::
  "StructureServiceThingNode list \<Rightarrow> StructureServiceThingNode \<Rightarrow> StructureServiceThingNode" where
  "with_parent_id nodes node =
     (case parent_of nodes node of
        None \<Rightarrow> node
      | Some parent_tn \<Rightarrow> node\<lparr>parent_node_id := Some (StructureServiceThingNode.id parent_tn)\<rparr>)"

definition set_parent_ids ::
  "StructureServiceThingNode list
    \<Rightarrow> StructureServiceThingNode list \<times> (uuid \<Rightarrow> StructureServiceThingNode list)" where
  "set_parent_ids nodes =
     (let nodes' = map (with_parent_id nodes) nodes in
      (nodes',
       \<lambda>node_id. filter (\<lambda>node. case parent_of nodes node of
                                   None \<Rightarrow> False
                                 | Some parent_tn \<Rightarrow> StructureServiceThingNode.id parent_tn = node_id)
                    nodes'))"

text \<open>
  The breadth-first loop. The queue never holds more than one entry, the next level.
  \<open>acc\<close> is the concatenation of the levels seen so far, which is what the final
  flattening of \<^verbatim>\<open>sorted_nodes_by_level\<close> yields. The loop need not stop (two nodes may
  share an id), so the result is optional. \<^verbatim>\<open>sorted\<close> is stable, as \<^const>\<open>sort_key\<close> is;
  Python compares strings by code point, which on the bytes of UTF-8 is the
  lexicographic order of the bytes.
\<close>

partial_function (option) bfs_levels ::
  "(uuid \<Rightarrow> StructureServiceThingNode list) \<Rightarrow> StructureServiceThingNode list
    \<Rightarrow> StructureServiceThingNode list \<Rightarrow> StructureServiceThingNode list option" where
  "bfs_levels children_by_node_id current_level_nodes acc =
     (let next_level_nodes =
            concat (map (\<lambda>node. sort_key external_id
                                   (children_by_node_id (StructureServiceThingNode.id node)))
                      current_level_nodes)
      in if next_level_nodes \<noteq> []
         then bfs_levels children_by_node_id next_level_nodes (acc @ current_level_nodes)
         else Some (acc @ current_level_nodes))"

text \<open>\<^verbatim>\<open>sort_thing_nodes\<close>: the nodes as the call leaves them, and the flattened list it
  returns.\<close>

definition sort_thing_nodes ::
  "StructureServiceThingNode list
    \<Rightarrow> (StructureServiceThingNode list \<times> StructureServiceThingNode list) option" where
  "sort_thing_nodes nodes =
     (let (nodes', children_by_node_id) = set_parent_ids nodes;
          root_nodes = filter (\<lambda>node. parent_external_node_id node = None) nodes'
      in case bfs_levels children_by_node_id root_nodes [] of
           None \<Rightarrow> None
         | Some flattened_nodes \<Rightarrow> Some (nodes', flattened_nodes))"

section \<open>The bulk upsert (\<^verbatim>\<open>element_type_service.py\<close>, \<^verbatim>\<open>thing_node_service.py\<close>,
  \<^verbatim>\<open>source_sink_service.py\<close>)\<close>

text \<open>
  The statement \<^verbatim>\<open>INSERT ... ON CONFLICT (external_id, stakeholder_key) DO UPDATE SET ...
  RETURNING\<close>, row by row: a row whose key is in the table replaces the columns of the
  \<^verbatim>\<open>SET\<close> list in the stored row (\<open>on_conflict stored new\<close>); any other row is
  inserted. After every row the unique constraints of the table are checked
  (\<open>constraints_ok\<close>: the primary key \<open>id\<close> and the unique \<open>name\<close>); a violation is an
  \<^verbatim>\<open>IntegrityError\<close>. The statement returns the row that each input row became.
  PostgreSQL refuses a statement that would update one row twice. Foreign keys are not
  enforced in the model (SQLite does not enforce them unless asked to).
\<close>

fun upsert_row ::
  "('r \<Rightarrow> 'k) \<Rightarrow> ('r \<Rightarrow> 'r \<Rightarrow> 'r) \<Rightarrow> 'r \<Rightarrow> 'r list \<Rightarrow> 'r list \<times> 'r" where
  "upsert_row key on_conflict new [] = ([new], new)"
| "upsert_row key on_conflict new (stored # rest) =
     (if key stored = key new
      then (on_conflict stored new # rest, on_conflict stored new)
      else (let (rest', r) = upsert_row key on_conflict new rest in (stored # rest', r)))"

fun upsert_rows ::
  "('r \<Rightarrow> 'k) \<Rightarrow> ('r \<Rightarrow> 'r \<Rightarrow> 'r) \<Rightarrow> ('r list \<Rightarrow> bool) \<Rightarrow> 'r list \<Rightarrow> 'r list
    \<Rightarrow> ('r list \<times> 'r list) option" where
  "upsert_rows key on_conflict constraints_ok [] table = Some (table, [])"
| "upsert_rows key on_conflict constraints_ok (new # rows) table =
     (let (table', r) = upsert_row key on_conflict new table in
      if constraints_ok table'
      then (case upsert_rows key on_conflict constraints_ok rows table' of
              None \<Rightarrow> None
            | Some (table'', rs) \<Rightarrow> Some (table'', r # rs))
      else None)"

text \<open>The dialect dispatch and the execution of the statement, with the exceptions of
  SQLAlchemy before the service wraps them.\<close>

definition is_postgresql :: "string \<Rightarrow> bool" where
  "is_postgresql engine \<longleftrightarrow> engine = ''postgresql''"

definition is_sqlite :: "string \<Rightarrow> bool" where
  "is_sqlite engine \<longleftrightarrow> engine = ''sqlite''"

definition execute_upsert ::
  "string \<Rightarrow> ('r \<Rightarrow> 'k) \<Rightarrow> ('r \<Rightarrow> 'r \<Rightarrow> 'r) \<Rightarrow> ('r list \<Rightarrow> bool) \<Rightarrow> 'r list \<Rightarrow> 'r list
    \<Rightarrow> error + ('r list \<times> 'r list)" where
  "execute_upsert engine key on_conflict constraints_ok rows table =
     (if \<not> is_postgresql engine \<and> \<not> is_sqlite engine
      then Inl (ValueError (''Unsupported database engine: '' @ engine
                  @ ''. Please use either Postgres or SQLite.''))
      else if is_postgresql engine \<and> \<not> distinct (map key rows)
      then Inl (ProgrammingError
                  ''ON CONFLICT DO UPDATE command cannot affect row a second time'')
      else (case upsert_rows key on_conflict constraints_ok rows table of
              None \<Rightarrow> Inl (IntegrityError ''UNIQUE constraint failed'')
            | Some result \<Rightarrow> Inr result))"

text \<open>The \<^verbatim>\<open>except\<close> clauses that every upsert function ends with.\<close>

definition wrap_upsert_error :: "string \<Rightarrow> error \<Rightarrow> error" where
  "wrap_upsert_error model e =
     (case e of
        IntegrityError _ \<Rightarrow> DBIntegrityError (''Integrity Error while upserting '' @ model)
      | ValueError _ \<Rightarrow> DBUpdateError (''Value error while upserting '' @ model)
      | _ \<Rightarrow> DBUpdateError (''Unexpected error while upserting '' @ model))"

text \<open>The dict \<^verbatim>\<open>{(m.stakeholder_key, m.external_id): m for m in returned}\<close>.\<close>

definition by_key ::
  "'a StructureServiceCommonFieldsModel_scheme list
    \<Rightarrow> (string \<times> string) \<rightharpoonup> 'a StructureServiceCommonFieldsModel_scheme" where
  "by_key rows = map_of (rev (map (\<lambda>r. ((stakeholder_key r, external_id r), r)) rows))"

definition conflict_key :: "'a StructureServiceCommonFieldsModel_scheme \<Rightarrow> string \<times> string" where
  "conflict_key r = (external_id r, stakeholder_key r)"

definition element_type_constraints_ok :: "StructureServiceElementType list \<Rightarrow> bool" where
  "element_type_constraints_ok table \<longleftrightarrow>
     distinct (map StructureServiceElementType.id table)
     \<and> distinct (map StructureServiceCommonFieldsModel.name table)"

definition thing_node_constraints_ok :: "StructureServiceThingNode list \<Rightarrow> bool" where
  "thing_node_constraints_ok table \<longleftrightarrow>
     distinct (map StructureServiceThingNode.id table)
     \<and> distinct (map StructureServiceCommonFieldsModel.name table)"

definition source_constraints_ok :: "StructureServiceSource list \<Rightarrow> bool" where
  "source_constraints_ok table \<longleftrightarrow>
     distinct (map StructureServiceSource.id table)
     \<and> distinct (map StructureServiceCommonFieldsModel.name table)"

definition sink_constraints_ok :: "StructureServiceSink list \<Rightarrow> bool" where
  "sink_constraints_ok table \<longleftrightarrow>
     distinct (map StructureServiceSink.id table)
     \<and> distinct (map StructureServiceCommonFieldsModel.name table)"

text \<open>
  \<^verbatim>\<open>upsert_element_types\<close>: on conflict every column but \<open>id\<close> is updated.
\<close>

definition upsert_element_types ::
  "string \<Rightarrow> database \<Rightarrow> StructureServiceElementType list
    \<Rightarrow> error + (database \<times> ((string \<times> string) \<rightharpoonup> StructureServiceElementType))" where
  "upsert_element_types engine db elements =
     (if elements = [] then Inr (db, Map.empty)
      else
        (case execute_upsert engine conflict_key
                (\<lambda>stored new. new\<lparr>StructureServiceElementType.id :=
                                     StructureServiceElementType.id stored\<rparr>)
                element_type_constraints_ok elements (structure_element_type db) of
           Inl e \<Rightarrow> Inl (wrap_upsert_error ''StructureServiceElementTypeDBModel'' e)
         | Inr (table, element_dbmodels) \<Rightarrow>
             Inr (db\<lparr>structure_element_type := table\<rparr>, by_key element_dbmodels)))"

text \<open>
  \<^verbatim>\<open>update_parent_ids\<close>, applied to one row: the parent is looked up among the returned
  rows, and a reference that is absent, empty or not found leaves the row as it is.
\<close>

definition update_parent_id ::
  "((string \<times> string) \<rightharpoonup> StructureServiceThingNode) \<Rightarrow> StructureServiceThingNode
    \<Rightarrow> StructureServiceThingNode" where
  "update_parent_id thing_node_dbmodel_dict tn' =
     (case parent_external_node_id tn' of
        None \<Rightarrow> tn'
      | Some p \<Rightarrow>
          if p \<noteq> []
          then (case thing_node_dbmodel_dict (stakeholder_key tn', p) of
                  None \<Rightarrow> tn'
                | Some parent \<Rightarrow> tn'\<lparr>parent_node_id := Some (StructureServiceThingNode.id parent)\<rparr>)
          else tn')"

text \<open>
  \<^verbatim>\<open>upsert_thing_nodes\<close>: a node without a stored element type is skipped; the others
  get the id of their element type; on conflict every column but \<open>id\<close> and
  \<open>parent_node_id\<close> is updated. The returned rows are ORM objects of the session, so
  what \<^verbatim>\<open>update_parent_ids\<close> assigns to them reaches the table with the commit: the rows
  of the table that were returned (the rows with a returned key) get their parent id.
\<close>

definition upsert_thing_nodes ::
  "string \<Rightarrow> database \<Rightarrow> StructureServiceThingNode list
    \<Rightarrow> ((string \<times> string) \<rightharpoonup> StructureServiceElementType)
    \<Rightarrow> error + (database \<times> ((string \<times> string) \<rightharpoonup> StructureServiceThingNode))" where
  "upsert_thing_nodes engine db nodes existing_element_types =
     (let thing_node_dicts =
            concat (map (\<lambda>node.
              case existing_element_types (stakeholder_key node, element_type_external_id node) of
                None \<Rightarrow> []
              | Some element_type \<Rightarrow>
                  [node\<lparr>element_type_id := StructureServiceElementType.id element_type\<rparr>]) nodes)
      in if thing_node_dicts = [] then Inr (db, Map.empty)
         else
           (case execute_upsert engine conflict_key
                   (\<lambda>stored new. new\<lparr>StructureServiceThingNode.id :=
                                        StructureServiceThingNode.id stored,
                                      parent_node_id := parent_node_id stored\<rparr>)
                   thing_node_constraints_ok thing_node_dicts (structure_thing_node db) of
              Inl e \<Rightarrow> Inl (wrap_upsert_error ''StructureServiceThingNodeDBModel'' e)
            | Inr (table, thing_node_dbmodels) \<Rightarrow>
                (let thing_node_dbmodel_dict = by_key thing_node_dbmodels;
                     table' = map (\<lambda>r. if (stakeholder_key r, external_id r)
                                             \<in> dom thing_node_dbmodel_dict
                                          then update_parent_id thing_node_dbmodel_dict r
                                          else r) table
                 in Inr (db\<lparr>structure_thing_node := table'\<rparr>,
                         map_option (update_parent_id thing_node_dbmodel_dict)
                           \<circ> thing_node_dbmodel_dict))))"

text \<open>
  The relationship assignment \<^verbatim>\<open>source.thing_nodes = [...]\<close> of one returned source:
  the ids of the thing nodes that its external ids resolve to, in the order of the
  list. The association rows of the source are replaced by these. A thing node that
  occurs twice in the list would be inserted twice, which the primary key of the
  association table refuses.
\<close>

definition resolved_thing_node_ids ::
  "((string \<times> string) \<rightharpoonup> StructureServiceThingNode) \<Rightarrow> string \<Rightarrow> string list option \<Rightarrow> uuid list" where
  "resolved_thing_node_ids existing_thing_nodes stakeholder ids_or_none =
     concat (map (\<lambda>tn_external_id.
               case existing_thing_nodes (stakeholder, tn_external_id) of
                 None \<Rightarrow> []
               | Some thing_node \<Rightarrow> [StructureServiceThingNode.id thing_node])
       (case ids_or_none of None \<Rightarrow> [] | Some ids \<Rightarrow> ids))"

fun assign_relationships ::
  "(uuid \<times> uuid list) list \<Rightarrow> (uuid \<times> uuid) set \<Rightarrow> (uuid \<times> uuid) set option" where
  "assign_relationships [] association = Some association"
| "assign_relationships ((entity_id, thing_node_ids) # rest) association =
     (if distinct thing_node_ids
      then assign_relationships rest
             ({(t, e) \<in> association. e \<noteq> entity_id} \<union> (\<lambda>t. (t, entity_id)) ` set thing_node_ids)
      else None)"

definition upsert_sources ::
  "string \<Rightarrow> database \<Rightarrow> StructureServiceSource list
    \<Rightarrow> ((string \<times> string) \<rightharpoonup> StructureServiceThingNode) \<Rightarrow> error + database" where
  "upsert_sources engine db srcs existing_thing_nodes =
     (if srcs = [] then Inr db
      else
        (case execute_upsert engine conflict_key
                (\<lambda>stored new. new\<lparr>StructureServiceSource.id := StructureServiceSource.id stored\<rparr>)
                source_constraints_ok srcs (structure_source db) of
           Inl e \<Rightarrow> Inl (wrap_upsert_error ''StructureServiceSourceDBModel'' e)
         | Inr (table, sources_dbmodels) \<Rightarrow>
             (case assign_relationships
                     (map (\<lambda>source. (StructureServiceSource.id source,
                                      resolved_thing_node_ids existing_thing_nodes
                                        (stakeholder_key source)
                                        (StructureServiceSource.thing_node_external_ids source)))
                        sources_dbmodels)
                     (structure_thingnode_source_association db) of
                None \<Rightarrow>
                  Inl (DBIntegrityError ''Integrity Error while updating or inserting the structure'')
              | Some association \<Rightarrow>
                  Inr (db\<lparr>structure_source := table,
                          structure_thingnode_source_association := association\<rparr>))))"

definition upsert_sinks ::
  "string \<Rightarrow> database \<Rightarrow> StructureServiceSink list
    \<Rightarrow> ((string \<times> string) \<rightharpoonup> StructureServiceThingNode) \<Rightarrow> error + database" where
  "upsert_sinks engine db snks existing_thing_nodes =
     (if snks = [] then Inr db
      else
        (case execute_upsert engine conflict_key
                (\<lambda>stored new. new\<lparr>StructureServiceSink.id := StructureServiceSink.id stored\<rparr>)
                sink_constraints_ok snks (structure_sink db) of
           Inl e \<Rightarrow> Inl (wrap_upsert_error ''StructureServiceSinkDBModel'' e)
         | Inr (table, sinks_dbmodels) \<Rightarrow>
             (case assign_relationships
                     (map (\<lambda>sink. (StructureServiceSink.id sink,
                                    resolved_thing_node_ids existing_thing_nodes
                                      (stakeholder_key sink)
                                      (StructureServiceSink.thing_node_external_ids sink)))
                        sinks_dbmodels)
                     (structure_thingnode_sink_association db) of
                None \<Rightarrow>
                  Inl (DBIntegrityError ''Integrity Error while updating or inserting the structure'')
              | Some association \<Rightarrow>
                  Inr (db\<lparr>structure_sink := table,
                          structure_thingnode_sink_association := association\<rparr>))))"

section \<open>The structure service (\<^verbatim>\<open>structure_service.py\<close>)\<close>

text \<open>
  \<^verbatim>\<open>update_structure\<close> runs in one transaction: an exception rolls the database back
  to the state before the call. The document is an object that \<^verbatim>\<open>sort_thing_nodes\<close>
  changes in place, so the state is the pair of the database and the document. The
  flattened list that \<^verbatim>\<open>sort_thing_nodes\<close> returns is not used. No result stands for a
  call that does not return. Every exception of the upsert functions is a \<^verbatim>\<open>DBError\<close>
  and passes through the \<^verbatim>\<open>except\<close> clauses unchanged.
\<close>

definition update_structure ::
  "string \<Rightarrow> CompleteStructure \<Rightarrow> database \<Rightarrow> (database \<times> CompleteStructure) outcome option" where
  "update_structure engine complete_structure db =
     (case upsert_element_types engine db (element_types complete_structure) of
        Inl e \<Rightarrow> Some (Raised e (db, complete_structure))
      | Inr (db1, existing_element_types) \<Rightarrow>
     (case sort_thing_nodes (thing_nodes complete_structure) of
        None \<Rightarrow> None
      | Some (nodes', flattened) \<Rightarrow>
     (let complete_structure' = complete_structure\<lparr>thing_nodes := nodes'\<rparr> in
      case upsert_thing_nodes engine db1 nodes' existing_element_types of
        Inl e \<Rightarrow> Some (Raised e (db, complete_structure'))
      | Inr (db2, existing_thing_nodes) \<Rightarrow>
     (case upsert_sources engine db2 (sources complete_structure') existing_thing_nodes of
        Inl e \<Rightarrow> Some (Raised e (db, complete_structure'))
      | Inr db3 \<Rightarrow>
     (case upsert_sinks engine db3 (sinks complete_structure') existing_thing_nodes of
        Inl e \<Rightarrow> Some (Raised e (db, complete_structure'))
      | Inr db4 \<Rightarrow> Some (Returned (db4, complete_structure')))))))"

definition delete_structure :: "database \<Rightarrow> database" where
  "delete_structure db =
     \<lparr>structure_element_type = [], structure_thing_node = [],
      structure_source = [], structure_sink = [],
      structure_thingnode_source_association = {},
      structure_thingnode_sink_association = {}\<rparr>"

definition are_structure_tables_empty :: "database \<Rightarrow> bool" where
  "are_structure_tables_empty db \<longleftrightarrow>
     \<not> (structure_element_type db \<noteq> [] \<or> structure_thing_node db \<noteq> []
        \<or> structure_source db \<noteq> [] \<or> structure_sink db \<noteq> [])"

section \<open>The maintenance endpoint (\<^verbatim>\<open>virtual_structure_router.py\<close>)\<close>

text \<open>
  \<^verbatim>\<open>secrets.compare_digest\<close> on two strings compares them, and raises \<^verbatim>\<open>TypeError\<close> when
  one of them has a character outside ASCII.
\<close>

definition is_ascii :: "string \<Rightarrow> bool" where
  "is_ascii s \<longleftrightarrow> (\<forall>c \<in> set s. of_char c < (128 :: nat))"

definition compare_digest :: "string \<Rightarrow> string \<Rightarrow> error + bool" where
  "compare_digest a b =
     (if is_ascii a \<and> is_ascii b then Inr (a = b)
      else Inl (TypeError ''comparing strings with non-ASCII characters is not supported''))"

text \<open>
  The handler \<^verbatim>\<open>update_structure_endpoint\<close>. Its result is the status code of the
  response and the database afterwards. An exception that the handler does not turn
  into an \<^verbatim>\<open>HTTPException\<close> is answered with 500 by the server.
\<close>

definition update_structure_endpoint ::
  "string \<Rightarrow> string option \<Rightarrow> string \<Rightarrow> CompleteStructure \<Rightarrow> bool \<Rightarrow> database
    \<Rightarrow> (nat \<times> database) option" where
  "update_structure_endpoint engine configured_maintenance_secret secret_str new_structure
       delete_existing_structure db =
     (case configured_maintenance_secret of
        None \<Rightarrow> Some (500, db)
      | Some configured \<Rightarrow>
     (case compare_digest secret_str configured of
        Inl e \<Rightarrow> Some (500, db)
      | Inr False \<Rightarrow> Some (403, db)
      | Inr True \<Rightarrow>
     (let db' = (if delete_existing_structure \<and> \<not> are_structure_tables_empty db
                 then delete_structure db else db)
      in case update_structure engine new_structure db' of
           None \<Rightarrow> None
         | Some (Returned (db'', cs)) \<Rightarrow> Some (204, db'')
         | Some (Raised (DBNotFoundError _) (db'', cs)) \<Rightarrow> Some (404, db'')
         | Some (Raised e (db'', cs)) \<Rightarrow> Some (500, db''))))"

text \<open>
  The route \<^verbatim>\<open>PUT /structure/update\<close>: the framework builds \<^verbatim>\<open>new_structure\<close> from the
  body before it calls the handler, and answers 422 itself when that validation fails.
\<close>

definition put_structure_update ::
  "string \<Rightarrow> string option \<Rightarrow> string \<Rightarrow> CompleteStructure \<Rightarrow> bool \<Rightarrow> database
    \<Rightarrow> (nat \<times> database) option" where
  "put_structure_update engine configured_maintenance_secret secret_str body
       delete_existing_structure db =
     (case validate_CompleteStructure body of
        Inl e \<Rightarrow> Some (422, db)
      | Inr new_structure \<Rightarrow>
          update_structure_endpoint engine configured_maintenance_secret secret_str
            new_structure delete_existing_structure db)"

section \<open>Forests, levels and order: the vocabulary of the sorter's properties\<close>

text \<open>
  \<open>nth_parent nodes k n\<close> is the \<open>k\<close>-th ancestor of \<open>n\<close> as \<^verbatim>\<open>set_parent_ids\<close> resolves
  parents, and \<open>at_depth nodes k n\<close> says that \<open>n\<close> has a root (a node without parent
  reference) as its \<open>k\<close>-th ancestor.
\<close>

fun nth_parent ::
  "StructureServiceThingNode list \<Rightarrow> nat \<Rightarrow> StructureServiceThingNode
    \<Rightarrow> StructureServiceThingNode option" where
  "nth_parent nodes 0 n = Some n"
| "nth_parent nodes (Suc k) n =
     (case parent_of nodes n of None \<Rightarrow> None | Some p \<Rightarrow> nth_parent nodes k p)"

fun at_depth :: "StructureServiceThingNode list \<Rightarrow> nat \<Rightarrow> StructureServiceThingNode \<Rightarrow> bool" where
  "at_depth nodes 0 n = (parent_external_node_id n = None)"
| "at_depth nodes (Suc k) n =
     (case parent_of nodes n of None \<Rightarrow> False | Some p \<Rightarrow> at_depth nodes k p)"

text \<open>
  A valid forest: the ids are pairwise different, and every node reaches a root along
  its parent references, in fewer steps than there are nodes. This says that every
  parent reference of a node that is not a root resolves within the list, and that no
  node is its own ancestor.
\<close>

definition valid_forest :: "StructureServiceThingNode list \<Rightarrow> bool" where
  "valid_forest nodes \<longleftrightarrow>
     distinct (map StructureServiceThingNode.id nodes)
     \<and> (\<forall>n \<in> set nodes. \<exists>k < length nodes. at_depth nodes k n)"

text \<open>The order properties of a flattened list \<open>out\<close>. The first is the one the claim
  words; the others are what the loop establishes.\<close>

definition ordered_within_levels ::
  "StructureServiceThingNode list \<Rightarrow> StructureServiceThingNode list \<Rightarrow> bool" where
  "ordered_within_levels nodes out \<longleftrightarrow>
     (\<forall>j < length out. \<forall>i < j. \<forall>k < length nodes.
        at_depth nodes k (out ! i) \<and> at_depth nodes k (out ! j)
        \<longrightarrow> external_id (out ! i) \<le> external_id (out ! j))"

definition levels_ascending ::
  "StructureServiceThingNode list \<Rightarrow> StructureServiceThingNode list \<Rightarrow> bool" where
  "levels_ascending nodes out \<longleftrightarrow>
     (\<forall>j < length out. \<forall>i < j. \<forall>a b.
        at_depth nodes a (out ! i) \<and> at_depth nodes b (out ! j) \<longrightarrow> a \<le> b)"

definition ancestors_first ::
  "StructureServiceThingNode list \<Rightarrow> StructureServiceThingNode list \<Rightarrow> bool" where
  "ancestors_first nodes out \<longleftrightarrow>
     (\<forall>j < length out. \<forall>i < length out. \<forall>k a.
        nth_parent nodes (Suc k) (out ! j) = Some a
        \<and> StructureServiceThingNode.id a = StructureServiceThingNode.id (out ! i)
        \<longrightarrow> i < j)"

definition siblings_ordered ::
  "StructureServiceThingNode list \<Rightarrow> StructureServiceThingNode list \<Rightarrow> bool" where
  "siblings_ordered nodes out \<longleftrightarrow>
     (\<forall>j < length out. \<forall>i < j.
        parent_of nodes (out ! i) \<noteq> None
        \<and> parent_of nodes (out ! i) = parent_of nodes (out ! j)
        \<longrightarrow> external_id (out ! i) \<le> external_id (out ! j))"

text \<open>Every node of \<open>out\<close> that is not a root carries the id of its parent.\<close>

definition parent_ids_set ::
  "StructureServiceThingNode list \<Rightarrow> StructureServiceThingNode list \<Rightarrow> bool" where
  "parent_ids_set nodes out \<longleftrightarrow>
     (\<forall>m \<in> set out. parent_external_node_id m \<noteq> None \<longrightarrow>
        (\<exists>p. parent_of nodes m = Some p
             \<and> parent_node_id m = Some (StructureServiceThingNode.id p)))"

text \<open>The roots of \<open>out\<close> are the roots of the input, in the order of the input.\<close>

definition roots_keep_order ::
  "StructureServiceThingNode list \<Rightarrow> StructureServiceThingNode list \<Rightarrow> bool" where
  "roots_keep_order nodes out \<longleftrightarrow>
     filter (\<lambda>node. parent_external_node_id node = None) out
       = filter (\<lambda>node. parent_external_node_id node = None) nodes"

text \<open>Two nodes of one level stand in the order of their parents: the parent of the
  earlier node is not behind the parent of the later one.\<close>

definition level_follows_parents ::
  "StructureServiceThingNode list \<Rightarrow> StructureServiceThingNode list \<Rightarrow> bool" where
  "level_follows_parents nodes out \<longleftrightarrow>
     (\<forall>j < length out. \<forall>i < j. \<forall>i' < length out. \<forall>j' < length out. \<forall>k p q.
        at_depth nodes k (out ! i) \<and> at_depth nodes k (out ! j)
        \<and> parent_of nodes (out ! i) = Some p \<and> parent_of nodes (out ! j) = Some q
        \<and> StructureServiceThingNode.id (out ! i') = StructureServiceThingNode.id p
        \<and> StructureServiceThingNode.id (out ! j') = StructureServiceThingNode.id q
        \<longrightarrow> i' \<le> j')"

text \<open>The levels of the breadth-first loop: the roots, and from each level the sorted
  children of its nodes.\<close>

definition next_level ::
  "StructureServiceThingNode list \<Rightarrow> StructureServiceThingNode list
    \<Rightarrow> StructureServiceThingNode list" where
  "next_level nodes current =
     concat (map (\<lambda>node. sort_key external_id
                            (snd (set_parent_ids nodes) (StructureServiceThingNode.id node)))
               current)"

fun level :: "StructureServiceThingNode list \<Rightarrow> nat \<Rightarrow> StructureServiceThingNode list" where
  "level nodes 0 =
     filter (\<lambda>node. parent_external_node_id node = None) (fst (set_parent_ids nodes))"
| "level nodes (Suc k) = next_level nodes (level nodes k)"

text \<open>
  \<open>stored_source tbl k m\<close>: \<open>m\<close> is the model that \<^verbatim>\<open>from_orm_model\<close> reads from a row
  of the table whose id is \<open>k\<close>. Likewise for sinks.
\<close>

definition stored_source ::
  "StructureServiceSource list \<Rightarrow> uuid \<Rightarrow> StructureServiceSource \<Rightarrow> bool" where
  "stored_source tbl k m \<longleftrightarrow>
     (\<exists>row \<in> set tbl. Source_from_orm_model row = Inr m \<and> StructureServiceSource.id row = k)"

definition stored_sink ::
  "StructureServiceSink list \<Rightarrow> uuid \<Rightarrow> StructureServiceSink \<Rightarrow> bool" where
  "stored_sink tbl k m \<longleftrightarrow>
     (\<exists>row \<in> set tbl. Sink_from_orm_model row = Inr m \<and> StructureServiceSink.id row = k)"

section \<open>Example data\<close>

text \<open>
  A small catalog used to instantiate the theorems: one source (id 1) and one sink
  (id 2). \<open>UUID_ex\<close> is \<^verbatim>\<open>uuid.UUID\<close> restricted to the three strings that occur in the
  examples; no entry with id 3 is stored.
\<close>

definition UUID_ex :: "string \<Rightarrow> uuid option" where
  "UUID_ex = map_of
     [(''00000000-0000-0000-0000-000000000001'', 1),
      (''00000000-0000-0000-0000-000000000002'', 2),
      (''00000000-0000-0000-0000-000000000003'', 3)]"

definition source_ex :: StructureServiceSource where
  "source_ex =
     \<lparr>external_id = ''EnergyUsage_PumpSystem_StorageTank'', stakeholder_key = ''GW'',
      name = ''Energy usage with preset filter'',
      StructureServiceSource.id = 1, type = ''timeseries(float)'', visible = True,
      display_path = ''Waterworks 1 / Storage Tank'',
      preset_filters = [''stage'' \<mapsto> JStr ''prod''], passthrough_filters = None,
      adapter_key = ''sql-adapter'', source_id = ''sql_src_1'', ref_key = None, ref_id = [],
      meta_data = None, thing_node_external_ids = Some [''StorageTank'']\<rparr>"

definition sink_ex :: StructureServiceSink where
  "sink_ex =
     \<lparr>external_id = ''AnomalyScore_PumpSystem_StorageTank'', stakeholder_key = ''GW'',
      name = ''Anomaly score'',
      StructureServiceSink.id = 2, type = ''timeseries(float)'', visible = True,
      display_path = ''Waterworks 1 / Storage Tank'',
      preset_filters = [''metrics'' \<mapsto> JStr ''anomaly''], passthrough_filters = None,
      adapter_key = ''sql-adapter'', sink_id = ''sql_snk_1'', ref_key = None, ref_id = [],
      meta_data = None, thing_node_external_ids = Some [''StorageTank'']\<rparr>"

definition db_ex :: database where
  "db_ex =
     \<lparr>structure_element_type = [], structure_thing_node = [],
      structure_source = [source_ex], structure_sink = [sink_ex],
      structure_thingnode_source_association = {},
      structure_thingnode_sink_association = {}\<rparr>"

definition vst_wiring :: "string \<Rightarrow> string \<Rightarrow> Wiring" where
  "vst_wiring nm r =
     \<lparr>workflow_name = nm, adapter_id = ''virtual-structure-adapter'', ref_id = r,
      ref_id_type = None, ref_key = None, type = ''timeseries(float)'',
      filters = [''timestampFrom'' \<mapsto> JStr ''2024-07-10T09:36:00.000000000Z'',
                 ''stage'' \<mapsto> JStr ''test'']\<rparr>"

definition direct_wiring :: Wiring where
  "direct_wiring =
     \<lparr>workflow_name = ''direct'', adapter_id = ''sql-adapter'', ref_id = ''sql_src_7'',
      ref_id_type = None, ref_key = None, type = ''timeseries(float)'',
      filters = Map.empty\<rparr>"

definition ww_ex :: WorkflowWiring where
  "ww_ex =
     \<lparr>input_wirings = [vst_wiring ''nf'' ''00000000-0000-0000-0000-000000000001'', direct_wiring],
      output_wirings = [direct_wiring, vst_wiring ''nf2'' ''00000000-0000-0000-0000-000000000002'']\<rparr>"

text \<open>Two wirings that reference the same stored source.\<close>

definition ww_same_entry :: WorkflowWiring where
  "ww_same_entry =
     \<lparr>input_wirings = [vst_wiring ''first'' ''00000000-0000-0000-0000-000000000001'',
                       vst_wiring ''second'' ''00000000-0000-0000-0000-000000000001''],
      output_wirings = []\<rparr>"

text \<open>Two wirings of which the first references the stored source and the second
  references an id that is not stored.\<close>

definition ww_partly_missing :: WorkflowWiring where
  "ww_partly_missing =
     \<lparr>input_wirings = [vst_wiring ''first'' ''00000000-0000-0000-0000-000000000001'',
                       vst_wiring ''second'' ''00000000-0000-0000-0000-000000000003''],
      output_wirings = []\<rparr>"

text \<open>A single wiring that references an id that is not stored.\<close>

definition ww_missing :: WorkflowWiring where
  "ww_missing =
     \<lparr>input_wirings = [vst_wiring ''nf'' ''00000000-0000-0000-0000-000000000003''],
      output_wirings = []\<rparr>"

text \<open>
  A catalog with a tree: a root, a child of the root, and the example source and sink
  attached to the child.
\<close>

definition node_root_ex :: StructureServiceThingNode where
  "node_root_ex =
     \<lparr>external_id = ''Waterworks1'', stakeholder_key = ''GW'', name = ''Waterworks 1'',
      StructureServiceThingNode.id = 10, description = ''Root'', parent_node_id = None,
      parent_external_node_id = None, element_type_id = 20,
      element_type_external_id = ''Waterworks_Type'', meta_data = None\<rparr>"

definition node_child_ex :: StructureServiceThingNode where
  "node_child_ex =
     \<lparr>external_id = ''StorageTank'', stakeholder_key = ''GW'', name = ''Storage Tank'',
      StructureServiceThingNode.id = 11, description = ''Leaf'', parent_node_id = Some 10,
      parent_external_node_id = Some ''Waterworks1'', element_type_id = 20,
      element_type_external_id = ''Waterworks_Type'', meta_data = None\<rparr>"

definition element_type_ex :: StructureServiceElementType where
  "element_type_ex =
     \<lparr>external_id = ''Waterworks_Type'', stakeholder_key = ''GW'', name = ''Waterworks'',
      StructureServiceElementType.id = 20, description = None\<rparr>"

definition db_tree_ex :: database where
  "db_tree_ex =
     \<lparr>structure_element_type = [element_type_ex],
      structure_thing_node = [node_root_ex, node_child_ex],
      structure_source = [source_ex], structure_sink = [sink_ex],
      structure_thingnode_source_association = {(11, 1)},
      structure_thingnode_sink_association = {(11, 2)}\<rparr>"

text \<open>
  A document with eight thing nodes of three stakeholders. The nodes \<open>X\<close> and \<open>Y\<close> of
  stakeholder \<open>A\<close> name each other as parent. Three more nodes carry the external ids
  \<open>X\<close>, \<open>Y\<close> and \<open>Z\<close> again, for other stakeholders.
\<close>

definition tn :: "uuid \<Rightarrow> string \<Rightarrow> string \<Rightarrow> string option \<Rightarrow> StructureServiceThingNode" where
  "tn i stakeholder ext parent =
     \<lparr>external_id = ext, stakeholder_key = stakeholder,
      name = ''Node '' @ ext @ '' of '' @ stakeholder,
      StructureServiceThingNode.id = i, description = [], parent_node_id = None,
      parent_external_node_id = parent, element_type_id = 0,
      element_type_external_id = ''T'', meta_data = None\<rparr>"

definition et :: "uuid \<Rightarrow> string \<Rightarrow> StructureServiceElementType" where
  "et i stakeholder =
     \<lparr>external_id = ''T'', stakeholder_key = stakeholder, name = ''Type of '' @ stakeholder,
      StructureServiceElementType.id = i, description = None\<rparr>"

definition cyclic_doc :: CompleteStructure where
  "cyclic_doc =
     \<lparr>element_types = [et 101 ''A'', et 102 ''B'', et 103 ''C''],
      thing_nodes =
        [tn 1 ''B'' ''R'' None,
         tn 2 ''B'' ''W'' (Some ''R''),
         tn 3 ''A'' ''X'' (Some ''Y''),
         tn 4 ''B'' ''X'' (Some ''R''),
         tn 5 ''A'' ''Y'' (Some ''X''),
         tn 6 ''B'' ''Z'' (Some ''X''),
         tn 7 ''B'' ''Y'' (Some ''Z''),
         tn 8 ''C'' ''Z'' (Some ''W'')],
      sources = [], sinks = []\<rparr>"

text \<open>The document of two nodes that name each other as parent, with no other node.\<close>

definition two_cycle_doc :: CompleteStructure where
  "two_cycle_doc =
     \<lparr>element_types = [et 101 ''A''],
      thing_nodes = [tn 3 ''A'' ''X'' (Some ''Y''), tn 5 ''A'' ''Y'' (Some ''X'')],
      sources = [], sinks = []\<rparr>"

text \<open>The document that belongs to the example tree, and a body without element
  types.\<close>

definition doc_ex :: CompleteStructure where
  "doc_ex =
     \<lparr>element_types = [element_type_ex],
      thing_nodes = [node_root_ex, node_child_ex],
      sources = [source_ex], sinks = [sink_ex]\<rparr>"

definition body_without_element_types :: CompleteStructure where
  "body_without_element_types =
     \<lparr>element_types = [], thing_nodes = [], sources = [], sinks = []\<rparr>"

text \<open>A tree given leaves first: the root \<open>R\<close> has the children \<open>a\<close> and \<open>b\<close>, the only
  child of \<open>a\<close> is \<open>z\<close>, and the only child of \<open>b\<close> is \<open>c\<close>.\<close>

definition cousins :: "StructureServiceThingNode list" where
  "cousins =
     [tn 5 ''GW'' ''c'' (Some ''b''), tn 4 ''GW'' ''z'' (Some ''a''),
      tn 3 ''GW'' ''b'' (Some ''R''), tn 2 ''GW'' ''a'' (Some ''R''),
      tn 1 ''GW'' ''R'' None]"

definition cousins_with_parent_ids :: "StructureServiceThingNode list" where
  "cousins_with_parent_ids =
     [(tn 5 ''GW'' ''c'' (Some ''b'')) \<lparr>parent_node_id := Some 3\<rparr>,
      (tn 4 ''GW'' ''z'' (Some ''a'')) \<lparr>parent_node_id := Some 2\<rparr>,
      (tn 3 ''GW'' ''b'' (Some ''R'')) \<lparr>parent_node_id := Some 1\<rparr>,
      (tn 2 ''GW'' ''a'' (Some ''R'')) \<lparr>parent_node_id := Some 1\<rparr>,
      tn 1 ''GW'' ''R'' None]"

definition cousins_flattened :: "StructureServiceThingNode list" where
  "cousins_flattened =
     [tn 1 ''GW'' ''R'' None,
      (tn 2 ''GW'' ''a'' (Some ''R'')) \<lparr>parent_node_id := Some 1\<rparr>,
      (tn 3 ''GW'' ''b'' (Some ''R'')) \<lparr>parent_node_id := Some 1\<rparr>,
      (tn 4 ''GW'' ''z'' (Some ''a'')) \<lparr>parent_node_id := Some 2\<rparr>,
      (tn 5 ''GW'' ''c'' (Some ''b'')) \<lparr>parent_node_id := Some 3\<rparr>]"

chapter \<open>Properties\<close>

section \<open>Wiring resolution: auxiliary facts\<close>

lemma update_loop_length: "length (snd (update_loop ws ixs vs)) = length ws"
  by (induction ws ixs vs rule: update_loop.induct) auto

lemma update_loop_frame: "k \<notin> set ixs \<Longrightarrow> snd (update_loop ws ixs vs) ! k = ws ! k"
  by (induction ws ixs vs rule: update_loop.induct) auto

lemma update_loop_length': "update_loop ws ixs vs = (e, ws') \<Longrightarrow> length ws' = length ws"
  using update_loop_length[of ws ixs vs] by simp

lemma update_loop_frame': "update_loop ws ixs vs = (e, ws') \<Longrightarrow> k \<notin> set ixs \<Longrightarrow> ws' ! k = ws ! k"
  using update_loop_frame[of k ixs ws vs] by simp

lemma enumerate_vst_set:
  "j \<in> set (fst (enumerate_vst i ws)) \<longleftrightarrow>
     i \<le> j \<and> j < i + length ws \<and> adapter_id (ws ! (j - i)) = ''virtual-structure-adapter''"
proof (induction ws arbitrary: i)
  case Nil
  then show ?case by simp
next
  case (Cons w ws)
  show ?case
  proof (cases "j = i")
    case True
    with Cons[of "Suc i"] show ?thesis by (auto simp: split_def Let_def)
  next
    case False
    then have "i \<le> j \<Longrightarrow> (w # ws) ! (j - i) = ws ! (j - Suc i)"
      by (simp add: nth_Cons')
    with False Cons[of "Suc i"] show ?thesis by (auto simp: split_def Let_def)
  qed
qed

lemma enumerate_vst_length: "length (snd (enumerate_vst i ws)) = length (fst (enumerate_vst i ws))"
  by (induction ws arbitrary: i) (auto simp: split_def Let_def)

lemma enumerate_vst_sorted: "sorted_wrt (<) (fst (enumerate_vst i ws))"
proof (induction ws arbitrary: i)
  case Nil
  then show ?case by simp
next
  case (Cons w ws)
  have "\<forall>j \<in> set (fst (enumerate_vst (Suc i) ws)). i < j"
    using enumerate_vst_set[of _ "Suc i" ws] by auto
  with Cons[of "Suc i"] show ?case by (auto simp: split_def Let_def)
qed

lemma enumerate_vst_ref_ids:
  "snd (enumerate_vst i ws) = map (\<lambda>j. Wiring.ref_id (ws ! (j - i))) (fst (enumerate_vst i ws))"
proof (induction ws arbitrary: i)
  case Nil
  then show ?case by simp
next
  case (Cons w ws)
  have *: "\<forall>j \<in> set (fst (enumerate_vst (Suc i) ws)). (w # ws) ! (j - i) = ws ! (j - Suc i)"
  proof
    fix j assume "j \<in> set (fst (enumerate_vst (Suc i) ws))"
    then have "Suc i \<le> j" using enumerate_vst_set[of j "Suc i" ws] by simp
    then show "(w # ws) ! (j - i) = ws ! (j - Suc i)"
      by (simp add: nth_Cons')
  qed
  show ?case using Cons[of "Suc i"] * by (auto simp: split_def Let_def)
qed

lemma update_loop_effect:
  "update_loop ws ixs vs = (None, ws') \<Longrightarrow> distinct ixs \<Longrightarrow> \<forall>i\<in>set ixs. i < length ws \<Longrightarrow>
     length ixs = length vs \<and>
     (\<forall>n < length ixs. ws' ! (ixs ! n) = update_wirings (ws ! (ixs ! n)) (vs ! n))"
proof (induction ws ixs vs rule: update_loop.induct)
  case (2 wirings idx indices v "values")
  let ?ws1 = "wirings[idx := update_wirings (wirings ! idx) v]"
  from "2.prems" have run: "update_loop ?ws1 indices values = (None, ws')" by simp
  from "2.prems" have d: "distinct indices" "idx \<notin> set indices" by auto
  from "2.prems" have b: "\<forall>i\<in>set indices. i < length ?ws1" "idx < length wirings" by auto
  from "2.IH"[OF run d(1) b(1)]
  have IH: "length indices = length values"
    "\<And>n. n < length indices \<Longrightarrow> ws' ! (indices ! n) = update_wirings (?ws1 ! (indices ! n)) (values ! n)"
    by auto
  have head: "ws' ! idx = update_wirings (wirings ! idx) v"
    using update_loop_frame'[OF run d(2)] b(2) by simp
  have tail: "ws' ! (indices ! n) = update_wirings (wirings ! (indices ! n)) (values ! n)"
    if "n < length indices" for n
  proof -
    from that d(2) have "indices ! n \<noteq> idx" by (metis nth_mem)
    with IH(2)[OF that] show ?thesis by simp
  qed
  show ?case
  proof (intro conjI allI impI)
    show "length (idx # indices) = length (v # values)" using IH(1) by simp
  next
    fix n assume "n < length (idx # indices)"
    then show "ws' ! ((idx # indices) ! n) = update_wirings (wirings ! ((idx # indices) ! n)) ((v # values) ! n)"
      using head tail by (cases n) auto
  qed
qed auto

lemma set_AList_update: "set (AList.update k v al) \<subseteq> insert (k, v) (set al)"
  by (induction al) auto

lemma keys_AList_update:
  "map fst (AList.update k v al) = (if k \<in> fst ` set al then map fst al else map fst al @ [k])"
  by (induction al) auto

lemma batched_one: "batched xs (Suc 0) = map (\<lambda>x. [x]) xs"
  by (induction xs) (simp_all add: batched.simps[of _ "Suc 0"])

lemma ceil_div_small:
  assumes "0 < n" "n \<le> b"
  shows "ceil_div n b = Suc 0"
proof -
  from assms have b: "0 < b" by simp
  from assms have e: "n + b - 1 = b + (n - 1)" by simp
  from assms have "(n - 1) div b = 0" by simp
  then have "(b + (n - 1)) div b = Suc 0" using b by (simp add: div_add_self1)
  then show ?thesis unfolding ceil_div_def e .
qed

lemma parse_ids_Inr:
  "parse_ids UUID xs = Inr us \<Longrightarrow>
     length us = length xs \<and> (\<forall>n < length xs. UUID (xs ! n) = Some (us ! n))"
proof (induction xs arbitrary: us)
  case Nil
  then show ?case by simp
next
  case (Cons x xs)
  from Cons.prems obtain u us' where u: "UUID x = Some u" "parse_ids UUID xs = Inr us'" "us = u # us'"
    by (auto split: option.splits sum.splits)
  from Cons.IH[OF u(2)] u show ?case by (auto simp: nth_Cons')
qed

lemma enumerate_vst_count:
  "length (fst (enumerate_vst i ws)) =
     length (filter (\<lambda>w. adapter_id w = ''virtual-structure-adapter'') ws)"
  by (induction ws arbitrary: i) (auto simp: split_def Let_def)

lemma resolve_Returned_cases:
  assumes "resolve_virtual_structure_wirings UUID db ww = Returned ww'"
    and "enumerate_vst 0 (input_wirings ww) = (ii, ir)"
    and "enumerate_vst 0 (output_wirings ww) = (oi, ok)"
    and "ii \<noteq> [] \<or> oi \<noteq> []"
  shows "\<exists>sids kids vs vk.
     parse_ids UUID ir = Inr sids \<and>
     fetch_collection_of_sources_from_db_by_id db sids 500 = Inr vs \<and>
     parse_ids UUID ok = Inr kids \<and>
     fetch_collection_of_sinks_from_db_by_id db kids 500 = Inr vk \<and>
     update_loop (input_wirings ww) ii (map (Source \<circ> snd) vs) = (None, input_wirings ww') \<and>
     update_loop (output_wirings ww) oi (map (Sink \<circ> snd) vk) = (None, output_wirings ww')"
proof -
  have l: "length ir = length ii" "length ok = length oi"
    using enumerate_vst_length[of 0 "input_wirings ww"] enumerate_vst_length[of 0 "output_wirings ww"]
      assms(2,3) by auto
  with assms(4) have ne: "ir \<noteq> [] \<or> ok \<noteq> []" by auto
  from assms(1) ne show ?thesis
    unfolding resolve_virtual_structure_wirings_def
      get_enumerated_ids_of_vst_sources_or_sinks_def assms(2,3)
      get_virtual_sources_and_sinks_from_structure_service_def
    by (auto split: sum.splits error.splits prod.splits option.splits if_splits simp: Let_def)
qed

lemma Source_from_orm_model_id:
  "Source_from_orm_model r = Inr m \<Longrightarrow> StructureServiceSource.id m = StructureServiceSource.id r"
  by (auto simp: Source_from_orm_model_def split: list.splits)

lemma store_sources_stored:
  "store_sources acc rows = Inr d \<Longrightarrow> \<forall>(k, m) \<in> set acc. stored_source tbl k m \<Longrightarrow>
   set rows \<subseteq> set tbl \<Longrightarrow> \<forall>(k, m) \<in> set d. stored_source tbl k m"
proof (induction rows arbitrary: acc)
  case Nil
  then show ?case by simp
next
  case (Cons r rows)
  from Cons.prems(1) obtain m where m: "Source_from_orm_model r = Inr m"
    and rest: "store_sources (AList.update (StructureServiceSource.id r) m acc) rows = Inr d"
    by (auto split: sum.splits)
  have "stored_source tbl (StructureServiceSource.id r) m"
    using m Cons.prems(3) by (auto simp: stored_source_def)
  with Cons.prems(2) have "\<forall>(k, m) \<in> set (AList.update (StructureServiceSource.id r) m acc). stored_source tbl k m"
    using set_AList_update[of "StructureServiceSource.id r" m acc] by auto
  from Cons.IH[OF rest this] Cons.prems(3) show ?case by simp
qed

lemma query_source_batches_stored:
  "query_source_batches tbl acc batches = Inr d \<Longrightarrow> \<forall>(k, m) \<in> set acc. stored_source tbl k m \<Longrightarrow>
   \<forall>(k, m) \<in> set d. stored_source tbl k m"
proof (induction batches arbitrary: acc)
  case Nil
  then show ?case by simp
next
  case (Cons b batches)
  from Cons.prems(1) obtain acc' where
    a: "store_sources acc (filter (\<lambda>r. StructureServiceSource.id r \<in> set b) tbl) = Inr acc'"
    and rest: "query_source_batches tbl acc' batches = Inr d"
    by (auto split: sum.splits)
  have "\<forall>(k, m) \<in> set acc'. stored_source tbl k m"
    using store_sources_stored[OF a Cons.prems(2)] by auto
  from Cons.IH[OF rest this] show ?case .
qed

lemma fetch_sources_stored:
  "fetch_collection_of_sources_from_db_by_id db ids bs = Inr d \<Longrightarrow>
   \<forall>(k, m) \<in> set d. stored_source (structure_source db) k m"
  unfolding fetch_collection_of_sources_from_db_by_id_def
  by (auto split: if_splits sum.splits dest!: query_source_batches_stored)

lemma store_sources_keys_single:
  "store_sources acc rows = Inr d \<Longrightarrow> \<forall>r\<in>set rows. StructureServiceSource.id r = x \<Longrightarrow>
   map fst d = (if rows = [] \<or> x \<in> fst ` set acc then map fst acc else map fst acc @ [x])"
proof (induction rows arbitrary: acc)
  case Nil
  then show ?case by simp
next
  case (Cons r rows)
  from Cons.prems obtain m where
    rest: "store_sources (AList.update x m acc) rows = Inr d"
    by (auto split: sum.splits)
  have in1: "x \<in> fst ` set (AList.update x m acc)"
  proof -
    have "x \<in> set (map fst (AList.update x m acc))"
      by (simp add: keys_AList_update)
    then show ?thesis by simp
  qed
  from Cons.IH[OF rest] Cons.prems(2) in1
  have "map fst d = map fst (AList.update x m acc)" by auto
  then show ?case by (simp add: keys_AList_update)
qed

lemma query_source_singletons_keys:
  "query_source_batches tbl acc (map (\<lambda>x. [x]) ids) = Inr d \<Longrightarrow>
   \<exists>ks. map fst d = map fst acc @ ks \<and> subseq ks ids"
proof (induction ids arbitrary: acc)
  case Nil
  then show ?case by simp
next
  case (Cons x ids)
  let ?rows = "filter (\<lambda>r. StructureServiceSource.id r \<in> set [x]) tbl"
  from Cons.prems obtain acc' where
    a: "store_sources acc ?rows = Inr acc'"
    and rest: "query_source_batches tbl acc' (map (\<lambda>x. [x]) ids) = Inr d"
    by (auto split: sum.splits)
  have k1: "map fst acc' = (if ?rows = [] \<or> x \<in> fst ` set acc then map fst acc else map fst acc @ [x])"
    by (rule store_sources_keys_single[OF a]) simp
  from Cons.IH[OF rest] obtain ks where ks: "map fst d = map fst acc' @ ks" "subseq ks ids" by blast
  show ?case
  proof (cases "?rows = [] \<or> x \<in> fst ` set acc")
    case True
    with k1 ks have "map fst d = map fst acc @ ks" "subseq ks (x # ids)" by auto
    then show ?thesis by blast
  next
    case False
    with k1 ks have "map fst d = map fst acc @ (x # ks)" "subseq (x # ks) (x # ids)" by auto
    then show ?thesis by blast
  qed
qed

lemma fetch_sources_keys:
  assumes "fetch_collection_of_sources_from_db_by_id db ids 500 = Inr d"
    and "length ids \<le> 500" and "length d = length ids"
  shows "map fst d = ids"
proof (cases "ids = []")
  case True
  with assms show ?thesis by simp
next
  case False
  then have "ceil_div (length ids) 500 = Suc 0"
    using assms(2) by (intro ceil_div_small) auto
  with assms(1) False have "query_source_batches (structure_source db) [] (map (\<lambda>x. [x]) ids) = Inr d"
    by (auto simp: fetch_collection_of_sources_from_db_by_id_def batched_one split: sum.splits if_splits)
  from query_source_singletons_keys[OF this] obtain ks where "map fst d = ks" "subseq ks ids" by auto
  moreover have "length (map fst d) = length ids" using assms(3) by simp
  ultimately show ?thesis using subseq_same_length[of "map fst d" ids] by simp
qed

lemma Sink_from_orm_model_id:
  "Sink_from_orm_model r = Inr m \<Longrightarrow> StructureServiceSink.id m = StructureServiceSink.id r"
  by (auto simp: Sink_from_orm_model_def split: list.splits)

lemma store_sinks_stored:
  "store_sinks acc rows = Inr d \<Longrightarrow> \<forall>(k, m) \<in> set acc. stored_sink tbl k m \<Longrightarrow>
   set rows \<subseteq> set tbl \<Longrightarrow> \<forall>(k, m) \<in> set d. stored_sink tbl k m"
proof (induction rows arbitrary: acc)
  case Nil
  then show ?case by simp
next
  case (Cons r rows)
  from Cons.prems(1) obtain m where m: "Sink_from_orm_model r = Inr m"
    and rest: "store_sinks (AList.update (StructureServiceSink.id r) m acc) rows = Inr d"
    by (auto split: sum.splits)
  have "stored_sink tbl (StructureServiceSink.id r) m"
    using m Cons.prems(3) by (auto simp: stored_sink_def)
  with Cons.prems(2) have "\<forall>(k, m) \<in> set (AList.update (StructureServiceSink.id r) m acc). stored_sink tbl k m"
    using set_AList_update[of "StructureServiceSink.id r" m acc] by auto
  from Cons.IH[OF rest this] Cons.prems(3) show ?case by simp
qed

lemma query_sink_batches_stored:
  "query_sink_batches tbl acc batches = Inr d \<Longrightarrow> \<forall>(k, m) \<in> set acc. stored_sink tbl k m \<Longrightarrow>
   \<forall>(k, m) \<in> set d. stored_sink tbl k m"
proof (induction batches arbitrary: acc)
  case Nil
  then show ?case by simp
next
  case (Cons b batches)
  from Cons.prems(1) obtain acc' where
    a: "store_sinks acc (filter (\<lambda>r. StructureServiceSink.id r \<in> set b) tbl) = Inr acc'"
    and rest: "query_sink_batches tbl acc' batches = Inr d"
    by (auto split: sum.splits)
  have "\<forall>(k, m) \<in> set acc'. stored_sink tbl k m"
    using store_sinks_stored[OF a Cons.prems(2)] by auto
  from Cons.IH[OF rest this] show ?case .
qed

lemma fetch_sinks_stored:
  "fetch_collection_of_sinks_from_db_by_id db ids bs = Inr d \<Longrightarrow>
   \<forall>(k, m) \<in> set d. stored_sink (structure_sink db) k m"
  unfolding fetch_collection_of_sinks_from_db_by_id_def
  by (auto split: if_splits sum.splits dest!: query_sink_batches_stored)

lemma store_sinks_keys_single:
  "store_sinks acc rows = Inr d \<Longrightarrow> \<forall>r\<in>set rows. StructureServiceSink.id r = x \<Longrightarrow>
   map fst d = (if rows = [] \<or> x \<in> fst ` set acc then map fst acc else map fst acc @ [x])"
proof (induction rows arbitrary: acc)
  case Nil
  then show ?case by simp
next
  case (Cons r rows)
  from Cons.prems obtain m where
    rest: "store_sinks (AList.update x m acc) rows = Inr d"
    by (auto split: sum.splits)
  have in1: "x \<in> fst ` set (AList.update x m acc)"
  proof -
    have "x \<in> set (map fst (AList.update x m acc))"
      by (simp add: keys_AList_update)
    then show ?thesis by simp
  qed
  from Cons.IH[OF rest] Cons.prems(2) in1
  have "map fst d = map fst (AList.update x m acc)" by auto
  then show ?case by (simp add: keys_AList_update)
qed

lemma query_sink_singletons_keys:
  "query_sink_batches tbl acc (map (\<lambda>x. [x]) ids) = Inr d \<Longrightarrow>
   \<exists>ks. map fst d = map fst acc @ ks \<and> subseq ks ids"
proof (induction ids arbitrary: acc)
  case Nil
  then show ?case by simp
next
  case (Cons x ids)
  let ?rows = "filter (\<lambda>r. StructureServiceSink.id r \<in> set [x]) tbl"
  from Cons.prems obtain acc' where
    a: "store_sinks acc ?rows = Inr acc'"
    and rest: "query_sink_batches tbl acc' (map (\<lambda>x. [x]) ids) = Inr d"
    by (auto split: sum.splits)
  have k1: "map fst acc' = (if ?rows = [] \<or> x \<in> fst ` set acc then map fst acc else map fst acc @ [x])"
    by (rule store_sinks_keys_single[OF a]) simp
  from Cons.IH[OF rest] obtain ks where ks: "map fst d = map fst acc' @ ks" "subseq ks ids" by blast
  show ?case
  proof (cases "?rows = [] \<or> x \<in> fst ` set acc")
    case True
    with k1 ks have "map fst d = map fst acc @ ks" "subseq ks (x # ids)" by auto
    then show ?thesis by blast
  next
    case False
    with k1 ks have "map fst d = map fst acc @ (x # ks)" "subseq (x # ks) (x # ids)" by auto
    then show ?thesis by blast
  qed
qed

lemma fetch_sinks_keys:
  assumes "fetch_collection_of_sinks_from_db_by_id db ids 500 = Inr d"
    and "length ids \<le> 500" and "length d = length ids"
  shows "map fst d = ids"
proof (cases "ids = []")
  case True
  with assms show ?thesis by simp
next
  case False
  then have "ceil_div (length ids) 500 = Suc 0"
    using assms(2) by (intro ceil_div_small) auto
  with assms(1) False have "query_sink_batches (structure_sink db) [] (map (\<lambda>x. [x]) ids) = Inr d"
    by (auto simp: fetch_collection_of_sinks_from_db_by_id_def batched_one split: sum.splits if_splits)
  from query_sink_singletons_keys[OF this] obtain ks where "map fst d = ks" "subseq ks ids" by auto
  moreover have "length (map fst d) = length ids" using assms(3) by simp
  ultimately show ?thesis using subseq_same_length[of "map fst d" ids] by simp
qed

lemma update_wirings_filters:
  "Wiring.filters (update_wirings w v) = Wiring.filters w ++ sos_preset_filters v"
  by (simp add: update_wirings_def Let_def)

lemma resolve_input_rewritten:
  assumes ret: "resolve_virtual_structure_wirings UUID db ww = Returned ww'"
    and i: "i < length (input_wirings ww)"
    and vst: "adapter_id (input_wirings ww ! i) = ''virtual-structure-adapter''"
  shows "\<exists>u s. stored_source (structure_source db) u s \<and>
           input_wirings ww' ! i = update_wirings (input_wirings ww ! i) (Source s) \<and>
           (length (filter (\<lambda>w. adapter_id w = ''virtual-structure-adapter'') (input_wirings ww)) \<le> 500
              \<longrightarrow> UUID (Wiring.ref_id (input_wirings ww ! i)) = Some u)"
proof -
  obtain ii ir where ii: "enumerate_vst 0 (input_wirings ww) = (ii, ir)" by force
  obtain oi ok where oi: "enumerate_vst 0 (output_wirings ww) = (oi, ok)" by force
  have mem: "i \<in> set ii"
    using enumerate_vst_set[of i 0 "input_wirings ww"] ii i vst by simp
  then have ne: "ii \<noteq> [] \<or> oi \<noteq> []" by auto
  from resolve_Returned_cases[OF ret ii oi ne] obtain sids vs where
    p: "parse_ids UUID ir = Inr sids"
    and f: "fetch_collection_of_sources_from_db_by_id db sids 500 = Inr vs"
    and l: "update_loop (input_wirings ww) ii (map (Source \<circ> snd) vs) = (None, input_wirings ww')"
    by blast
  have d: "distinct ii"
    using enumerate_vst_sorted[of 0 "input_wirings ww"] ii by (simp add: strict_sorted_iff)
  have b: "\<forall>k\<in>set ii. k < length (input_wirings ww)"
    using enumerate_vst_set[of _ 0 "input_wirings ww"] ii by simp
  from update_loop_effect[OF l d b]
  have len: "length ii = length vs"
    and eff: "\<And>n. n < length ii \<Longrightarrow>
      input_wirings ww' ! (ii ! n) = update_wirings (input_wirings ww ! (ii ! n)) (map (Source \<circ> snd) vs ! n)"
    by auto
  from mem obtain n where n: "n < length ii" "ii ! n = i" by (auto simp: in_set_conv_nth)
  have st: "stored_source (structure_source db) (fst (vs ! n)) (snd (vs ! n))"
    using fetch_sources_stored[OF f] n(1) len by (auto simp: split_def dest!: bspec[where x = "vs ! n"])
  have rw: "input_wirings ww' ! i = update_wirings (input_wirings ww ! i) (Source (snd (vs ! n)))"
    using eff[OF n(1)] n len by simp
  have ir: "length ir = length ii" "ir ! n = Wiring.ref_id (input_wirings ww ! i)"
    using enumerate_vst_length[of 0 "input_wirings ww"] enumerate_vst_ref_ids[of 0 "input_wirings ww"]
      ii n by auto
  have ref: "UUID (Wiring.ref_id (input_wirings ww ! i)) = Some (fst (vs ! n))"
    if small: "length (filter (\<lambda>w. adapter_id w = ''virtual-structure-adapter'') (input_wirings ww)) \<le> 500"
  proof -
    from parse_ids_Inr[OF p] have ps: "length sids = length ir" "UUID (ir ! n) = Some (sids ! n)"
      using n(1) ir(1) by auto
    have "length ii \<le> 500" using small enumerate_vst_count[of 0 "input_wirings ww"] ii by simp
    with ps(1) ir(1) len have "map fst vs = sids"
      by (intro fetch_sources_keys[OF f]) auto
    then have "fst (vs ! n) = sids ! n" using n(1) len by (metis nth_map)
    with ps(2) ir(2) show ?thesis by simp
  qed
  from st rw ref show ?thesis by blast
qed

lemma resolve_output_rewritten:
  assumes ret: "resolve_virtual_structure_wirings UUID db ww = Returned ww'"
    and i: "i < length (output_wirings ww)"
    and vst: "adapter_id (output_wirings ww ! i) = ''virtual-structure-adapter''"
  shows "\<exists>u s. stored_sink (structure_sink db) u s \<and>
           output_wirings ww' ! i = update_wirings (output_wirings ww ! i) (Sink s) \<and>
           (length (filter (\<lambda>w. adapter_id w = ''virtual-structure-adapter'') (output_wirings ww)) \<le> 500
              \<longrightarrow> UUID (Wiring.ref_id (output_wirings ww ! i)) = Some u)"
proof -
  obtain oi' ok' where oi': "enumerate_vst 0 (input_wirings ww) = (oi', ok')" by force
  obtain ii ir where ii: "enumerate_vst 0 (output_wirings ww) = (ii, ir)" by force
  have mem: "i \<in> set ii"
    using enumerate_vst_set[of i 0 "output_wirings ww"] ii i vst by simp
  then have ne: "oi' \<noteq> [] \<or> ii \<noteq> []" by auto
  from resolve_Returned_cases[OF ret oi' ii ne] obtain sids vs where
    p: "parse_ids UUID ir = Inr sids"
    and f: "fetch_collection_of_sinks_from_db_by_id db sids 500 = Inr vs"
    and l: "update_loop (output_wirings ww) ii (map (Sink \<circ> snd) vs) = (None, output_wirings ww')"
    by blast
  have d: "distinct ii"
    using enumerate_vst_sorted[of 0 "output_wirings ww"] ii by (simp add: strict_sorted_iff)
  have b: "\<forall>k\<in>set ii. k < length (output_wirings ww)"
    using enumerate_vst_set[of _ 0 "output_wirings ww"] ii by simp
  from update_loop_effect[OF l d b]
  have len: "length ii = length vs"
    and eff: "\<And>n. n < length ii \<Longrightarrow>
      output_wirings ww' ! (ii ! n) = update_wirings (output_wirings ww ! (ii ! n)) (map (Sink \<circ> snd) vs ! n)"
    by auto
  from mem obtain n where n: "n < length ii" "ii ! n = i" by (auto simp: in_set_conv_nth)
  have st: "stored_sink (structure_sink db) (fst (vs ! n)) (snd (vs ! n))"
    using fetch_sinks_stored[OF f] n(1) len by (auto simp: split_def dest!: bspec[where x = "vs ! n"])
  have rw: "output_wirings ww' ! i = update_wirings (output_wirings ww ! i) (Sink (snd (vs ! n)))"
    using eff[OF n(1)] n len by simp
  have ir: "length ir = length ii" "ir ! n = Wiring.ref_id (output_wirings ww ! i)"
    using enumerate_vst_length[of 0 "output_wirings ww"] enumerate_vst_ref_ids[of 0 "output_wirings ww"]
      ii n by auto
  have ref: "UUID (Wiring.ref_id (output_wirings ww ! i)) = Some (fst (vs ! n))"
    if small: "length (filter (\<lambda>w. adapter_id w = ''virtual-structure-adapter'') (output_wirings ww)) \<le> 500"
  proof -
    from parse_ids_Inr[OF p] have ps: "length sids = length ir" "UUID (ir ! n) = Some (sids ! n)"
      using n(1) ir(1) by auto
    have "length ii \<le> 500" using small enumerate_vst_count[of 0 "output_wirings ww"] ii by simp
    with ps(1) ir(1) len have "map fst vs = sids"
      by (intro fetch_sinks_keys[OF f]) auto
    then have "fst (vs ! n) = sids ! n" using n(1) len by (metis nth_map)
    with ps(2) ir(2) show ?thesis by simp
  qed
  from st rw ref show ?thesis by blast
qed

section \<open>Wiring resolution: passthrough, filter merge, failure\<close>

text \<open>
  Claim C9 (passthrough). Whatever \<^verbatim>\<open>resolve_virtual_structure_wirings\<close> does to a
  workflow wiring, an input or output wiring whose \<open>adapter_id\<close> is not
  \<^verbatim>\<open>"virtual-structure-adapter"\<close> is the same record afterwards (all of its fields,
  since the records are equal), and both lists keep their length. This holds for the
  state left by a normal return and also for the state left behind by an exception.
\<close>

theorem passthrough_unchanged:
  "(i < length (input_wirings ww) \<and>
      adapter_id (input_wirings ww ! i) \<noteq> ''virtual-structure-adapter''
      \<longrightarrow> input_wirings (final_state (resolve_virtual_structure_wirings UUID db ww)) ! i
            = input_wirings ww ! i)
   \<and> (j < length (output_wirings ww) \<and>
      adapter_id (output_wirings ww ! j) \<noteq> ''virtual-structure-adapter''
      \<longrightarrow> output_wirings (final_state (resolve_virtual_structure_wirings UUID db ww)) ! j
            = output_wirings ww ! j)
   \<and> length (input_wirings (final_state (resolve_virtual_structure_wirings UUID db ww)))
        = length (input_wirings ww)
   \<and> length (output_wirings (final_state (resolve_virtual_structure_wirings UUID db ww)))
        = length (output_wirings ww)"
proof -
  obtain ii ir where ii: "enumerate_vst 0 (input_wirings ww) = (ii, ir)" by force
  obtain oi or' where oi: "enumerate_vst 0 (output_wirings ww) = (oi, or')" by force
  have ni: "adapter_id (input_wirings ww ! i) \<noteq> ''virtual-structure-adapter'' \<Longrightarrow> i \<notin> set ii"
    using enumerate_vst_set[of i 0 "input_wirings ww"] ii by auto
  have nj: "adapter_id (output_wirings ww ! j) \<noteq> ''virtual-structure-adapter'' \<Longrightarrow> j \<notin> set oi"
    using enumerate_vst_set[of j 0 "output_wirings ww"] oi by auto
  show ?thesis
    unfolding resolve_virtual_structure_wirings_def
      get_enumerated_ids_of_vst_sources_or_sinks_def ii oi
    using ni nj
    by (auto split: sum.splits error.splits prod.splits option.splits simp: Let_def
          dest: update_loop_length' update_loop_frame')
qed

text \<open>
  The theorem at the example: the second input wiring and the first output wiring of
  \<open>ww_ex\<close> go to the SQL adapter directly and stay as they are, while their neighbours
  are resolved.
\<close>

theorem passthrough_unchanged_witness:
  "1 < length (input_wirings ww_ex)
   \<and> adapter_id (input_wirings ww_ex ! 1) \<noteq> ''virtual-structure-adapter''
   \<and> 0 < length (output_wirings ww_ex)
   \<and> adapter_id (output_wirings ww_ex ! 0) \<noteq> ''virtual-structure-adapter''
   \<and> input_wirings (final_state (resolve_virtual_structure_wirings UUID_ex db_ex ww_ex)) ! 1
        = direct_wiring
   \<and> output_wirings (final_state (resolve_virtual_structure_wirings UUID_ex db_ex ww_ex)) ! 0
        = direct_wiring"
proof -
  have h: "1 < length (input_wirings ww_ex)"
    "adapter_id (input_wirings ww_ex ! 1) \<noteq> ''virtual-structure-adapter''"
    "0 < length (output_wirings ww_ex)"
    "adapter_id (output_wirings ww_ex ! 0) \<noteq> ''virtual-structure-adapter''"
    by (simp_all add: ww_ex_def direct_wiring_def)
  from passthrough_unchanged[of 1 ww_ex UUID_ex db_ex 0] h
  have "input_wirings (final_state (resolve_virtual_structure_wirings UUID_ex db_ex ww_ex)) ! 1
          = input_wirings ww_ex ! 1"
    "output_wirings (final_state (resolve_virtual_structure_wirings UUID_ex db_ex ww_ex)) ! 0
          = output_wirings ww_ex ! 0"
    by blast+
  with h show ?thesis by (simp add: ww_ex_def)
qed

text \<open>
  Claim C2 (filter merge law). When the resolver returns, every input wiring that
  carried the virtual adapter id has been rewritten by \<^verbatim>\<open>update_wirings\<close> from a stored
  source \<open>s\<close>, and its filters are the caller's filters merged with the preset filters of
  \<open>s\<close>: on each key the preset value if \<open>s\<close> has one, the caller's value otherwise.
  The same holds for output wirings and sinks. With at most 500 such wirings in the
  list (the batches of the fetch then hold one id each), \<open>s\<close> is the entry whose id is
  the wiring's \<open>ref_id\<close>.
\<close>

theorem resolved_filters_merge_presets:
  assumes "resolve_virtual_structure_wirings UUID db ww = Returned ww'"
  shows
    "(i < length (input_wirings ww) \<and>
        adapter_id (input_wirings ww ! i) = ''virtual-structure-adapter'' \<longrightarrow>
      (\<exists>u s. stored_source (structure_source db) u s
         \<and> (length (filter (\<lambda>w. adapter_id w = ''virtual-structure-adapter'') (input_wirings ww))
                \<le> 500 \<longrightarrow> UUID (Wiring.ref_id (input_wirings ww ! i)) = Some u)
         \<and> Wiring.filters (input_wirings ww' ! i)
              = Wiring.filters (input_wirings ww ! i) ++ StructureServiceSource.preset_filters s
         \<and> (\<forall>k. Wiring.filters (input_wirings ww' ! i) k =
                (case StructureServiceSource.preset_filters s k of
                   Some v \<Rightarrow> Some v
                 | None \<Rightarrow> Wiring.filters (input_wirings ww ! i) k))))
   \<and> (j < length (output_wirings ww) \<and>
        adapter_id (output_wirings ww ! j) = ''virtual-structure-adapter'' \<longrightarrow>
      (\<exists>u s. stored_sink (structure_sink db) u s
         \<and> (length (filter (\<lambda>w. adapter_id w = ''virtual-structure-adapter'') (output_wirings ww))
                \<le> 500 \<longrightarrow> UUID (Wiring.ref_id (output_wirings ww ! j)) = Some u)
         \<and> Wiring.filters (output_wirings ww' ! j)
              = Wiring.filters (output_wirings ww ! j) ++ StructureServiceSink.preset_filters s
         \<and> (\<forall>k. Wiring.filters (output_wirings ww' ! j) k =
                (case StructureServiceSink.preset_filters s k of
                   Some v \<Rightarrow> Some v
                 | None \<Rightarrow> Wiring.filters (output_wirings ww ! j) k))))"
proof (intro conjI impI)
  assume "i < length (input_wirings ww) \<and>
    adapter_id (input_wirings ww ! i) = ''virtual-structure-adapter''"
  then obtain u s where
    "stored_source (structure_source db) u s"
    "input_wirings ww' ! i = update_wirings (input_wirings ww ! i) (Source s)"
    "length (filter (\<lambda>w. adapter_id w = ''virtual-structure-adapter'') (input_wirings ww)) \<le> 500
       \<longrightarrow> UUID (Wiring.ref_id (input_wirings ww ! i)) = Some u"
    using resolve_input_rewritten[OF assms, of i] by blast
  then show "\<exists>u s. stored_source (structure_source db) u s
         \<and> (length (filter (\<lambda>w. adapter_id w = ''virtual-structure-adapter'') (input_wirings ww))
                \<le> 500 \<longrightarrow> UUID (Wiring.ref_id (input_wirings ww ! i)) = Some u)
         \<and> Wiring.filters (input_wirings ww' ! i)
              = Wiring.filters (input_wirings ww ! i) ++ StructureServiceSource.preset_filters s
         \<and> (\<forall>k. Wiring.filters (input_wirings ww' ! i) k =
                (case StructureServiceSource.preset_filters s k of
                   Some v \<Rightarrow> Some v
                 | None \<Rightarrow> Wiring.filters (input_wirings ww ! i) k))"
    by (intro exI[of _ u] exI[of _ s]) (simp add: update_wirings_filters map_add_def)
next
  assume "j < length (output_wirings ww) \<and>
    adapter_id (output_wirings ww ! j) = ''virtual-structure-adapter''"
  then obtain u s where
    "stored_sink (structure_sink db) u s"
    "output_wirings ww' ! j = update_wirings (output_wirings ww ! j) (Sink s)"
    "length (filter (\<lambda>w. adapter_id w = ''virtual-structure-adapter'') (output_wirings ww)) \<le> 500
       \<longrightarrow> UUID (Wiring.ref_id (output_wirings ww ! j)) = Some u"
    using resolve_output_rewritten[OF assms, of j] by blast
  then show "\<exists>u s. stored_sink (structure_sink db) u s
         \<and> (length (filter (\<lambda>w. adapter_id w = ''virtual-structure-adapter'') (output_wirings ww))
                \<le> 500 \<longrightarrow> UUID (Wiring.ref_id (output_wirings ww ! j)) = Some u)
         \<and> Wiring.filters (output_wirings ww' ! j)
              = Wiring.filters (output_wirings ww ! j) ++ StructureServiceSink.preset_filters s
         \<and> (\<forall>k. Wiring.filters (output_wirings ww' ! j) k =
                (case StructureServiceSink.preset_filters s k of
                   Some v \<Rightarrow> Some v
                 | None \<Rightarrow> Wiring.filters (output_wirings ww ! j) k))"
    by (intro exI[of _ u] exI[of _ s]) (simp add: update_wirings_filters map_add_def)
qed

text \<open>
  What the resolver makes of the example: both virtual wirings point at the SQL adapter
  afterwards, and the caller's value \<open>test\<close> for the key \<open>stage\<close> has given way to the
  preset value \<open>prod\<close>.
\<close>

lemma resolve_ww_ex:
  "resolve_virtual_structure_wirings UUID_ex db_ex ww_ex = Returned
     \<lparr>input_wirings =
        [\<lparr>workflow_name = ''nf'', adapter_id = ''sql-adapter'', ref_id = ''sql_src_1'',
          ref_id_type = None, ref_key = None, type = ''timeseries(float)'',
          filters = [''timestampFrom'' \<mapsto> JStr ''2024-07-10T09:36:00.000000000Z'',
                     ''stage'' \<mapsto> JStr ''prod'']\<rparr>,
         direct_wiring],
      output_wirings =
        [direct_wiring,
         \<lparr>workflow_name = ''nf2'', adapter_id = ''sql-adapter'', ref_id = ''sql_snk_1'',
          ref_id_type = None, ref_key = None, type = ''timeseries(float)'',
          filters = [''timestampFrom'' \<mapsto> JStr ''2024-07-10T09:36:00.000000000Z'',
                     ''stage'' \<mapsto> JStr ''test'', ''metrics'' \<mapsto> JStr ''anomaly'']\<rparr>]\<rparr>"
  by (simp add: resolve_virtual_structure_wirings_def
      get_enumerated_ids_of_vst_sources_or_sinks_def
      get_virtual_sources_and_sinks_from_structure_service_def
      fetch_collection_of_sources_from_db_by_id_def fetch_collection_of_sinks_from_db_by_id_def
      Source_from_orm_model_def Sink_from_orm_model_def check_not_empty_def validate_filters_def
      ww_ex_def db_ex_def source_ex_def sink_ex_def vst_wiring_def direct_wiring_def UUID_ex_def
      update_wirings_def ceil_div_def batched.simps Let_def fun_eq_iff)

theorem resolved_filters_merge_presets_witness:
  "\<exists>ww'. resolve_virtual_structure_wirings UUID_ex db_ex ww_ex = Returned ww'
     \<and> 0 < length (input_wirings ww_ex)
     \<and> adapter_id (input_wirings ww_ex ! 0) = ''virtual-structure-adapter''
     \<and> 1 < length (output_wirings ww_ex)
     \<and> adapter_id (output_wirings ww_ex ! 1) = ''virtual-structure-adapter''
     \<and> (\<exists>u s. stored_source (structure_source db_ex) u s
           \<and> Wiring.filters (input_wirings ww' ! 0)
               = Wiring.filters (input_wirings ww_ex ! 0) ++ StructureServiceSource.preset_filters s)
     \<and> (\<exists>u s. stored_sink (structure_sink db_ex) u s
           \<and> Wiring.filters (output_wirings ww' ! 1)
               = Wiring.filters (output_wirings ww_ex ! 1) ++ StructureServiceSink.preset_filters s)"
proof -
  have h: "0 < length (input_wirings ww_ex)"
    "adapter_id (input_wirings ww_ex ! 0) = ''virtual-structure-adapter''"
    "1 < length (output_wirings ww_ex)"
    "adapter_id (output_wirings ww_ex ! 1) = ''virtual-structure-adapter''"
    by (simp_all add: ww_ex_def vst_wiring_def)
  from resolved_filters_merge_presets[OF resolve_ww_ex, of 0 1] h
  show ?thesis using resolve_ww_ex by blast
qed

text \<open>
  Claim C3 (a missing reference fails the resolution with \<^verbatim>\<open>AdapterHandlingException\<close>).
  The fetch raises \<^verbatim>\<open>DBNotFoundError\<close> only when it found no row at all
  (\<^verbatim>\<open>if not sources\<close>). With one stored and one missing reference it returns the one
  row; the resolver rewrites the first wiring and then \<^verbatim>\<open>zip(..., strict=True)\<close> raises
  \<^verbatim>\<open>ValueError\<close>, which is not the error the message "Atleast one source or sink ...
  was not found" is attached to.
\<close>

theorem resolve_partly_missing_raises_ValueError:
  "resolve_virtual_structure_wirings UUID_ex db_ex ww_partly_missing =
     Raised (ValueError ''zip() argument 2 is shorter than argument 1'')
       \<lparr>input_wirings =
          [\<lparr>workflow_name = ''first'', adapter_id = ''sql-adapter'', ref_id = ''sql_src_1'',
            ref_id_type = None, ref_key = None, type = ''timeseries(float)'',
            filters = [''timestampFrom'' \<mapsto> JStr ''2024-07-10T09:36:00.000000000Z'',
                       ''stage'' \<mapsto> JStr ''prod'']\<rparr>,
           vst_wiring ''second'' ''00000000-0000-0000-0000-000000000003''],
        output_wirings = []\<rparr>"
  by (simp add: resolve_virtual_structure_wirings_def
      get_enumerated_ids_of_vst_sources_or_sinks_def
      get_virtual_sources_and_sinks_from_structure_service_def
      fetch_collection_of_sources_from_db_by_id_def fetch_collection_of_sinks_from_db_by_id_def
      Source_from_orm_model_def check_not_empty_def validate_filters_def
      ww_partly_missing_def db_ex_def source_ex_def vst_wiring_def UUID_ex_def
      update_wirings_def ceil_div_def batched.simps Let_def fun_eq_iff)

text \<open>So the outcome at this input is not the error that the claim names, and the first
  wiring has been rewritten although the resolution failed.\<close>

theorem resolve_partly_missing_raises_ValueError_witness:
  "(\<nexists>msg ww'. resolve_virtual_structure_wirings UUID_ex db_ex ww_partly_missing
        = Raised (AdapterHandlingException msg) ww')
   \<and> adapter_id (input_wirings
         (final_state (resolve_virtual_structure_wirings UUID_ex db_ex ww_partly_missing)) ! 0)
       = ''sql-adapter''"
  using resolve_partly_missing_raises_ValueError by simp


text \<open>
  Where every reference of the input side is missing the error is the one the claim
  names, and the workflow wiring is untouched: the case of the test
  \<^verbatim>\<open>test_virtual_wiring_resolution_with_non_existent_source_or_sink_id\<close>.
\<close>

lemma resolve_missing_raises_AdapterHandlingException:
  "resolve_virtual_structure_wirings UUID_ex db_ex ww_missing =
     Raised (AdapterHandlingException
       (''Atleast one source or sink referenced in the wirings was not found ''
         @ ''in the structure service database, during the wiring resolution: ''
         @ ''No StructureServiceSources found for IDs ''
         @ ''[UUID('' @ [CHR 0x27] @ ''00000000-0000-0000-0000-000000000003'' @ [CHR 0x27] @ '')]''))
       ww_missing"
  by (simp add: resolve_virtual_structure_wirings_def
      get_enumerated_ids_of_vst_sources_or_sinks_def
      get_virtual_sources_and_sinks_from_structure_service_def
      fetch_collection_of_sources_from_db_by_id_def
      ww_missing_def db_ex_def source_ex_def vst_wiring_def UUID_ex_def
      ceil_div_def batched.simps Let_def
      list_repr_def UUID_repr_def UUID_str_def UUID_hex_def hexdigit_def upt_rec drop_bit_eq_div)

text \<open>
  Claim C4 (each rewritten wiring takes its values from the entry its \<open>ref_id\<close> names, also
  when two wirings reference the same entry). The fetched entries are a dict keyed by
  id, so two references to one entry give one value; the resolver pairs the indices with
  \<^verbatim>\<open>virtual_sources.values()\<close> by position under \<^verbatim>\<open>zip(..., strict=True)\<close>, rewrites the first
  wiring, and raises \<^verbatim>\<open>ValueError\<close> at the second, which keeps the virtual adapter id.
\<close>

theorem resolve_same_entry_twice_raises_ValueError:
  "resolve_virtual_structure_wirings UUID_ex db_ex ww_same_entry =
     Raised (ValueError ''zip() argument 2 is shorter than argument 1'')
       \<lparr>input_wirings =
          [\<lparr>workflow_name = ''first'', adapter_id = ''sql-adapter'', ref_id = ''sql_src_1'',
            ref_id_type = None, ref_key = None, type = ''timeseries(float)'',
            filters = [''timestampFrom'' \<mapsto> JStr ''2024-07-10T09:36:00.000000000Z'',
                       ''stage'' \<mapsto> JStr ''prod'']\<rparr>,
           vst_wiring ''second'' ''00000000-0000-0000-0000-000000000001''],
        output_wirings = []\<rparr>"
  by (simp add: resolve_virtual_structure_wirings_def
      get_enumerated_ids_of_vst_sources_or_sinks_def
      get_virtual_sources_and_sinks_from_structure_service_def
      fetch_collection_of_sources_from_db_by_id_def fetch_collection_of_sinks_from_db_by_id_def
      Source_from_orm_model_def check_not_empty_def validate_filters_def
      ww_same_entry_def db_ex_def source_ex_def vst_wiring_def UUID_ex_def
      update_wirings_def ceil_div_def batched.simps Let_def fun_eq_iff)

text \<open>So at this input the second wiring was not rewritten from the entry it references:
  it still carries the virtual adapter id.\<close>

theorem resolve_same_entry_twice_raises_ValueError_witness:
  "adapter_id (input_wirings
      (final_state (resolve_virtual_structure_wirings UUID_ex db_ex ww_same_entry)) ! 1)
     = ''virtual-structure-adapter''
   \<and> (\<nexists>ww'. resolve_virtual_structure_wirings UUID_ex db_ex ww_same_entry = Returned ww')"
  using resolve_same_entry_twice_raises_ValueError by (simp add: vst_wiring_def)


text \<open>
  The part of C4 that the code does satisfy: on a normal return, with at most 500
  virtual wirings in a list, each of them has been rewritten by \<^verbatim>\<open>update_wirings\<close> from the
  stored entry whose id is its \<open>ref_id\<close> (lemmas \<open>resolve_input_rewritten\<close> and
  \<open>resolve_output_rewritten\<close>), and \<^verbatim>\<open>update_wirings\<close> sets the fields as the claim lists
  them.
\<close>

lemma update_wirings_fields:
  "adapter_id (update_wirings w v) = sos_adapter_key v"
  "Wiring.type w = ''metadata(any)'' \<Longrightarrow>
     Wiring.ref_id (update_wirings w v) = sos_ref_id v \<and>
     Wiring.ref_key (update_wirings w v) = sos_ref_key v \<and>
     ref_id_type (update_wirings w v) = Some THINGNODE"
  "Wiring.type w \<noteq> ''metadata(any)'' \<Longrightarrow>
     Wiring.ref_id (update_wirings w (Source s)) = source_id s \<and>
     Wiring.ref_id (update_wirings w (Sink k)) = sink_id k \<and>
     Wiring.ref_key (update_wirings w v) = Wiring.ref_key w \<and>
     ref_id_type (update_wirings w v) = ref_id_type w"
  "workflow_name (update_wirings w v) = workflow_name w"
  "Wiring.type (update_wirings w v) = Wiring.type w"
  by (simp_all add: update_wirings_def Let_def)

section \<open>Browsing and the adapter frontend\<close>

lemma traverse_Inr:
  "traverse f xs = Inr ys \<Longrightarrow> list_all2 (\<lambda>x y. f x = Inr y) xs ys"
  by (induction xs arbitrary: ys) (auto split: sum.splits)

lemma traverse_total:
  "\<forall>x \<in> set xs. \<exists>y. f x = Inr y \<Longrightarrow> \<exists>ys. traverse f xs = Inr ys"
  by (induction xs) (auto split: sum.splits)

lemma traverse_id: "\<forall>x \<in> set xs. f x = Inr x \<Longrightarrow> traverse f xs = Inr xs"
  by (induction xs) auto

lemma traverse_set:
  assumes "traverse f xs = Inr ys"
  shows "y \<in> set ys \<longleftrightarrow> (\<exists>x \<in> set xs. f x = Inr y)"
proof -
  from traverse_Inr[OF assms] have l: "list_all2 (\<lambda>x y. f x = Inr y) xs ys" .
  show ?thesis
  proof
    assume "y \<in> set ys"
    then obtain n where "n < length ys" "ys ! n = y" by (auto simp: in_set_conv_nth)
    with l have "f (xs ! n) = Inr y" "n < length xs" by (auto simp: list_all2_conv_all_nth)
    then show "\<exists>x \<in> set xs. f x = Inr y" by (metis nth_mem)
  next
    assume "\<exists>x \<in> set xs. f x = Inr y"
    then obtain n where n: "n < length xs" "f (xs ! n) = Inr y" by (auto simp: in_set_conv_nth)
    with l have "f (xs ! n) = Inr (ys ! n)" "n < length ys" by (auto simp: list_all2_conv_all_nth)
    with n show "y \<in> set ys" by (metis nth_mem sum.inject(2))
  qed
qed

lemma filter_key_distinct:
  "distinct (map f xs) \<Longrightarrow> x \<in> set xs \<Longrightarrow> filter (\<lambda>r. f r = f x) xs = [x]"
proof (induction xs)
  case Nil
  then show ?case by simp
next
  case (Cons a xs)
  show ?case
  proof (cases "a = x")
    case True
    with Cons.prems have "\<forall>r \<in> set xs. f r \<noteq> f x" by (auto simp: image_iff)
    then have "filter (\<lambda>r. f r = f x) xs = []" by (simp add: filter_empty_conv)
    with True show ?thesis by simp
  next
    case False
    with Cons.prems have "x \<in> set xs" "f a \<noteq> f x" by (auto simp: image_iff)
    with Cons show ?thesis by simp
  qed
qed

lemma ThingNode_from_orm_model_valid:
  "check_not_empty r = [] \<Longrightarrow> ThingNode_from_orm_model r = Inr r"
  by (simp add: ThingNode_from_orm_model_def)

lemma Source_from_orm_model_valid:
  "check_not_empty r = [] \<Longrightarrow> \<exists>m. Source_from_orm_model r = Inr m"
  by (simp add: Source_from_orm_model_def)

lemma Sink_from_orm_model_valid:
  "check_not_empty r = [] \<Longrightarrow> \<exists>m. Sink_from_orm_model r = Inr m"
  by (simp add: Sink_from_orm_model_def)

text \<open>
  Claim C6 (\<^verbatim>\<open>get_children\<close>). On a catalog whose rows were written from validated
  models: without a parent id the result is the list of the thing nodes that have no
  \<open>parent_node_id\<close>, with empty lists of sources and sinks; for the id \<open>p\<close> of a stored
  thing node it is the list of the thing nodes whose \<open>parent_node_id\<close> is \<open>p\<close>, together
  with exactly the sources and exactly the sinks that an association row links to \<open>p\<close>.
  For an id \<open>p\<close> that no stored thing node has it fails with \<^verbatim>\<open>DBNotFoundError\<close>,
  whatever the rows look like.
\<close>

theorem get_children_cases:
  "(rows_validated db \<longrightarrow>
      get_children db None =
        Inr (filter (\<lambda>r. parent_node_id r = None) (structure_thing_node db), [], []))
   \<and> (rows_validated db \<and> p \<in> StructureServiceThingNode.id ` set (structure_thing_node db) \<longrightarrow>
      (\<exists>srcs snks.
         get_children db (Some p) =
           Inr (filter (\<lambda>r. parent_node_id r = Some p) (structure_thing_node db), srcs, snks)
         \<and> (\<forall>m. m \<in> set srcs \<longleftrightarrow>
               (\<exists>k. (p, k) \<in> structure_thingnode_source_association db
                    \<and> stored_source (structure_source db) k m))
         \<and> (\<forall>m. m \<in> set snks \<longleftrightarrow>
               (\<exists>k. (p, k) \<in> structure_thingnode_sink_association db
                    \<and> stored_sink (structure_sink db) k m))))
   \<and> (p \<notin> StructureServiceThingNode.id ` set (structure_thing_node db) \<longrightarrow>
      get_children db (Some p) =
        Inl (DBNotFoundError
          (''The prodived ID '' @ UUID_str p @ '' has no corresponding node in the database'')))"
proof (intro conjI impI)
  assume v: "rows_validated db"
  then have "\<forall>r \<in> set (filter (\<lambda>r. parent_node_id r = None) (structure_thing_node db)).
               ThingNode_from_orm_model r = Inr r"
    by (auto simp: rows_validated_def ThingNode_from_orm_model_valid)
  then show "get_children db None =
        Inr (filter (\<lambda>r. parent_node_id r = None) (structure_thing_node db), [], [])"
    by (simp add: get_children_def traverse_id)
next
  assume "p \<notin> StructureServiceThingNode.id ` set (structure_thing_node db)"
  then have "filter (\<lambda>r. StructureServiceThingNode.id r = p) (structure_thing_node db) = []"
    by (auto simp: filter_empty_conv)
  then show "get_children db (Some p) =
        Inl (DBNotFoundError
          (''The prodived ID '' @ UUID_str p @ '' has no corresponding node in the database''))"
    by (simp add: get_children_def)
next
  assume a: "rows_validated db \<and> p \<in> StructureServiceThingNode.id ` set (structure_thing_node db)"
  then obtain x where x: "x \<in> set (structure_thing_node db)" "StructureServiceThingNode.id x = p"
    by auto
  from a have d: "distinct (map StructureServiceThingNode.id (structure_thing_node db))"
    by (simp add: rows_validated_def)
  have one: "filter (\<lambda>r. StructureServiceThingNode.id r = p) (structure_thing_node db) = [x]"
    using filter_key_distinct[OF d x(1)] x(2) by simp
  let ?tns = "filter (\<lambda>r. parent_node_id r = Some p) (structure_thing_node db)"
  let ?so = "filter (\<lambda>s. (p, StructureServiceSource.id s)
                 \<in> structure_thingnode_source_association db) (structure_source db)"
  let ?sk = "filter (\<lambda>s. (p, StructureServiceSink.id s)
                 \<in> structure_thingnode_sink_association db) (structure_sink db)"
  have so_set: "set ?so = {s \<in> set (structure_source db).
                    (p, StructureServiceSource.id s) \<in> structure_thingnode_source_association db}"
    by auto
  have sk_set: "set ?sk = {s \<in> set (structure_sink db).
                    (p, StructureServiceSink.id s) \<in> structure_thingnode_sink_association db}"
    by auto
  have t1: "traverse ThingNode_from_orm_model ?tns = Inr ?tns"
    using a by (intro traverse_id) (auto simp: rows_validated_def ThingNode_from_orm_model_valid)
  have "\<forall>r \<in> set ?so. \<exists>m. Source_from_orm_model r = Inr m"
    using a unfolding so_set by (auto simp: rows_validated_def Source_from_orm_model_valid)
  then obtain srcs where t2: "traverse Source_from_orm_model ?so = Inr srcs"
    using traverse_total by blast
  have "\<forall>r \<in> set ?sk. \<exists>m. Sink_from_orm_model r = Inr m"
    using a unfolding sk_set by (auto simp: rows_validated_def Sink_from_orm_model_valid)
  then obtain snks where t3: "traverse Sink_from_orm_model ?sk = Inr snks"
    using traverse_total by blast
  have g: "get_children db (Some p) = Inr (?tns, srcs, snks)"
    using one t1 t2 t3 by (simp add: get_children_def)
  have s1: "m \<in> set srcs \<longleftrightarrow>
               (\<exists>k. (p, k) \<in> structure_thingnode_source_association db
                    \<and> stored_source (structure_source db) k m)" for m
    unfolding traverse_set[OF t2] so_set stored_source_def by auto
  have s2: "m \<in> set snks \<longleftrightarrow>
               (\<exists>k. (p, k) \<in> structure_thingnode_sink_association db
                    \<and> stored_sink (structure_sink db) k m)" for m
    unfolding traverse_set[OF t3] sk_set stored_sink_def by auto
  from g s1 s2 show "\<exists>srcs snks.
         get_children db (Some p) = Inr (?tns, srcs, snks)
         \<and> (\<forall>m. m \<in> set srcs \<longleftrightarrow>
               (\<exists>k. (p, k) \<in> structure_thingnode_source_association db
                    \<and> stored_source (structure_source db) k m))
         \<and> (\<forall>m. m \<in> set snks \<longleftrightarrow>
               (\<exists>k. (p, k) \<in> structure_thingnode_sink_association db
                    \<and> stored_sink (structure_sink db) k m))"
    by blast
qed

text \<open>The three cases on the example tree: the roots, the leaf \<open>11\<close> that carries the
  source and the sink, and the id \<open>99\<close> that is not stored.\<close>

theorem get_children_cases_witness:
  "rows_validated db_tree_ex
   \<and> 11 \<in> StructureServiceThingNode.id ` set (structure_thing_node db_tree_ex)
   \<and> 99 \<notin> StructureServiceThingNode.id ` set (structure_thing_node db_tree_ex)
   \<and> get_children db_tree_ex None = Inr ([node_root_ex], [], [])
   \<and> (\<exists>srcs snks. get_children db_tree_ex (Some 11) = Inr ([], srcs, snks)
         \<and> (\<forall>m. m \<in> set srcs \<longleftrightarrow> stored_source [source_ex] 1 m)
         \<and> (\<forall>m. m \<in> set snks \<longleftrightarrow> stored_sink [sink_ex] 2 m))
   \<and> (\<exists>msg. get_children db_tree_ex (Some 99) = Inl (DBNotFoundError msg))"
proof -
  have v: "rows_validated db_tree_ex"
    by (simp add: rows_validated_def db_tree_ex_def node_root_ex_def node_child_ex_def
        source_ex_def sink_ex_def check_not_empty_def)
  have m: "11 \<in> StructureServiceThingNode.id ` set (structure_thing_node db_tree_ex)"
    and n: "99 \<notin> StructureServiceThingNode.id ` set (structure_thing_node db_tree_ex)"
    by (simp_all add: db_tree_ex_def node_root_ex_def node_child_ex_def)
  from get_children_cases[of db_tree_ex 11] v m
  have a: "get_children db_tree_ex None = Inr ([node_root_ex], [], [])"
    and b: "\<exists>srcs snks. get_children db_tree_ex (Some 11) = Inr ([], srcs, snks)
         \<and> (\<forall>m. m \<in> set srcs \<longleftrightarrow> stored_source [source_ex] 1 m)
         \<and> (\<forall>m. m \<in> set snks \<longleftrightarrow> stored_sink [sink_ex] 2 m)"
    by (simp_all add: db_tree_ex_def node_root_ex_def node_child_ex_def)
  from get_children_cases[of db_tree_ex 99] n
  have c: "\<exists>msg. get_children db_tree_ex (Some 99) = Inl (DBNotFoundError msg)"
    by blast
  from v m n a b c show ?thesis by blast
qed

lemma fetch_single_source_id:
  assumes "fetch_single_source_from_db_by_id db i = Inr s"
  shows "StructureServiceSource.id s = i"
proof -
  let ?rows = "filter (\<lambda>r. StructureServiceSource.id r = i) (structure_source db)"
  from assms obtain row where row: "?rows = [row]" "Source_from_orm_model row = Inr s"
    unfolding fetch_single_source_from_db_by_id_def
    by (cases ?rows rule: one_or_none.cases) (auto split: sum.splits option.splits)
  from row(1) have "row \<in> set ?rows" by simp
  then have "StructureServiceSource.id row = i" by simp
  with Source_from_orm_model_id[OF row(2)] show ?thesis by simp
qed

lemma get_single_source_dto:
  assumes "get_single_source db i = Inr (Some d)"
  shows "VirtualStructureAdapterSource.thingNodeId d = VirtualStructureAdapterSource.id d
        \<and> VirtualStructureAdapterSource.id d = i"
proof -
  from assms obtain s where s: "fetch_single_source_from_db_by_id db i = Inr s"
    "d = from_structure_service_source s"
    unfolding get_single_source_def by (auto split: sum.splits error.splits)
  from fetch_single_source_id[OF s(1)] s(2) show ?thesis
    by (simp add: from_structure_service_source_def)
qed

lemma get_filtered_sources_dto:
  assumes "get_filtered_sources ilike db fs = Inr ds"
  shows "\<forall>d \<in> set ds. VirtualStructureAdapterSource.thingNodeId d
                          = VirtualStructureAdapterSource.id d"
proof (cases fs)
  case None
  with assms show ?thesis by (simp add: get_filtered_sources_def)
next
  case (Some f)
  with assms obtain ss where "ds = map from_structure_service_source ss"
    unfolding get_filtered_sources_def by (auto split: sum.splits)
  then show ?thesis by (simp add: from_structure_service_source_def)
qed

lemma fetch_single_sink_id:
  assumes "fetch_single_sink_from_db_by_id db i = Inr s"
  shows "StructureServiceSink.id s = i"
proof -
  let ?rows = "filter (\<lambda>r. StructureServiceSink.id r = i) (structure_sink db)"
  from assms obtain row where row: "?rows = [row]" "Sink_from_orm_model row = Inr s"
    unfolding fetch_single_sink_from_db_by_id_def
    by (cases ?rows rule: one_or_none.cases) (auto split: sum.splits option.splits)
  from row(1) have "row \<in> set ?rows" by simp
  then have "StructureServiceSink.id row = i" by simp
  with Sink_from_orm_model_id[OF row(2)] show ?thesis by simp
qed

lemma get_single_sink_dto:
  assumes "get_single_sink db i = Inr (Some d)"
  shows "VirtualStructureAdapterSink.thingNodeId d = VirtualStructureAdapterSink.id d
        \<and> VirtualStructureAdapterSink.id d = i"
proof -
  from assms obtain s where s: "fetch_single_sink_from_db_by_id db i = Inr s"
    "d = from_structure_service_sink s"
    unfolding get_single_sink_def by (auto split: sum.splits error.splits)
  from fetch_single_sink_id[OF s(1)] s(2) show ?thesis
    by (simp add: from_structure_service_sink_def)
qed

lemma get_filtered_sinks_dto:
  assumes "get_filtered_sinks ilike db fs = Inr ds"
  shows "\<forall>d \<in> set ds. VirtualStructureAdapterSink.thingNodeId d
                          = VirtualStructureAdapterSink.id d"
proof (cases fs)
  case None
  with assms show ?thesis by (simp add: get_filtered_sinks_def)
next
  case (Some f)
  with assms obtain ss where "ds = map from_structure_service_sink ss"
    unfolding get_filtered_sinks_def by (auto split: sum.splits)
  then show ?thesis by (simp add: from_structure_service_sink_def)
qed

lemma get_children_from_structure_service_dto:
  assumes "get_children_from_structure_service db p = Inr (ns, ds, es)"
  shows "(\<forall>d \<in> set ds. VirtualStructureAdapterSource.thingNodeId d
                          = VirtualStructureAdapterSource.id d)
        \<and> (\<forall>e \<in> set es. VirtualStructureAdapterSink.thingNodeId e
                          = VirtualStructureAdapterSink.id e)"
proof -
  from assms obtain ss ks where "ds = map from_structure_service_source ss"
    "es = map from_structure_service_sink ks"
    unfolding get_children_from_structure_service_def by (auto split: sum.splits prod.splits)
  then show ?thesis
    by (simp add: from_structure_service_source_def from_structure_service_sink_def)
qed

lemma get_structure_dto:
  assumes "get_structure db p = Inr resp"
  shows "(\<forall>d \<in> set (VirtualStructureAdapterResponse.sources resp). VirtualStructureAdapterSource.thingNodeId d
                          = VirtualStructureAdapterSource.id d)
        \<and> (\<forall>e \<in> set (VirtualStructureAdapterResponse.sinks resp). VirtualStructureAdapterSink.thingNodeId e
                          = VirtualStructureAdapterSink.id e)"
proof -
  from assms obtain ns ds es where g: "get_children_from_structure_service db p = Inr (ns, ds, es)"
    and r: "VirtualStructureAdapterResponse.sources resp = ds" "VirtualStructureAdapterResponse.sinks resp = es"
    unfolding get_structure_def by (auto split: sum.splits error.splits prod.splits)
  from get_children_from_structure_service_dto[OF g] r show ?thesis by simp
qed

text \<open>
  Claim C10 (\<open>thingNodeId\<close> of a source or sink DTO). The two constructors set
  \<open>thingNodeId\<close> to the id of the source or sink itself, so in every DTO that the
  per-entity lookup, the substring search and the browsing of the structure hand out,
  \<open>thingNodeId\<close> equals \<open>id\<close>. It is the id of the stored entry, not the id of a thing
  node: in the example below the source with id 1 hangs on the thing node 11 and its DTO
  has \<open>thingNodeId = 1\<close>.
\<close>

theorem dto_thingNodeId_is_own_id:
  "VirtualStructureAdapterSource.thingNodeId (from_structure_service_source source)
      = StructureServiceSource.id source
   \<and> VirtualStructureAdapterSource.id (from_structure_service_source source)
      = StructureServiceSource.id source
   \<and> VirtualStructureAdapterSink.thingNodeId (from_structure_service_sink sink)
      = StructureServiceSink.id sink
   \<and> VirtualStructureAdapterSink.id (from_structure_service_sink sink)
      = StructureServiceSink.id sink
   \<and> (get_single_source db i = Inr (Some d) \<longrightarrow>
        VirtualStructureAdapterSource.thingNodeId d = VirtualStructureAdapterSource.id d
        \<and> VirtualStructureAdapterSource.id d = i)
   \<and> (get_single_sink db i = Inr (Some e) \<longrightarrow>
        VirtualStructureAdapterSink.thingNodeId e = VirtualStructureAdapterSink.id e
        \<and> VirtualStructureAdapterSink.id e = i)
   \<and> (get_filtered_sources ilike db fs = Inr ds \<longrightarrow>
        (\<forall>d \<in> set ds. VirtualStructureAdapterSource.thingNodeId d
                          = VirtualStructureAdapterSource.id d))
   \<and> (get_filtered_sinks ilike db fs = Inr es \<longrightarrow>
        (\<forall>e \<in> set es. VirtualStructureAdapterSink.thingNodeId e
                          = VirtualStructureAdapterSink.id e))
   \<and> (get_children_from_structure_service db p = Inr (ns, ds', es') \<longrightarrow>
        (\<forall>d \<in> set ds'. VirtualStructureAdapterSource.thingNodeId d
                          = VirtualStructureAdapterSource.id d)
        \<and> (\<forall>e \<in> set es'. VirtualStructureAdapterSink.thingNodeId e
                          = VirtualStructureAdapterSink.id e))
   \<and> (get_structure db p = Inr resp \<longrightarrow>
        (\<forall>d \<in> set (VirtualStructureAdapterResponse.sources resp). VirtualStructureAdapterSource.thingNodeId d
                          = VirtualStructureAdapterSource.id d)
        \<and> (\<forall>e \<in> set (VirtualStructureAdapterResponse.sinks resp). VirtualStructureAdapterSink.thingNodeId e
                          = VirtualStructureAdapterSink.id e))"
proof (intro conjI impI)
  show "VirtualStructureAdapterSource.thingNodeId (from_structure_service_source source)
      = StructureServiceSource.id source"
    "VirtualStructureAdapterSource.id (from_structure_service_source source)
      = StructureServiceSource.id source"
    by (simp_all add: from_structure_service_source_def)
  show "VirtualStructureAdapterSink.thingNodeId (from_structure_service_sink sink)
      = StructureServiceSink.id sink"
    "VirtualStructureAdapterSink.id (from_structure_service_sink sink)
      = StructureServiceSink.id sink"
    by (simp_all add: from_structure_service_sink_def)
next
  assume "get_single_source db i = Inr (Some d)"
  from get_single_source_dto[OF this]
  show "VirtualStructureAdapterSource.thingNodeId d = VirtualStructureAdapterSource.id d"
    "VirtualStructureAdapterSource.id d = i" by simp_all
next
  assume "get_single_sink db i = Inr (Some e)"
  from get_single_sink_dto[OF this]
  show "VirtualStructureAdapterSink.thingNodeId e = VirtualStructureAdapterSink.id e"
    "VirtualStructureAdapterSink.id e = i" by simp_all
next
  assume "get_filtered_sources ilike db fs = Inr ds"
  then show "\<forall>d \<in> set ds. VirtualStructureAdapterSource.thingNodeId d
                          = VirtualStructureAdapterSource.id d"
    by (rule get_filtered_sources_dto)
next
  assume "get_filtered_sinks ilike db fs = Inr es"
  then show "\<forall>e \<in> set es. VirtualStructureAdapterSink.thingNodeId e
                          = VirtualStructureAdapterSink.id e"
    by (rule get_filtered_sinks_dto)
next
  assume "get_children_from_structure_service db p = Inr (ns, ds', es')"
  from get_children_from_structure_service_dto[OF this]
  show "\<forall>d \<in> set ds'. VirtualStructureAdapterSource.thingNodeId d
                          = VirtualStructureAdapterSource.id d"
    "\<forall>e \<in> set es'. VirtualStructureAdapterSink.thingNodeId e
                          = VirtualStructureAdapterSink.id e" by simp_all
next
  assume "get_structure db p = Inr resp"
  from get_structure_dto[OF this]
  show "\<forall>d \<in> set (VirtualStructureAdapterResponse.sources resp). VirtualStructureAdapterSource.thingNodeId d
                          = VirtualStructureAdapterSource.id d"
    "\<forall>e \<in> set (VirtualStructureAdapterResponse.sinks resp). VirtualStructureAdapterSink.thingNodeId e
                          = VirtualStructureAdapterSink.id e" by simp_all
qed

text \<open>On the example tree: the lookup of the source 1, and the browsing of the thing
  node 11 to which the source and the sink are attached.\<close>

theorem dto_thingNodeId_is_own_id_witness:
  "\<exists>d ns ds es.
     get_single_source db_tree_ex 1 = Inr (Some d)
     \<and> VirtualStructureAdapterSource.thingNodeId d = 1
     \<and> get_children_from_structure_service db_tree_ex (Some 11) = Inr (ns, ds, es)
     \<and> map VirtualStructureAdapterSource.thingNodeId ds = [1]
     \<and> map VirtualStructureAdapterSink.thingNodeId es = [2]
     \<and> (\<forall>d \<in> set ds. VirtualStructureAdapterSource.thingNodeId d
                         = VirtualStructureAdapterSource.id d)
     \<and> (\<forall>e \<in> set es. VirtualStructureAdapterSink.thingNodeId e
                         = VirtualStructureAdapterSink.id e)"
proof -
  obtain d where d: "get_single_source db_tree_ex 1 = Inr (Some d)"
    by (simp add: get_single_source_def fetch_single_source_from_db_by_id_def db_tree_ex_def
        source_ex_def Source_from_orm_model_def check_not_empty_def)
  obtain ns ds es where g: "get_children_from_structure_service db_tree_ex (Some 11) = Inr (ns, ds, es)"
    and m: "map VirtualStructureAdapterSource.thingNodeId ds = [1]"
      "map VirtualStructureAdapterSink.thingNodeId es = [2]"
    by (simp add: get_children_from_structure_service_def get_children_def db_tree_ex_def
        node_root_ex_def node_child_ex_def source_ex_def sink_ex_def
        Source_from_orm_model_def Sink_from_orm_model_def ThingNode_from_orm_model_def
        check_not_empty_def from_structure_service_source_def from_structure_service_sink_def)
  from dto_thingNodeId_is_own_id[of _ _ db_tree_ex 1 d _ _ _ _ _ "Some 11" ns ds es] d g
  have "VirtualStructureAdapterSource.thingNodeId d = 1"
    "\<forall>d \<in> set ds. VirtualStructureAdapterSource.thingNodeId d
                         = VirtualStructureAdapterSource.id d"
    "\<forall>e \<in> set es. VirtualStructureAdapterSink.thingNodeId e
                         = VirtualStructureAdapterSink.id e"
    by simp_all
  with d g m show ?thesis
    by (intro exI[of _ d] exI[of _ ns] exI[of _ ds] exI[of _ es]) simp
qed

section \<open>Validation of the document: circular references\<close>

text \<open>
  Claim C7 (a document with a cycle in the parent relation is rejected with "Circular
  reference detected" and never reaches the persistence layer).
  \<^verbatim>\<open>check_for_circular_reference\<close> follows the parent references through a dict that
  is keyed by the external id alone, whereas a node is identified by its stakeholder
  key and its external id, and \<^verbatim>\<open>set_parent_ids\<close> and \<^verbatim>\<open>update_parent_ids\<close> resolve a
  parent by both. In \<open>cyclic_doc\<close> the nodes \<open>X\<close> and \<open>Y\<close> of stakeholder \<open>A\<close> are each
  other's parent, and nodes of stakeholder \<open>B\<close> with the same external ids hide them
  from the walk. Every validator accepts the document.
\<close>

lemma cyclic_fields:
  "validate_fields cyclic_doc =
     ([], \<lparr>element_types_value = Some (element_types cyclic_doc),
           thing_nodes_value = Some (thing_nodes cyclic_doc),
           sources_value = Some [], sinks_value = Some []\<rparr>)"
  by (simp add: validate_fields_def cyclic_doc_def tn_def et_def validate_common_def
      check_not_empty_def check_element_types_not_empty_def)

lemma cyclic_parents:
  "validate_root_nodes_parent_ids_are_none
     \<lparr>element_types_value = Some (element_types cyclic_doc),
      thing_nodes_value = Some (thing_nodes cyclic_doc),
      sources_value = Some [], sinks_value = Some []\<rparr> = None"
  by (simp add: validate_root_nodes_parent_ids_are_none_def get_or_empty_def cyclic_doc_def tn_def)

lemma cyclic_pairs:
  "check_for_duplicate_key_and_id_pairs
     \<lparr>element_types_value = Some (element_types cyclic_doc),
      thing_nodes_value = Some (thing_nodes cyclic_doc),
      sources_value = Some [], sinks_value = Some []\<rparr> = None"
  by (simp add: check_for_duplicate_key_and_id_pairs_def duplicate_pair_message_def
      key_id_pair_def cyclic_doc_def tn_def et_def)

lemma cyclic_ids:
  "check_for_duplicate_ids_in_thing_node_external_ids
     \<lparr>element_types_value = Some (element_types cyclic_doc),
      thing_nodes_value = Some (thing_nodes cyclic_doc),
      sources_value = Some [], sinks_value = Some []\<rparr> = None"
  by (simp add: check_for_duplicate_ids_in_thing_node_external_ids_def get_or_empty_def)

lemma cyclic_stakeholder:
  "check_stakeholder_key_consistency
     \<lparr>element_types_value = Some (element_types cyclic_doc),
      thing_nodes_value = Some (thing_nodes cyclic_doc),
      sources_value = Some [], sinks_value = Some []\<rparr> = None"
  by (simp add: check_stakeholder_key_consistency_def get_or_empty_def cyclic_doc_def tn_def)

lemma cyclic_circular:
  "check_for_circular_reference
     \<lparr>element_types_value = Some (element_types cyclic_doc),
      thing_nodes_value = Some (thing_nodes cyclic_doc),
      sources_value = Some [], sinks_value = Some []\<rparr> = None"
  by (simp add: check_for_circular_reference_def get_or_empty_def cyclic_doc_def tn_def
      visit.simps nodes_by_external_id_def)

lemma cyclic_refs:
  "validate_source_sink_references
     \<lparr>element_types_value = Some (element_types cyclic_doc),
      thing_nodes_value = Some (thing_nodes cyclic_doc),
      sources_value = Some [], sinks_value = Some []\<rparr> = None"
  by (simp add: validate_source_sink_references_def get_or_empty_def)

theorem cyclic_doc_passes_validation:
  "validate_CompleteStructure cyclic_doc = Inr cyclic_doc"
  by (simp add: validate_CompleteStructure_def cyclic_fields root_validator_messages_def
      cyclic_parents cyclic_pairs cyclic_ids cyclic_stakeholder cyclic_circular cyclic_refs
      get_or_empty_def) (simp add: cyclic_doc_def)


text \<open>So no \<^verbatim>\<open>ValidationError\<close> is raised for the document, in which the third and the
  fifth node belong to one stakeholder and name each other as parent.\<close>

theorem cyclic_doc_passes_validation_witness:
  "(\<nexists>msgs. validate_CompleteStructure cyclic_doc = Inl (ValidationError msgs))
   \<and> stakeholder_key (thing_nodes cyclic_doc ! 2) = stakeholder_key (thing_nodes cyclic_doc ! 4)
   \<and> parent_external_node_id (thing_nodes cyclic_doc ! 2)
        = Some (external_id (thing_nodes cyclic_doc ! 4))
   \<and> parent_external_node_id (thing_nodes cyclic_doc ! 4)
        = Some (external_id (thing_nodes cyclic_doc ! 2))
   \<and> parent_of (thing_nodes cyclic_doc) (thing_nodes cyclic_doc ! 2)
        = Some (thing_nodes cyclic_doc ! 4)
   \<and> parent_of (thing_nodes cyclic_doc) (thing_nodes cyclic_doc ! 4)
        = Some (thing_nodes cyclic_doc ! 2)"
  using cyclic_doc_passes_validation
  by (simp add: cyclic_doc_def tn_def parent_of_def thing_node_map_def)

text \<open>
  What the validator does achieve. A cycle in the chain of parents as the validator
  resolves it (by external id, the last node of an id) is always reported, provided the
  thing nodes pass the validation of their fields; where no two thing nodes share an
  external id this is every cycle of the parent relation. The document of the two
  nodes alone is rejected with the message of the claim.
\<close>

lemma visit_message:
  "visit nodes V n = Some msg \<Longrightarrow> \<exists>e. msg = ''Circular reference detected in node '' @ e"
proof (induction nodes V n rule: visit.induct)
  case (1 nodes V n)
  show ?case
  proof (cases "external_id n \<in> V")
    case True
    with "1.prems" have "msg = ''Circular reference detected in node '' @ external_id n"
      by (simp add: visit.simps[of nodes V n])
    then show ?thesis by blast
  next
    case False
    with "1.prems" obtain p m where p: "parent_external_node_id n = Some p" "p \<noteq> []"
      "nodes_by_external_id nodes p = Some m"
      "visit nodes (insert (external_id n) V) m = Some msg"
      by (auto simp: visit.simps[of nodes V n] split: option.splits if_splits)
    from "1.IH"[OF False p(1) p(2) p(3) p(4)] show ?thesis .
  qed
qed

lemma visit_endless_chain:
  "(\<forall>k. parent_chain nodes k n \<noteq> None) \<Longrightarrow> visit nodes V n \<noteq> None"
proof (induction nodes V n rule: visit.induct)
  case (1 nodes V n)
  show ?case
  proof (cases "external_id n \<in> V")
    case True
    then show ?thesis by (simp add: visit.simps[of nodes V n])
  next
    case False
    from "1.prems" have "parent_chain nodes (Suc 0) n \<noteq> None" by blast
    then obtain p m where p: "parent_external_node_id n = Some p" "p \<noteq> []"
      "nodes_by_external_id nodes p = Some m"
      by (auto split: option.splits if_splits)
    have "\<forall>k. parent_chain nodes k m \<noteq> None"
    proof
      fix k
      from "1.prems" have "parent_chain nodes (Suc k) n \<noteq> None" by blast
      with p show "parent_chain nodes k m \<noteq> None" by simp
    qed
    from "1.IH"[OF False p(1) p(2) p(3) this] False p show ?thesis
      by (simp add: visit.simps[of nodes V n])
  qed
qed

lemma parent_chain_add:
  "parent_chain nodes (a + b) n =
     (case parent_chain nodes a n of None \<Rightarrow> None | Some m \<Rightarrow> parent_chain nodes b m)"
  by (induction a arbitrary: n) (auto split: option.splits)

lemma parent_chain_cycle_endless:
  assumes c: "parent_chain nodes k n = Some n" and k: "0 < k"
  shows "parent_chain nodes j n \<noteq> None"
proof (induction j rule: less_induct)
  case (less j)
  show ?case
  proof (cases "j < k")
    case True
    then have "k = j + (k - j)" by simp
    then have "parent_chain nodes k n =
        (case parent_chain nodes j n of None \<Rightarrow> None | Some m \<Rightarrow> parent_chain nodes (k - j) m)"
      using parent_chain_add[of nodes j "k - j" n] by simp
    with c show ?thesis by (auto split: option.splits)
  next
    case False
    then have "j = k + (j - k)" by simp
    then have "parent_chain nodes j n = parent_chain nodes (j - k) n"
      using parent_chain_add[of nodes k "j - k" n] c by simp
    moreover have "j - k < j" using False k by simp
    ultimately show ?thesis using less by simp
  qed
qed

lemma first_message_Some:
  "m \<in> set ms \<Longrightarrow> m \<noteq> None \<Longrightarrow> \<exists>x \<in> set ms. x \<noteq> None \<and> first_message ms = x"
  by (induction ms rule: first_message.induct) auto

lemma validate_items_all_valid:
  "\<forall>x \<in> set xs. f x = Inr x \<Longrightarrow> validate_items f xs = ([], xs)"
  by (induction xs) auto

lemma circular_reference_detected:
  assumes n: "n \<in> set (thing_nodes cs)"
    and cyc: "parent_chain (thing_nodes cs) k n = Some n" "0 < k"
    and valid: "\<forall>m \<in> set (thing_nodes cs). check_not_empty m = []"
  shows "\<exists>msgs e. validate_CompleteStructure cs = Inl (ValidationError msgs)
           \<and> (''Circular reference detected in node '' @ e) \<in> set msgs"
proof -
  obtain fm vals where fv: "validate_fields cs = (fm, vals)" by force
  have "validate_items validate_common (thing_nodes cs) = ([], thing_nodes cs)"
    using valid by (intro validate_items_all_valid) (simp add: validate_common_def)
  with fv have tv: "thing_nodes_value vals = Some (thing_nodes cs)"
    by (auto simp: validate_fields_def Let_def split: prod.splits)
  have "visit (thing_nodes cs) {} n \<noteq> None"
    using parent_chain_cycle_endless[OF cyc] by (intro visit_endless_chain) simp
  with n have "\<exists>x \<in> set (map (visit (thing_nodes cs) {}) (thing_nodes cs)).
      x \<noteq> None \<and> first_message (map (visit (thing_nodes cs) {}) (thing_nodes cs)) = x"
    by (intro first_message_Some[of "visit (thing_nodes cs) {} n"]) auto
  then obtain n' msg where "visit (thing_nodes cs) {} n' = Some msg"
    "check_for_circular_reference vals = Some msg"
    using tv by (auto simp: check_for_circular_reference_def get_or_empty_def)
  moreover from this(1) obtain e where "msg = ''Circular reference detected in node '' @ e"
    using visit_message by blast
  ultimately have c: "check_for_circular_reference vals
      = Some (''Circular reference detected in node '' @ e)" by simp
  then have "(''Circular reference detected in node '' @ e) \<in> set (root_validator_messages vals)"
    by (simp add: root_validator_messages_def)
  then have "(''Circular reference detected in node '' @ e)
      \<in> set (fm @ root_validator_messages vals)" by simp
  then show ?thesis
    using fv by (cases "fm @ root_validator_messages vals")
      (auto simp: validate_CompleteStructure_def)
qed

lemma two_cycle_doc_rejected:
  "validate_CompleteStructure two_cycle_doc =
     Inl (ValidationError [''Circular reference detected in node X''])"
  by (simp add: validate_CompleteStructure_def validate_fields_def two_cycle_doc_def tn_def et_def
      validate_common_def check_not_empty_def check_element_types_not_empty_def
      root_validator_messages_def validate_root_nodes_parent_ids_are_none_def get_or_empty_def
      check_for_duplicate_key_and_id_pairs_def duplicate_pair_message_def key_id_pair_def
      check_for_duplicate_ids_in_thing_node_external_ids_def
      check_stakeholder_key_consistency_def check_for_circular_reference_def
      visit.simps nodes_by_external_id_def validate_source_sink_references_def)

section \<open>The maintenance endpoint\<close>

lemma doc_ex_valid: "validate_CompleteStructure doc_ex = Inr doc_ex"
proof -
  have f: "validate_fields doc_ex =
     ([], \<lparr>element_types_value = Some [element_type_ex],
           thing_nodes_value = Some [node_root_ex, node_child_ex],
           sources_value = Some [source_ex], sinks_value = Some [sink_ex]\<rparr>)"
    by (simp add: validate_fields_def doc_ex_def validate_common_def validate_source_def
        validate_sink_def check_not_empty_def check_element_types_not_empty_def
        passthrough_filters_no_duplicate_keys_def validate_filters_def
        element_type_ex_def node_root_ex_def node_child_ex_def source_ex_def sink_ex_def
        fun_eq_iff)
  have r: "root_validator_messages
      \<lparr>element_types_value = Some [element_type_ex],
       thing_nodes_value = Some [node_root_ex, node_child_ex],
       sources_value = Some [source_ex], sinks_value = Some [sink_ex]\<rparr> = []"
    by (simp add: root_validator_messages_def validate_root_nodes_parent_ids_are_none_def
        get_or_empty_def check_for_duplicate_key_and_id_pairs_def duplicate_pair_message_def
        key_id_pair_def check_for_duplicate_ids_in_thing_node_external_ids_def
        duplicate_thing_node_id_message_def check_stakeholder_key_consistency_def
        check_for_circular_reference_def visit.simps nodes_by_external_id_def
        validate_source_sink_references_def missing_reference_message_def
        element_type_ex_def node_root_ex_def node_child_ex_def source_ex_def sink_ex_def)
  show ?thesis
    by (simp add: validate_CompleteStructure_def f r get_or_empty_def) (simp add: doc_ex_def)
qed

text \<open>
  Claim C8 (403 if and only if the presented secret differs from the configured one; no
  change of the database then). As stated the equivalence fails: the framework
  validates the body before the handler compares the secrets, so a request with a
  wrong secret and an invalid document is answered 422.
\<close>

theorem maintenance_wrong_secret_invalid_body_422:
  "''nf'' \<noteq> ''testsecret''
   \<and> put_structure_update ''sqlite'' (Some ''testsecret'') ''nf'' body_without_element_types
        True db_tree_ex = Some (422, db_tree_ex)"
  by (simp add: put_structure_update_def validate_CompleteStructure_def validate_fields_def
      body_without_element_types_def check_element_types_not_empty_def)

text \<open>
  The claim as amended: for a request whose body passes the validation, and for secrets
  that are ASCII strings, the response is 403 exactly when the presented secret differs
  from the configured one; the response is then produced before \<^verbatim>\<open>delete_structure\<close> or
  \<^verbatim>\<open>update_structure\<close> could run, and the database is the one before the request.
\<close>

theorem maintenance_403_iff_for_valid_body:
  assumes "validate_CompleteStructure body = Inr new_structure"
    and "is_ascii secret_str" and "is_ascii configured"
  shows "(secret_str \<noteq> configured \<longrightarrow>
            put_structure_update engine (Some configured) secret_str body delete_existing db
              = Some (403, db))
       \<and> (secret_str = configured \<longrightarrow>
            (\<forall>db'. put_structure_update engine (Some configured) secret_str body delete_existing db
              \<noteq> Some (403, db')))"
  using assms
  by (auto simp: put_structure_update_def update_structure_endpoint_def compare_digest_def
      split: option.splits outcome.splits error.splits prod.splits)

theorem maintenance_403_iff_for_valid_body_witness:
  "validate_CompleteStructure doc_ex = Inr doc_ex
   \<and> is_ascii ''nf'' \<and> is_ascii ''testsecret'' \<and> ''nf'' \<noteq> ''testsecret''
   \<and> put_structure_update ''sqlite'' (Some ''testsecret'') ''nf'' doc_ex True db_tree_ex
        = Some (403, db_tree_ex)"
proof -
  have a: "is_ascii ''nf''" "is_ascii ''testsecret''" by (simp_all add: is_ascii_def)
  from maintenance_403_iff_for_valid_body[OF doc_ex_valid a, of "''sqlite''" True db_tree_ex]
  have "put_structure_update ''sqlite'' (Some ''testsecret'') ''nf'' doc_ex True db_tree_ex
        = Some (403, db_tree_ex)" by simp
  with doc_ex_valid a show ?thesis by simp
qed

text \<open>
  The amended claim says nothing about secrets outside ASCII. There
  \<^verbatim>\<open>compare_digest\<close> raises \<^verbatim>\<open>TypeError\<close>, which the handler does not catch: a secret
  with the two bytes of the letter a-umlaut is answered 500, and the database is
  untouched.
\<close>

lemma maintenance_non_ascii_secret_500:
  "put_structure_update ''sqlite'' (Some ''testsecret'') [CHR 0xC3, CHR 0xA4] doc_ex True db_tree_ex
     = Some (500, db_tree_ex)"
  by (simp add: put_structure_update_def doc_ex_valid update_structure_endpoint_def
      compare_digest_def is_ascii_def)

section \<open>The order of the flattened thing nodes\<close>


lemma with_parent_id_fields [simp]:
  "external_id (with_parent_id nodes n) = external_id n"
  "stakeholder_key (with_parent_id nodes n) = stakeholder_key n"
  "StructureServiceThingNode.id (with_parent_id nodes n) = StructureServiceThingNode.id n"
  "parent_external_node_id (with_parent_id nodes n) = parent_external_node_id n"
  by (simp_all add: with_parent_id_def split: option.splits)

lemma parent_of_with_parent_id [simp]:
  "parent_of nodes (with_parent_id nodes' n) = parent_of nodes n"
  by (simp add: parent_of_def split: option.splits)

lemma at_depth_with_parent_id [simp]:
  "at_depth nodes k (with_parent_id nodes' n) = at_depth nodes k n"
  by (cases k) simp_all

lemma nth_parent_with_parent_id:
  "nth_parent nodes (Suc k) (with_parent_id nodes' n) = nth_parent nodes (Suc k) n"
  by simp

lemma parent_of_in_nodes: "parent_of nodes n = Some p \<Longrightarrow> p \<in> set nodes"
  by (auto simp: parent_of_def thing_node_map_def split: option.splits if_splits dest!: map_of_SomeD)

lemma at_depth_unique: "at_depth nodes a n \<Longrightarrow> at_depth nodes b n \<Longrightarrow> a = b"
proof (induction a arbitrary: b n)
  case 0
  then show ?case by (cases b) (auto simp: parent_of_def)
next
  case (Suc a)
  then show ?case by (cases b) (auto simp: parent_of_def split: option.splits if_splits)
qed

lemma at_depth_nth_parent:
  "at_depth nodes d c \<Longrightarrow> nth_parent nodes m c = Some a \<Longrightarrow> m \<le> d \<and> at_depth nodes (d - m) a"
proof (induction m arbitrary: d c)
  case 0
  then show ?case by simp
next
  case (Suc m)
  then show ?case by (cases d) (auto simp: parent_of_def split: option.splits if_splits)
qed

lemma nth_parent_in_nodes: "nth_parent nodes (Suc k) n = Some a \<Longrightarrow> a \<in> set nodes"
proof (induction k arbitrary: n)
  case 0
  then show ?case by (auto split: option.splits dest: parent_of_in_nodes)
next
  case (Suc k)
  from Suc.prems obtain p where "parent_of nodes n = Some p" "nth_parent nodes (Suc k) p = Some a"
    by (auto split: option.splits)
  then show ?case using Suc.IH by blast
qed

lemma fst_set_parent_ids: "fst (set_parent_ids nodes) = map (with_parent_id nodes) nodes"
  by (simp add: set_parent_ids_def Let_def)

lemma children_set:
  "set (snd (set_parent_ids nodes) pid) =
     {c \<in> set (map (with_parent_id nodes) nodes).
        \<exists>p. parent_of nodes c = Some p \<and> StructureServiceThingNode.id p = pid}"
  by (auto simp: set_parent_ids_def Let_def split: option.splits)

lemma same_id_same_node:
  "distinct (map StructureServiceThingNode.id nodes) \<Longrightarrow> x \<in> set nodes \<Longrightarrow> y \<in> set nodes \<Longrightarrow>
   StructureServiceThingNode.id x = StructureServiceThingNode.id y \<Longrightarrow> x = y"
  by (meson distinct_map inj_onD)

lemma level_sound:
  assumes d: "distinct (map StructureServiceThingNode.id nodes)"
  shows "m \<in> set (level nodes k) \<Longrightarrow>
           m \<in> set (map (with_parent_id nodes) nodes) \<and> at_depth nodes k m"
proof (induction k arbitrary: m)
  case 0
  then show ?case by (auto simp: fst_set_parent_ids)
next
  case (Suc k)
  from Suc.prems obtain q where q: "q \<in> set (level nodes k)"
    and m: "m \<in> set (snd (set_parent_ids nodes) (StructureServiceThingNode.id q))"
    by (auto simp: next_level_def)
  from m obtain p where mN: "m \<in> set (map (with_parent_id nodes) nodes)"
    and p: "parent_of nodes m = Some p" "StructureServiceThingNode.id p = StructureServiceThingNode.id q"
    unfolding children_set by blast
  from Suc.IH[OF q] obtain q0 where q0: "q0 \<in> set nodes" "q = with_parent_id nodes q0"
    and dq: "at_depth nodes k q" by auto
  from p(1) have "p \<in> set nodes" by (rule parent_of_in_nodes)
  with q0 p(2) have "p = q0" using same_id_same_node[OF d] by simp
  with dq q0 have "at_depth nodes k p" by simp
  with p(1) mN show ?case by simp
qed

lemma level_complete:
  "m \<in> set (map (with_parent_id nodes) nodes) \<Longrightarrow> at_depth nodes k m \<Longrightarrow> m \<in> set (level nodes k)"
proof (induction k arbitrary: m)
  case 0
  then show ?case by (auto simp: fst_set_parent_ids)
next
  case (Suc k)
  from Suc.prems(2) obtain p where p: "parent_of nodes m = Some p" "at_depth nodes k p"
    by (auto split: option.splits)
  from p(1) have "p \<in> set nodes" by (rule parent_of_in_nodes)
  then have "with_parent_id nodes p \<in> set (map (with_parent_id nodes) nodes)" by simp
  moreover have "at_depth nodes k (with_parent_id nodes p)" using p(2) by simp
  ultimately have q: "with_parent_id nodes p \<in> set (level nodes k)" by (rule Suc.IH)
  have "m \<in> set (snd (set_parent_ids nodes) (StructureServiceThingNode.id (with_parent_id nodes p)))"
    unfolding children_set using Suc.prems(1) p(1) by simp
  with q show ?case
    unfolding level.simps next_level_def by (auto intro!: bexI[of _ "with_parent_id nodes p"])
qed

lemma distinct_concat_map:
  "distinct L \<Longrightarrow> (\<And>x. x \<in> set L \<Longrightarrow> distinct (f x)) \<Longrightarrow>
   (\<And>x y. x \<in> set L \<Longrightarrow> y \<in> set L \<Longrightarrow> x \<noteq> y \<Longrightarrow> set (f x) \<inter> set (f y) = {}) \<Longrightarrow>
   distinct (concat (map f L))"
proof (induction L)
  case Nil
  then show ?case by simp
next
  case (Cons a L)
  have "distinct (concat (map f L))" using Cons by simp
  moreover have "distinct (f a)" using Cons.prems(2) by simp
  moreover have "set (f a) \<inter> set (f y) = {}" if "y \<in> set L" for y
    using Cons.prems(1) Cons.prems(3)[of a y] that by auto
  ultimately show ?case by auto
qed

lemma with_parent_id_nodes_distinct:
  "distinct (map StructureServiceThingNode.id nodes) \<Longrightarrow>
   distinct (map StructureServiceThingNode.id (map (with_parent_id nodes) nodes))"
  by (simp add: comp_def)

lemma level_distinct:
  assumes d: "distinct (map StructureServiceThingNode.id nodes)"
  shows "distinct (level nodes k)"
proof (induction k)
  case 0
  from with_parent_id_nodes_distinct[OF d]
  have "distinct (map (with_parent_id nodes) nodes)" using distinct_map by blast
  then show ?case by (simp add: fst_set_parent_ids)
next
  case (Suc k)
  let ?N = "map (with_parent_id nodes) nodes"
  let ?sc = "\<lambda>node. sort_key external_id
              (snd (set_parent_ids nodes) (StructureServiceThingNode.id node))"
  have dN: "distinct ?N" using with_parent_id_nodes_distinct[OF d] distinct_map by blast
  have "distinct (concat (map ?sc (level nodes k)))"
  proof (rule distinct_concat_map)
    show "distinct (level nodes k)" by (rule Suc.IH)
  next
    fix x show "distinct (?sc x)" using dN by (simp add: set_parent_ids_def Let_def)
  next
    fix x y assume x: "x \<in> set (level nodes k)" and y: "y \<in> set (level nodes k)" and ne: "x \<noteq> y"
    from level_sound[OF d x] level_sound[OF d y] have xy: "x \<in> set ?N" "y \<in> set ?N" by simp_all
    have "StructureServiceThingNode.id x \<noteq> StructureServiceThingNode.id y"
      using same_id_same_node[OF with_parent_id_nodes_distinct[OF d] xy] ne by blast
    then show "set (?sc x) \<inter> set (?sc y) = {}"
      by (auto simp: children_set)
  qed
  then show ?case by (simp add: next_level_def)
qed

lemma level_empty_mono: "level nodes k = [] \<Longrightarrow> level nodes (k + d) = []"
  by (induction d) (simp_all add: next_level_def)

lemma bfs_levels_unroll:
  "level nodes (k + d) = [] \<Longrightarrow>
   bfs_levels (snd (set_parent_ids nodes)) (level nodes k) acc =
     Some (acc @ concat (map (level nodes) [k..<k + d]))"
proof (induction d arbitrary: k acc)
  case 0
  then show ?case by (subst bfs_levels.simps) simp
next
  case (Suc d)
  have nxt: "concat (map (\<lambda>node. sort_key external_id
                (snd (set_parent_ids nodes) (StructureServiceThingNode.id node))) (level nodes k))
             = level nodes (Suc k)"
    by (simp add: next_level_def)
  have upt: "[k..<k + Suc d] = k # [Suc k..<Suc k + d]"
    by (simp add: upt_conv_Cons)
  show ?case
  proof (cases "level nodes (Suc k) = []")
    case True
    have "level nodes x = []" if "Suc k \<le> x" for x
      using level_empty_mono[OF True, of "x - Suc k"] that by (simp del: level.simps)
    then have "concat (map (level nodes) [Suc k..<Suc k + d]) = []"
      by (auto simp del: level.simps)
    with True show ?thesis
      by (subst bfs_levels.simps) (simp only: nxt Let_def upt, simp)
  next
    case False
    from Suc.prems have "level nodes (Suc k + d) = []" by simp
    from Suc.IH[OF this]
    have "bfs_levels (snd (set_parent_ids nodes)) (level nodes (Suc k)) (acc @ level nodes k) =
            Some ((acc @ level nodes k) @ concat (map (level nodes) [Suc k..<Suc k + d]))" .
    with False show ?thesis
      by (subst bfs_levels.simps) (simp only: nxt Let_def upt, simp)
  qed
qed

lemma sort_thing_nodes_levels:
  "level nodes D = [] \<Longrightarrow>
   sort_thing_nodes nodes =
     Some (map (with_parent_id nodes) nodes, concat (map (level nodes) [0..<D]))"
  using bfs_levels_unroll[of nodes 0 D "[]"]
  by (simp add: sort_thing_nodes_def case_prod_unfold fst_set_parent_ids Let_def)

lemma concat_position:
  "j < length (concat xss) \<Longrightarrow>
   \<exists>b j'. b < length xss \<and> j' < length (xss ! b) \<and> concat xss ! j = xss ! b ! j'"
proof (induction xss arbitrary: j)
  case Nil
  then show ?case by simp
next
  case (Cons xs xss)
  show ?case
  proof (cases "j < length xs")
    case True
    then have "0 < length (xs # xss) \<and> j < length ((xs # xss) ! 0)
               \<and> concat (xs # xss) ! j = (xs # xss) ! 0 ! j"
      by (simp add: nth_append)
    then show ?thesis by blast
  next
    case False
    with Cons.prems have "j - length xs < length (concat xss)" by simp
    from Cons.IH[OF this] obtain b j' where
      "b < length xss" "j' < length (xss ! b)" "concat xss ! (j - length xs) = xss ! b ! j'"
      by blast
    then have "Suc b < length (xs # xss) \<and> j' < length ((xs # xss) ! Suc b)
               \<and> concat (xs # xss) ! j = (xs # xss) ! Suc b ! j'"
      using False by (simp add: nth_append)
    then show ?thesis by blast
  qed
qed

lemma concat_positions:
  "i < j \<Longrightarrow> j < length (concat xss) \<Longrightarrow>
   \<exists>a b i' j'. a \<le> b \<and> b < length xss \<and> i' < length (xss ! a) \<and> j' < length (xss ! b)
     \<and> concat xss ! i = xss ! a ! i' \<and> concat xss ! j = xss ! b ! j' \<and> (a = b \<longrightarrow> i' < j')"
proof (induction xss arbitrary: i j)
  case Nil
  then show ?case by simp
next
  case (Cons xs xss)
  consider "j < length xs" | "i < length xs" "\<not> j < length xs" | "\<not> i < length xs"
    by blast
  then show ?case
  proof cases
    case 1
    with Cons.prems(1) have
      "(0::nat) \<le> 0 \<and> 0 < length (xs # xss) \<and> i < length ((xs # xss) ! 0)
       \<and> j < length ((xs # xss) ! 0)
       \<and> concat (xs # xss) ! i = (xs # xss) ! 0 ! i
       \<and> concat (xs # xss) ! j = (xs # xss) ! 0 ! j \<and> ((0::nat) = 0 \<longrightarrow> i < j)"
      by (simp add: nth_append)
    then show ?thesis by blast
  next
    case 2
    with Cons.prems have "j - length xs < length (concat xss)" by simp
    from concat_position[OF this] obtain b j' where
      "b < length xss" "j' < length (xss ! b)" "concat xss ! (j - length xs) = xss ! b ! j'"
      by blast
    with 2 have
      "0 \<le> Suc b \<and> Suc b < length (xs # xss) \<and> i < length ((xs # xss) ! 0)
       \<and> j' < length ((xs # xss) ! Suc b)
       \<and> concat (xs # xss) ! i = (xs # xss) ! 0 ! i
       \<and> concat (xs # xss) ! j = (xs # xss) ! Suc b ! j' \<and> (0 = Suc b \<longrightarrow> i < j')"
      by (simp add: nth_append)
    then show ?thesis by blast
  next
    case 3
    with Cons.prems have "i - length xs < j - length xs" "j - length xs < length (concat xss)"
      by simp_all
    from Cons.IH[OF this] obtain a b i' j' where
      "a \<le> b" "b < length xss" "i' < length (xss ! a)" "j' < length (xss ! b)"
      "concat xss ! (i - length xs) = xss ! a ! i'" "concat xss ! (j - length xs) = xss ! b ! j'"
      "a = b \<longrightarrow> i' < j'"
      by blast
    with 3 Cons.prems(1) have
      "Suc a \<le> Suc b \<and> Suc b < length (xs # xss) \<and> i' < length ((xs # xss) ! Suc a)
       \<and> j' < length ((xs # xss) ! Suc b)
       \<and> concat (xs # xss) ! i = (xs # xss) ! Suc a ! i'
       \<and> concat (xs # xss) ! j = (xs # xss) ! Suc b ! j' \<and> (Suc a = Suc b \<longrightarrow> i' < j')"
      by (simp add: nth_append)
    then show ?thesis by blast
  qed
qed


lemma concat_map_positions:
  assumes "i < j" "j < length (concat (map f L))"
  shows "\<exists>a b i' j'. a \<le> b \<and> b < length L \<and> i' < length (f (L ! a)) \<and> j' < length (f (L ! b))
     \<and> concat (map f L) ! i = f (L ! a) ! i' \<and> concat (map f L) ! j = f (L ! b) ! j'
     \<and> (a = b \<longrightarrow> i' < j')"
proof -
  from concat_positions[OF assms] obtain a b i' j' where
    *: "a \<le> b" "b < length (map f L)" "i' < length (map f L ! a)" "j' < length (map f L ! b)"
    "concat (map f L) ! i = map f L ! a ! i'" "concat (map f L) ! j = map f L ! b ! j'"
    "a = b \<longrightarrow> i' < j'"
    by blast
  from *(1,2) have "a < length L" "b < length L" by simp_all
  then have "map f L ! a = f (L ! a)" "map f L ! b = f (L ! b)" by simp_all
  with * show ?thesis
    by (intro exI[of _ a] exI[of _ b] exI[of _ i'] exI[of _ j']) simp
qed

lemma level_positions:
  assumes "i < j" "j < length (concat (map (level nodes) [0..<D]))"
  shows "\<exists>a b i' j'. a \<le> b \<and> b < D \<and> i' < length (level nodes a) \<and> j' < length (level nodes b)
     \<and> concat (map (level nodes) [0..<D]) ! i = level nodes a ! i'
     \<and> concat (map (level nodes) [0..<D]) ! j = level nodes b ! j'
     \<and> (a = b \<longrightarrow> i' < j')"
proof -
  from concat_map_positions[OF assms] obtain a b i' j' where
    *: "a \<le> b" "b < length [0..<D]" "i' < length (level nodes ([0..<D] ! a))"
    "j' < length (level nodes ([0..<D] ! b))"
    "concat (map (level nodes) [0..<D]) ! i = level nodes ([0..<D] ! a) ! i'"
    "concat (map (level nodes) [0..<D]) ! j = level nodes ([0..<D] ! b) ! j'"
    "a = b \<longrightarrow> i' < j'"
    by blast
  from *(1,2) have "a < D" "b < D" by simp_all
  then have "[0..<D] ! a = a" "[0..<D] ! b = b" by simp_all
  with * \<open>b < D\<close> show ?thesis
    by (intro exI[of _ a] exI[of _ b] exI[of _ i'] exI[of _ j']) simp
qed

lemma level_position:
  assumes "j < length (concat (map (level nodes) [0..<D]))"
  shows "\<exists>b < D. concat (map (level nodes) [0..<D]) ! j \<in> set (level nodes b)"
proof -
  from concat_position[OF assms] obtain b j' where
    *: "b < length (map (level nodes) [0..<D])" "j' < length (map (level nodes) [0..<D] ! b)"
    "concat (map (level nodes) [0..<D]) ! j = map (level nodes) [0..<D] ! b ! j'"
    by blast
  from *(1) have "b < D" by simp
  then have "map (level nodes) [0..<D] ! b = level nodes b" by simp
  with * \<open>b < D\<close> show ?thesis by (intro exI[of _ b]) simp
qed

lemma level_at_length_empty:
  assumes "valid_forest nodes"
  shows "level nodes (length nodes) = []"
proof (rule ccontr)
  assume "level nodes (length nodes) \<noteq> []"
  then obtain m where m: "m \<in> set (level nodes (length nodes))" by (cases "level nodes (length nodes)") auto
  from assms have d: "distinct (map StructureServiceThingNode.id nodes)"
    by (simp add: valid_forest_def)
  from level_sound[OF d m] obtain n0 where n0: "n0 \<in> set nodes" "m = with_parent_id nodes n0"
    and dm: "at_depth nodes (length nodes) m" by auto
  from dm n0 have "at_depth nodes (length nodes) n0" by simp
  moreover from assms n0(1) obtain k where "k < length nodes" "at_depth nodes k n0"
    by (auto simp: valid_forest_def)
  ultimately show False using at_depth_unique by blast
qed

lemma flattened_set:
  assumes "valid_forest nodes"
  shows "set (concat (map (level nodes) [0..<length nodes])) = set (map (with_parent_id nodes) nodes)"
proof (intro equalityI subsetI)
  fix m assume "m \<in> set (concat (map (level nodes) [0..<length nodes]))"
  then obtain k where "m \<in> set (level nodes k)" by auto
  from assms have d: "distinct (map StructureServiceThingNode.id nodes)"
    by (simp add: valid_forest_def)
  from level_sound[OF d \<open>m \<in> set (level nodes k)\<close>]
  show "m \<in> set (map (with_parent_id nodes) nodes)" by simp
next
  fix m assume m: "m \<in> set (map (with_parent_id nodes) nodes)"
  then obtain n0 where n0: "n0 \<in> set nodes" "m = with_parent_id nodes n0" by auto
  from assms n0(1) obtain k where k: "k < length nodes" "at_depth nodes k n0"
    by (auto simp: valid_forest_def)
  from k(2) n0(2) have "at_depth nodes k m" by simp
  from level_complete[OF m this] k(1)
  show "m \<in> set (concat (map (level nodes) [0..<length nodes]))" by auto
qed

lemma flattened_distinct:
  assumes d: "distinct (map StructureServiceThingNode.id nodes)"
  shows "distinct (concat (map (level nodes) [0..<D]))"
proof (rule distinct_concat_map)
  show "distinct [0..<D]" by simp
next
  fix x show "distinct (level nodes x)" by (rule level_distinct[OF d])
next
  fix x y :: nat assume "x \<noteq> y"
  show "set (level nodes x) \<inter> set (level nodes y) = {}"
  proof (rule ccontr)
    assume "set (level nodes x) \<inter> set (level nodes y) \<noteq> {}"
    then obtain m where "m \<in> set (level nodes x)" "m \<in> set (level nodes y)" by blast
    from level_sound[OF d this(1)] level_sound[OF d this(2)]
    have "at_depth nodes x m" "at_depth nodes y m" by simp_all
    with \<open>x \<noteq> y\<close> show False using at_depth_unique by blast
  qed
qed

lemma flattened_levels_ascending:
  assumes d: "distinct (map StructureServiceThingNode.id nodes)"
  shows "levels_ascending nodes (concat (map (level nodes) [0..<D]))"
  unfolding levels_ascending_def
proof (intro allI impI)
  let ?out = "concat (map (level nodes) [0..<D])"
  fix j i a b
  assume j: "j < length ?out" and i: "i < j"
    and ab: "at_depth nodes a (?out ! i) \<and> at_depth nodes b (?out ! j)"
  from level_positions[OF i j] obtain a' b' i' j' where
    *: "a' \<le> b'" "i' < length (level nodes a')" "j' < length (level nodes b')"
    "?out ! i = level nodes a' ! i'" "?out ! j = level nodes b' ! j'"
    by blast
  from * have "?out ! i \<in> set (level nodes a')" "?out ! j \<in> set (level nodes b')" by simp_all
  from level_sound[OF d this(1)] level_sound[OF d this(2)]
  have "at_depth nodes a' (?out ! i)" "at_depth nodes b' (?out ! j)" by simp_all
  with ab have "a = a'" "b = b'" using at_depth_unique by blast+
  with *(1) show "a \<le> b" by simp
qed


lemma flattened_ancestors_first:
  assumes d: "distinct (map StructureServiceThingNode.id nodes)"
  shows "ancestors_first nodes (concat (map (level nodes) [0..<D]))"
  unfolding ancestors_first_def
proof (intro allI impI)
  let ?out = "concat (map (level nodes) [0..<D])"
  let ?N = "map (with_parent_id nodes) nodes"
  fix j i k a
  assume j: "j < length ?out" and i: "i < length ?out"
    and h: "nth_parent nodes (Suc k) (?out ! j) = Some a
            \<and> StructureServiceThingNode.id a = StructureServiceThingNode.id (?out ! i)"
  from level_position[OF j] obtain dj where dj: "?out ! j \<in> set (level nodes dj)" by blast
  from level_position[OF i] obtain di where di: "?out ! i \<in> set (level nodes di)" by blast
  from level_sound[OF d dj] have depth_j: "at_depth nodes dj (?out ! j)" by simp
  from level_sound[OF d di] have depth_i: "at_depth nodes di (?out ! i)"
    and iN: "?out ! i \<in> set ?N" by simp_all
  from at_depth_nth_parent[OF depth_j conjunct1[OF h]]
  have le: "Suc k \<le> dj" and depth_a: "at_depth nodes (dj - Suc k) a" by simp_all
  have aN: "a \<in> set nodes"
    using conjunct1[OF h] by (rule nth_parent_in_nodes)
  then have "with_parent_id nodes a \<in> set ?N" by simp
  moreover have "StructureServiceThingNode.id (with_parent_id nodes a)
                 = StructureServiceThingNode.id (?out ! i)"
    using h by simp
  ultimately have "with_parent_id nodes a = ?out ! i"
    using same_id_same_node[OF with_parent_id_nodes_distinct[OF d] _ iN] by blast
  with depth_a have "at_depth nodes (dj - Suc k) (?out ! i)" by (metis at_depth_with_parent_id)
  with depth_i have di_eq: "di = dj - Suc k" using at_depth_unique by blast
  show "i < j"
  proof (rule ccontr)
    assume "\<not> i < j"
    then consider "i = j" | "j < i" by linarith
    then show False
    proof cases
      case 1
      with depth_i depth_j have "di = dj" using at_depth_unique by blast
      with di_eq le show False by simp
    next
      case 2
      from flattened_levels_ascending[OF d, of D] i 2 depth_i depth_j
      have "dj \<le> di" unfolding levels_ascending_def by blast
      with di_eq le show False by simp
    qed
  qed
qed

lemma flattened_siblings_ordered:
  assumes d: "distinct (map StructureServiceThingNode.id nodes)"
  shows "siblings_ordered nodes (concat (map (level nodes) [0..<D]))"
  unfolding siblings_ordered_def
proof (intro allI impI)
  let ?out = "concat (map (level nodes) [0..<D])"
  let ?N = "map (with_parent_id nodes) nodes"
  let ?sc = "\<lambda>node. sort_key external_id
              (snd (set_parent_ids nodes) (StructureServiceThingNode.id node))"
  fix j i
  assume j: "j < length ?out" and i: "i < j"
    and h: "parent_of nodes (?out ! i) \<noteq> None
            \<and> parent_of nodes (?out ! i) = parent_of nodes (?out ! j)"
  from conjunct1[OF h] obtain p where p1: "parent_of nodes (?out ! i) = Some p"
    by auto
  with h have p: "parent_of nodes (?out ! i) = Some p" "parent_of nodes (?out ! j) = Some p"
    by simp_all
  from level_positions[OF i j] obtain a b i' j' where
    *: "i' < length (level nodes a)" "j' < length (level nodes b)"
    "?out ! i = level nodes a ! i'" "?out ! j = level nodes b ! j'" "a = b \<longrightarrow> i' < j'"
    by blast
  from * have "?out ! i \<in> set (level nodes a)" "?out ! j \<in> set (level nodes b)" by simp_all
  from level_sound[OF d this(1)] level_sound[OF d this(2)]
  have da: "at_depth nodes a (?out ! i)" and db: "at_depth nodes b (?out ! j)" by simp_all
  from da p(1) obtain k where a: "a = Suc k" and "at_depth nodes k p"
    by (cases a) (auto simp: parent_of_def)
  from db p(2) obtain k' where b: "b = Suc k'" and "at_depth nodes k' p"
    by (cases b) (auto simp: parent_of_def)
  from \<open>at_depth nodes k p\<close> \<open>at_depth nodes k' p\<close> have "k = k'" by (rule at_depth_unique)
  with a b * have ij': "i' < j'" and b': "b = Suc k" by simp_all
  have lv: "level nodes (Suc k) = concat (map ?sc (level nodes k))"
    by (simp add: next_level_def)
  from *(2) have "j' < length (concat (map ?sc (level nodes k)))"
    unfolding b' lv .
  from concat_map_positions[OF ij' this] obtain a2 b2 i2 j2 where
    **: "a2 \<le> b2" "b2 < length (level nodes k)"
    "i2 < length (?sc (level nodes k ! a2))" "j2 < length (?sc (level nodes k ! b2))"
    "concat (map ?sc (level nodes k)) ! i' = ?sc (level nodes k ! a2) ! i2"
    "concat (map ?sc (level nodes k)) ! j' = ?sc (level nodes k ! b2) ! j2"
    "a2 = b2 \<longrightarrow> i2 < j2"
    by blast
  have oi: "?out ! i = ?sc (level nodes k ! a2) ! i2" using *(3) **(5) unfolding a lv by simp
  have oj: "?out ! j = ?sc (level nodes k ! b2) ! j2" using *(4) **(6) unfolding b' lv by simp
  from oi **(3) have "?out ! i \<in> set (?sc (level nodes k ! a2))" by (metis nth_mem)
  then have "?out ! i \<in> set (snd (set_parent_ids nodes)
                 (StructureServiceThingNode.id (level nodes k ! a2)))" by simp
  with p(1) have ida: "StructureServiceThingNode.id p
                        = StructureServiceThingNode.id (level nodes k ! a2)"
    unfolding children_set by auto
  from oj **(4) have "?out ! j \<in> set (?sc (level nodes k ! b2))" by (metis nth_mem)
  then have "?out ! j \<in> set (snd (set_parent_ids nodes)
                 (StructureServiceThingNode.id (level nodes k ! b2)))" by simp
  with p(2) have idb: "StructureServiceThingNode.id p
                        = StructureServiceThingNode.id (level nodes k ! b2)"
    unfolding children_set by auto
  from **(1,2) have a2: "a2 < length (level nodes k)" by simp
  from a2 have "level nodes k ! a2 \<in> set (level nodes k)" by simp
  from level_sound[OF d this] have xN: "level nodes k ! a2 \<in> set ?N" by simp
  from **(2) have "level nodes k ! b2 \<in> set (level nodes k)" by simp
  from level_sound[OF d this] have yN: "level nodes k ! b2 \<in> set ?N" by simp
  from same_id_same_node[OF with_parent_id_nodes_distinct[OF d] xN yN] ida idb
  have "level nodes k ! a2 = level nodes k ! b2" by simp
  with level_distinct[OF d, of k] a2 **(2) have eq: "a2 = b2"
    by (simp add: nth_eq_iff_index_eq)
  with **(7) have "i2 < j2" by simp
  have "sorted (map external_id (?sc (level nodes k ! b2)))" by (rule sorted_sort_key)
  from sorted_nth_mono[OF this, of i2 j2] \<open>i2 < j2\<close> **(4)
  have "external_id (?sc (level nodes k ! b2) ! i2) \<le> external_id (?sc (level nodes k ! b2) ! j2)"
    by simp
  with oi oj eq show "external_id (?out ! i) \<le> external_id (?out ! j)" by simp
qed

lemma concat_map_upt_block:
  assumes "k < D" "a < length (f k)"
  shows "length (concat (map f [0..<k])) + a < length (concat (map f [0..<D]))
       \<and> concat (map f [0..<D]) ! (length (concat (map f [0..<k])) + a) = f k ! a"
proof -
  from assms(1) have "[0..<D] = [0..<k] @ k # [Suc k..<D]"
    using upt_add_eq_append[of 0 k "D - k"] by (simp add: upt_conv_Cons)
  then have "concat (map f [0..<D])
             = concat (map f [0..<k]) @ f k @ concat (map f [Suc k..<D])"
    by simp
  with assms(2) show ?thesis by (simp add: nth_append)
qed

lemma flattened_ids_distinct:
  assumes d: "distinct (map StructureServiceThingNode.id nodes)"
  shows "distinct (map StructureServiceThingNode.id (concat (map (level nodes) [0..<D])))"
proof -
  let ?out = "concat (map (level nodes) [0..<D])"
  let ?N = "map (with_parent_id nodes) nodes"
  have "set ?out \<subseteq> set ?N" using level_sound[OF d] by auto
  moreover from with_parent_id_nodes_distinct[OF d]
  have "inj_on StructureServiceThingNode.id (set ?N)" by (simp only: distinct_map)
  ultimately have "inj_on StructureServiceThingNode.id (set ?out)" by (rule inj_on_subset[rotated])
  with flattened_distinct[OF d, of D] show ?thesis by (simp only: distinct_map) 
qed

lemma flattened_roots_keep_order:
  assumes d: "distinct (map StructureServiceThingNode.id nodes)"
  shows "roots_keep_order nodes (concat (map (level nodes) [0..<Suc D]))"
proof -
  let ?root = "\<lambda>node. parent_external_node_id node = None"
  have w: "with_parent_id nodes n = n" if "?root n" for n
    using that by (simp add: with_parent_id_def parent_of_def)
  have "filter ?root (map (with_parent_id nodes) ns) = filter ?root ns" for ns
    by (induction ns) (auto simp: w)
  then have l0: "level nodes 0 = filter ?root nodes" by (simp add: fst_set_parent_ids)
  have nr: "\<not> ?root m" if "m \<in> set (level nodes x)" "0 < x" for m x
  proof -
    from that(2) obtain k where x: "x = Suc k" by (cases x) auto
    from level_sound[OF d that(1)] have "at_depth nodes (Suc k) m" unfolding x by simp
    then show ?thesis by (auto simp: parent_of_def split: option.splits)
  qed
  have "filter ?root (concat (map (level nodes) [Suc 0..<Suc D])) = []"
    unfolding filter_empty_conv using nr by (auto simp del: level.simps upt_Suc)
  moreover have "[0..<Suc D] = 0 # [Suc 0..<Suc D]" by (simp add: upt_conv_Cons)
  ultimately have "filter ?root (concat (map (level nodes) [0..<Suc D])) = filter ?root (level nodes 0)"
    by (simp del: level.simps upt_Suc)
  then show ?thesis unfolding roots_keep_order_def l0 by simp
qed

lemma flattened_level_follows_parents:
  assumes d: "distinct (map StructureServiceThingNode.id nodes)"
  shows "level_follows_parents nodes (concat (map (level nodes) [0..<D]))"
  unfolding level_follows_parents_def
proof (intro allI impI)
  let ?out = "concat (map (level nodes) [0..<D])"
  let ?sc = "\<lambda>node. sort_key external_id
              (snd (set_parent_ids nodes) (StructureServiceThingNode.id node))"
  fix j i i' j' k p q
  assume j: "j < length ?out" and i: "i < j" and i': "i' < length ?out" and j': "j' < length ?out"
    and h: "at_depth nodes k (?out ! i) \<and> at_depth nodes k (?out ! j)
        \<and> parent_of nodes (?out ! i) = Some p \<and> parent_of nodes (?out ! j) = Some q
        \<and> StructureServiceThingNode.id (?out ! i') = StructureServiceThingNode.id p
        \<and> StructureServiceThingNode.id (?out ! j') = StructureServiceThingNode.id q"
  from h have di: "at_depth nodes k (?out ! i)" and dj: "at_depth nodes k (?out ! j)"
    and p: "parent_of nodes (?out ! i) = Some p" and q: "parent_of nodes (?out ! j) = Some q"
    and ip: "StructureServiceThingNode.id (?out ! i') = StructureServiceThingNode.id p"
    and jq: "StructureServiceThingNode.id (?out ! j') = StructureServiceThingNode.id q"
    by simp_all
  from level_positions[OF i j] obtain a b x y where
    *: "b < D" "x < length (level nodes a)" "y < length (level nodes b)"
    "?out ! i = level nodes a ! x" "?out ! j = level nodes b ! y" "a = b \<longrightarrow> x < y"
    by blast
  from * have "?out ! i \<in> set (level nodes a)" "?out ! j \<in> set (level nodes b)" by simp_all
  from level_sound[OF d this(1)] level_sound[OF d this(2)]
  have "at_depth nodes a (?out ! i)" "at_depth nodes b (?out ! j)" by simp_all
  with di dj have ak: "a = k" and bk: "b = k" using at_depth_unique by blast+
  from di p obtain k0 where k: "k = Suc k0" by (cases k) (auto simp: parent_of_def)
  from * ak bk have xy: "x < y" by simp
  have lv: "level nodes (Suc k0) = concat (map ?sc (level nodes k0))"
    by (simp add: next_level_def)
  from *(3) have "y < length (concat (map ?sc (level nodes k0)))"
    unfolding bk k lv .
  from concat_map_positions[OF xy this] obtain a2 b2 x2 y2 where
    **: "a2 \<le> b2" "b2 < length (level nodes k0)"
    "x2 < length (?sc (level nodes k0 ! a2))" "y2 < length (?sc (level nodes k0 ! b2))"
    "concat (map ?sc (level nodes k0)) ! x = ?sc (level nodes k0 ! a2) ! x2"
    "concat (map ?sc (level nodes k0)) ! y = ?sc (level nodes k0 ! b2) ! y2"
    by blast
  have oi: "?out ! i = ?sc (level nodes k0 ! a2) ! x2" using *(4) **(5) unfolding ak k lv by simp
  have oj: "?out ! j = ?sc (level nodes k0 ! b2) ! y2" using *(5) **(6) unfolding bk k lv by simp
  from oi **(3) have "?out ! i \<in> set (?sc (level nodes k0 ! a2))" by (metis nth_mem)
  then have "?out ! i \<in> set (snd (set_parent_ids nodes)
                 (StructureServiceThingNode.id (level nodes k0 ! a2)))" by simp
  with p have ida: "StructureServiceThingNode.id p
                        = StructureServiceThingNode.id (level nodes k0 ! a2)"
    unfolding children_set by auto
  from oj **(4) have "?out ! j \<in> set (?sc (level nodes k0 ! b2))" by (metis nth_mem)
  then have "?out ! j \<in> set (snd (set_parent_ids nodes)
                 (StructureServiceThingNode.id (level nodes k0 ! b2)))" by simp
  with q have idb: "StructureServiceThingNode.id q
                        = StructureServiceThingNode.id (level nodes k0 ! b2)"
    unfolding children_set by auto
  let ?off = "length (concat (map (level nodes) [0..<k0]))"
  from *(1) bk k have k0: "k0 < D" by simp
  from **(1,2) have a2: "a2 < length (level nodes k0)" by simp
  from concat_map_upt_block[of k0 D a2 "level nodes", OF k0 a2]
  have pa: "?off + a2 < length ?out" "?out ! (?off + a2) = level nodes k0 ! a2" by simp_all
  from concat_map_upt_block[of k0 D b2 "level nodes", OF k0 **(2)]
  have pb: "?off + b2 < length ?out" "?out ! (?off + b2) = level nodes k0 ! b2" by simp_all
  note di = flattened_ids_distinct[OF d, of D]
  have "map StructureServiceThingNode.id ?out ! i' = map StructureServiceThingNode.id ?out ! (?off + a2)"
    using i' pa ip ida by simp
  with di i' pa(1) have ei: "i' = ?off + a2" by (simp only: nth_eq_iff_index_eq length_map)
  have "map StructureServiceThingNode.id ?out ! j' = map StructureServiceThingNode.id ?out ! (?off + b2)"
    using j' pb jq idb by simp
  with di j' pb(1) have ej: "j' = ?off + b2" by (simp only: nth_eq_iff_index_eq length_map)
  from ei ej **(1) show "i' \<le> j'" by simp
qed

lemma with_parent_id_parent_ids_set:
  assumes "valid_forest nodes"
  shows "parent_ids_set nodes (map (with_parent_id nodes) nodes)"
  unfolding parent_ids_set_def
proof (intro ballI impI)
  fix m assume m: "m \<in> set (map (with_parent_id nodes) nodes)"
    and nr: "parent_external_node_id m \<noteq> None"
  from m obtain n0 where n0: "n0 \<in> set nodes" "m = with_parent_id nodes n0" by auto
  from assms n0(1) obtain k where k: "at_depth nodes k n0" by (auto simp: valid_forest_def)
  from nr n0(2) have "parent_external_node_id n0 \<noteq> None" by simp
  with k obtain p where p: "parent_of nodes n0 = Some p"
    by (cases k) (auto split: option.splits)
  then have "parent_node_id (with_parent_id nodes n0) = Some (StructureServiceThingNode.id p)"
    by (simp add: with_parent_id_def)
  with p n0(2) show "\<exists>p. parent_of nodes m = Some p
             \<and> parent_node_id m = Some (StructureServiceThingNode.id p)"
    by simp
qed

lemma sort_thing_nodes_cousins:
  "sort_thing_nodes cousins = Some (cousins_with_parent_ids, cousins_flattened)"
proof -
  have sp: "map (with_parent_id cousins) cousins = cousins_with_parent_ids"
    by (simp add: cousins_def cousins_with_parent_ids_def
        with_parent_id_def parent_of_def thing_node_map_def tn_def)
  have l0: "level cousins 0 = [tn 1 ''GW'' ''R'' None]"
    by (simp add: fst_set_parent_ids cousins_def with_parent_id_def parent_of_def
        thing_node_map_def tn_def)
  have ch: "snd (set_parent_ids cousins) i =
     (if i = 1 then [(tn 3 ''GW'' ''b'' (Some ''R'')) \<lparr>parent_node_id := Some 1\<rparr>,
                     (tn 2 ''GW'' ''a'' (Some ''R'')) \<lparr>parent_node_id := Some 1\<rparr>]
      else if i = 2 then [(tn 4 ''GW'' ''z'' (Some ''a'')) \<lparr>parent_node_id := Some 2\<rparr>]
      else if i = 3 then [(tn 5 ''GW'' ''c'' (Some ''b'')) \<lparr>parent_node_id := Some 3\<rparr>]
      else [])" for i
    by (simp add: set_parent_ids_def Let_def cousins_def
        with_parent_id_def parent_of_def thing_node_map_def tn_def)
  have l1: "level cousins 1 =
     [(tn 2 ''GW'' ''a'' (Some ''R'')) \<lparr>parent_node_id := Some 1\<rparr>,
      (tn 3 ''GW'' ''b'' (Some ''R'')) \<lparr>parent_node_id := Some 1\<rparr>]"
    unfolding One_nat_def level.simps l0[simplified] next_level_def
    by (simp add: ch) (simp add: tn_def)
  have l2: "level cousins 2 =
     [(tn 4 ''GW'' ''z'' (Some ''a'')) \<lparr>parent_node_id := Some 2\<rparr>,
      (tn 5 ''GW'' ''c'' (Some ''b'')) \<lparr>parent_node_id := Some 3\<rparr>]"
    using l1 unfolding numeral_2_eq_2 One_nat_def level.simps(2)[of cousins "Suc 0"] next_level_def
    by (simp add: ch) (simp add: tn_def)
  have l3: "level cousins 3 = []"
    using l2 unfolding numeral_3_eq_3 numeral_2_eq_2 level.simps(2)[of cousins "Suc (Suc 0)"]
      next_level_def
    by (simp add: ch) (simp add: tn_def)
  have "[0..<3] = [0, 1, 2::nat]" by (simp add: upt_rec)
  with sort_thing_nodes_levels[OF l3] l0 l1 l2 sp show ?thesis
    by (simp add: cousins_flattened_def del: level.simps)
qed


lemma cousins_valid_forest: "valid_forest cousins"
  unfolding valid_forest_def
proof
  show "distinct (map StructureServiceThingNode.id cousins)"
    by (simp add: cousins_def tn_def)
  have "at_depth cousins 2 (tn 5 ''GW'' ''c'' (Some ''b''))"
    "at_depth cousins 2 (tn 4 ''GW'' ''z'' (Some ''a''))"
    "at_depth cousins 1 (tn 3 ''GW'' ''b'' (Some ''R''))"
    "at_depth cousins 1 (tn 2 ''GW'' ''a'' (Some ''R''))"
    "at_depth cousins 0 (tn 1 ''GW'' ''R'' None)"
    by (simp_all add: numeral_2_eq_2 cousins_def parent_of_def thing_node_map_def tn_def)
  then show "\<forall>n \<in> set cousins. \<exists>k < length cousins. at_depth cousins k n"
    by (auto simp: cousins_def intro: exI[of _ 0] exI[of _ 1] exI[of _ 2])
qed

text \<open>
  Claim C5 (for a valid forest the flattened list is ordered root first by level, every
  parent before its descendants, and within one level by \<open>external_id\<close>). The last part
  fails: the loop sorts the children of each node and appends them parent by parent, so
  a level is ordered by the position of the parent first. In \<open>cousins\<close> the node \<open>z\<close>
  (child of \<open>a\<close>) comes before the node \<open>c\<close> (child of \<open>b\<close>), both on level 2.
\<close>

theorem sort_thing_nodes_levels_not_ordered:
  "valid_forest cousins
   \<and> sort_thing_nodes cousins = Some (cousins_with_parent_ids, cousins_flattened)
   \<and> at_depth cousins 2 (cousins_flattened ! 3) \<and> at_depth cousins 2 (cousins_flattened ! 4)
   \<and> external_id (cousins_flattened ! 3) = ''z'' \<and> external_id (cousins_flattened ! 4) = ''c''
   \<and> \<not> ordered_within_levels cousins cousins_flattened"
proof -
  note v = cousins_valid_forest
  have d: "at_depth cousins 2 (cousins_flattened ! 3)" "at_depth cousins 2 (cousins_flattened ! 4)"
    by (simp_all add: numeral_2_eq_2 cousins_flattened_def cousins_def parent_of_def
        thing_node_map_def tn_def)
  have e: "external_id (cousins_flattened ! 3) = ''z''" "external_id (cousins_flattened ! 4) = ''c''"
    by (simp_all add: cousins_flattened_def tn_def)
  have ne: "\<not> external_id (cousins_flattened ! 3) \<le> external_id (cousins_flattened ! 4)"
    unfolding e by simp
  have "\<not> ordered_within_levels cousins cousins_flattened"
  proof
    assume o: "ordered_within_levels cousins cousins_flattened"
    have "(4::nat) < length cousins_flattened" "(3::nat) < 4" "(2::nat) < length cousins"
      by (simp_all add: cousins_flattened_def cousins_def)
    with o d have "external_id (cousins_flattened ! 3) \<le> external_id (cousins_flattened ! 4)"
      unfolding ordered_within_levels_def by blast
    with ne show False by simp
  qed
  with v d e sort_thing_nodes_cousins show ?thesis by blast
qed

text \<open>
  Claim C5 as amended: for a valid forest \<^verbatim>\<open>sort_thing_nodes\<close> terminates, sets the parent
  id of every node that is not a root (\<open>parent_ids_set\<close>), and returns every node exactly
  once, ordered root first by level
  (\<open>levels_ascending\<close>), every ancestor before each of its descendants
  (\<open>ancestors_first\<close>), and the children of one parent in the order of their
  \<open>external_id\<close> (\<open>siblings_ordered\<close>); the roots keep the order of the input
  (\<open>roots_keep_order\<close>), and the nodes of one level follow the order of their parents
  (\<open>level_follows_parents\<close>).
\<close>

theorem sort_thing_nodes_forest:
  assumes "valid_forest nodes"
  shows "\<exists>flattened_nodes.
           sort_thing_nodes nodes = Some (map (with_parent_id nodes) nodes, flattened_nodes)
         \<and> distinct flattened_nodes
         \<and> set flattened_nodes = set (map (with_parent_id nodes) nodes)
         \<and> parent_ids_set nodes flattened_nodes
         \<and> levels_ascending nodes flattened_nodes
         \<and> ancestors_first nodes flattened_nodes
         \<and> siblings_ordered nodes flattened_nodes
         \<and> roots_keep_order nodes flattened_nodes
         \<and> level_follows_parents nodes flattened_nodes"
proof -
  from assms have d: "distinct (map StructureServiceThingNode.id nodes)"
    by (simp add: valid_forest_def)
  let ?out = "concat (map (level nodes) [0..<length nodes])"
  have "sort_thing_nodes nodes = Some (map (with_parent_id nodes) nodes, ?out)"
    by (rule sort_thing_nodes_levels[OF level_at_length_empty[OF assms]])
  moreover have "distinct ?out" by (rule flattened_distinct[OF d])
  moreover have "set ?out = set (map (with_parent_id nodes) nodes)"
    by (rule flattened_set[OF assms])
  moreover have "parent_ids_set nodes ?out"
    using with_parent_id_parent_ids_set[OF assms] flattened_set[OF assms]
    unfolding parent_ids_set_def by (simp only:)
  moreover have "levels_ascending nodes ?out" by (rule flattened_levels_ascending[OF d])
  moreover have "ancestors_first nodes ?out" by (rule flattened_ancestors_first[OF d])
  moreover have "siblings_ordered nodes ?out" by (rule flattened_siblings_ordered[OF d])
  moreover have "roots_keep_order nodes ?out"
  proof (cases nodes)
    case Nil
    then show ?thesis by (simp add: roots_keep_order_def)
  next
    case (Cons n ns)
    then have "length nodes = Suc (length ns)" by simp
    with flattened_roots_keep_order[OF d, of "length ns"] show ?thesis by (simp only:)
  qed
  moreover have "level_follows_parents nodes ?out" by (rule flattened_level_follows_parents[OF d])
  ultimately show ?thesis by blast
qed

theorem sort_thing_nodes_forest_witness:
  "valid_forest cousins
   \<and> sort_thing_nodes cousins = Some (cousins_with_parent_ids, cousins_flattened)
   \<and> distinct cousins_flattened
   \<and> set cousins_flattened = set cousins_with_parent_ids
   \<and> parent_ids_set cousins cousins_flattened
   \<and> levels_ascending cousins cousins_flattened
   \<and> ancestors_first cousins cousins_flattened
   \<and> siblings_ordered cousins cousins_flattened
   \<and> roots_keep_order cousins cousins_flattened
   \<and> level_follows_parents cousins cousins_flattened"
proof -
  from sort_thing_nodes_forest[OF cousins_valid_forest] obtain out where
    "sort_thing_nodes cousins = Some (map (with_parent_id cousins) cousins, out)"
    "distinct out" "set out = set (map (with_parent_id cousins) cousins)"
    "parent_ids_set cousins out"
    "levels_ascending cousins out" "ancestors_first cousins out" "siblings_ordered cousins out"
    "roots_keep_order cousins out" "level_follows_parents cousins out"
    by blast
  moreover from this(1) sort_thing_nodes_cousins
  have "out = cousins_flattened" "map (with_parent_id cousins) cousins = cousins_with_parent_ids"
    by simp_all
  ultimately show ?thesis using cousins_valid_forest sort_thing_nodes_cousins by simp
qed

section \<open>Idempotence of the structure update\<close>














lemma update_parent_id_fields [simp]:
  "external_id (update_parent_id d r) = external_id r"
  "stakeholder_key (update_parent_id d r) = stakeholder_key r"
  "StructureServiceCommonFieldsModel.name (update_parent_id d r) = StructureServiceCommonFieldsModel.name r"
  "StructureServiceThingNode.id (update_parent_id d r) = StructureServiceThingNode.id r"
  "parent_external_node_id (update_parent_id d r) = parent_external_node_id r"
  by (simp_all add: update_parent_id_def split: option.splits)


















lemma upsert_element_types_frame:
  assumes "upsert_element_types engine db ets = Inr (db', E)"
  shows "\<exists>T. db' = db\<lparr>structure_element_type := T\<rparr>"
proof (cases "ets = []")
  case True
  with assms have "db' = db\<lparr>structure_element_type := structure_element_type db\<rparr>"
    by (simp add: upsert_element_types_def)
  then show ?thesis ..
next
  case False
  with assms show ?thesis
    by (auto simp: upsert_element_types_def split: sum.splits)
qed












end
